(* ===== verification/Prelude.thy ===== *)
theory Prelude
  imports Main "HOL-Library.Char_ord" "HOL-Library.List_Lexorder" "HOL-Library.AList"
begin

text \<open>
  The vocabulary shared by every component: Go strings as byte lists with the functions of the
  Go package \<open>strings\<close> that the operator uses, Go maps as association lists whose order is
  the (unspecified) iteration order, and results that carry an error value.
\<close>

named_theorems go_str "evaluation of Go string functions"
named_theorems go_map "lookup and update of Go maps"

section \<open>Results\<close>

text \<open>A Go pair \<open>(value, error)\<close>: \<open>Inl\<close> is the returned error.\<close>

definition res_bind :: "'e + 'a \<Rightarrow> ('a \<Rightarrow> 'e + 'b) \<Rightarrow> 'e + 'b" where
  "res_bind r f = (case r of Inl e \<Rightarrow> Inl e | Inr x \<Rightarrow> f x)"

lemma res_bind_simps [simp]:
  "res_bind (Inl e) f = Inl e"
  "res_bind (Inr x) f = f x"
  by (simp_all add: res_bind_def)

lemma res_bind_Inr_iff: "res_bind r f = Inr y \<longleftrightarrow> (\<exists>x. r = Inr x \<and> f x = Inr y)"
  by (cases r) auto

section \<open>Go strings\<close>

definition HasPrefix :: "string \<Rightarrow> string \<Rightarrow> bool" where
  "HasPrefix s p \<longleftrightarrow> length p \<le> length s \<and> take (length p) s = p"

definition HasSuffix :: "string \<Rightarrow> string \<Rightarrow> bool" where
  "HasSuffix s p \<longleftrightarrow> length p \<le> length s \<and> drop (length s - length p) s = p"

definition TrimSuffix :: "string \<Rightarrow> string \<Rightarrow> string" where
  "TrimSuffix s p = (if HasSuffix s p then take (length s - length p) s else s)"

definition TrimPrefix :: "string \<Rightarrow> string \<Rightarrow> string" where
  "TrimPrefix s p = (if HasPrefix s p then drop (length p) s else s)"

definition ContainsAny :: "string \<Rightarrow> string \<Rightarrow> bool" where
  "ContainsAny s chars \<longleftrightarrow> list_ex (\<lambda>c. c \<in> set chars) s"

fun Contains :: "string \<Rightarrow> string \<Rightarrow> bool" where
  "Contains [] sub \<longleftrightarrow> sub = []"
| "Contains (c # cs) sub \<longleftrightarrow> HasPrefix (c # cs) sub \<or> Contains cs sub"

text \<open>\<open>strings.Count\<close> for a one-byte substring.\<close>

definition CountByte :: "string \<Rightarrow> char \<Rightarrow> nat" where
  "CountByte s c = count_list s c"

text \<open>\<open>strings.Trim\<close> for a one-byte cutset.\<close>

definition TrimByte :: "char \<Rightarrow> string \<Rightarrow> string" where
  "TrimByte c s = rev (dropWhile (\<lambda>x. x = c) (rev (dropWhile (\<lambda>x. x = c) s)))"

text \<open>\<open>strings.Split\<close> for a one-byte separator; splitting the empty string gives one empty piece.\<close>

fun SplitByte :: "char \<Rightarrow> string \<Rightarrow> string list" where
  "SplitByte sep [] = [[]]"
| "SplitByte sep (c # cs) =
     (if c = sep then [] # SplitByte sep cs
      else (case SplitByte sep cs of [] \<Rightarrow> [[c]] | w # ws \<Rightarrow> (c # w) # ws))"

fun JoinByte :: "char \<Rightarrow> string list \<Rightarrow> string" where
  "JoinByte sep [] = []"
| "JoinByte sep [w] = w"
| "JoinByte sep (w # v # ws) = w @ sep # JoinByte sep (v # ws)"

text \<open>
  \<open>strings.ReplaceAll\<close>: leftmost, non-overlapping occurrences. The operator only calls it
  with a non-empty \<open>old\<close>; the empty one is left alone here.
\<close>

function ReplaceAll :: "string \<Rightarrow> string \<Rightarrow> string \<Rightarrow> string" where
  "ReplaceAll old new [] = []"
| "ReplaceAll old new (c # cs) =
     (if old \<noteq> [] \<and> HasPrefix (c # cs) old
      then new @ ReplaceAll old new (drop (length old) (c # cs))
      else c # ReplaceAll old new cs)"
  by pat_completeness auto
termination
  by (relation "measure (\<lambda>(old, new, s). length s)") auto

declare ReplaceAll.simps [simp del]

text \<open>The test \<open>lo <= c && c <= hi\<close> of a byte.\<close>

abbreviation byte_between :: "char \<Rightarrow> char \<Rightarrow> char \<Rightarrow> bool" where
  "byte_between lo hi c \<equiv> lo \<le> c \<and> c \<le> hi"

text \<open>\<open>strings.NewReplacer\<close> whose old strings are all single bytes: one pass, byte by byte.\<close>

definition ReplaceBytes :: "(char \<times> string) list \<Rightarrow> string \<Rightarrow> string" where
  "ReplaceBytes tbl s = concat (map (\<lambda>c. case map_of tbl c of None \<Rightarrow> [c] | Some r \<Rightarrow> r) s)"

subsection \<open>Prefixes and suffixes\<close>

lemma ex_append_split:
  "(\<exists>u v. s = u @ v \<and> P u v) \<longleftrightarrow> P [] s \<or> (\<exists>u v. s = u @ v \<and> u \<noteq> [] \<and> P u v)"
proof
  assume "\<exists>u v. s = u @ v \<and> P u v"
  then obtain u v where "s = u @ v" "P u v" by blast
  then show "P [] s \<or> (\<exists>u v. s = u @ v \<and> u \<noteq> [] \<and> P u v)" by (cases "u = []") auto
next
  assume "P [] s \<or> (\<exists>u v. s = u @ v \<and> u \<noteq> [] \<and> P u v)"
  then show "\<exists>u v. s = u @ v \<and> P u v"
  proof
    assume "P [] s"
    then have "s = [] @ s \<and> P [] s" by simp
    then show ?thesis by (intro exI)
  qed auto
qed

lemma ex_append_Cons:
  "(\<exists>u v. x # s = u @ v \<and> u \<noteq> [] \<and> P u v) \<longleftrightarrow> (\<exists>u v. s = u @ v \<and> P (x # u) v)"
proof
  assume "\<exists>u v. x # s = u @ v \<and> u \<noteq> [] \<and> P u v"
  then obtain u v where "x # s = u @ v" "u \<noteq> []" "P u v" by blast
  then show "\<exists>u v. s = u @ v \<and> P (x # u) v" by (cases u) auto
next
  assume "\<exists>u v. s = u @ v \<and> P (x # u) v"
  then obtain u v where "x # s = (x # u) @ v" "P (x # u) v" by auto
  then show "\<exists>u v. x # s = u @ v \<and> u \<noteq> [] \<and> P u v" by blast
qed

lemma sep_inject:
  "c \<notin> set a \<Longrightarrow> c \<notin> set b \<Longrightarrow> a @ c # x = b @ c # y \<longleftrightarrow> a = b \<and> x = y"
proof (induction a arbitrary: b)
  case Nil
  then show ?case by (cases b) auto
next
  case (Cons d a)
  then show ?case by (cases b) auto
qed

lemma HasPrefix_append [simp, go_str]: "HasPrefix (p @ s) p"
  by (simp add: HasPrefix_def)

lemma HasPrefix_iff: "HasPrefix s p \<longleftrightarrow> (\<exists>r. s = p @ r)"
  by (auto simp: HasPrefix_def) (metis append_take_drop_id)

lemma HasPrefix_Nil [simp, go_str]: "HasPrefix s []"
  by (simp add: HasPrefix_def)

lemma HasPrefix_Cons [simp, go_str]:
  "HasPrefix [] (c # p) \<longleftrightarrow> False"
  "HasPrefix (x # s) (c # p) \<longleftrightarrow> x = c \<and> HasPrefix s p"
  by (auto simp: HasPrefix_def)

lemma HasSuffix_iff: "HasSuffix s p \<longleftrightarrow> (\<exists>r. s = r @ p)"
  by (auto simp: HasSuffix_def) (metis append_take_drop_id)

lemma HasSuffix_append [simp, go_str]: "HasSuffix (s @ p) p"
  by (simp add: HasSuffix_def)

lemma TrimSuffix_append [simp, go_str]: "TrimSuffix (s @ p) p = s"
  by (simp add: TrimSuffix_def)

lemma TrimSuffix_split: "HasSuffix s p \<Longrightarrow> s = TrimSuffix s p @ p"
  by (auto simp: HasSuffix_iff)

lemma HasSuffix_single: "HasSuffix s [c] \<longleftrightarrow> s \<noteq> [] \<and> last s = c"
  by (cases s rule: rev_cases) (auto simp: HasSuffix_iff)

lemma ContainsAny_iff: "ContainsAny s chars \<longleftrightarrow> (\<exists>c \<in> set s. c \<in> set chars)"
  by (simp add: ContainsAny_def list_ex_iff)

lemma Contains_iff: "Contains s sub \<longleftrightarrow> (\<exists>a b. s = a @ sub @ b)"
proof (induction s)
  case Nil
  then show ?case by auto
next
  case (Cons c s)
  show ?case
  proof
    assume "Contains (c # s) sub"
    then show "\<exists>a b. c # s = a @ sub @ b"
      using Cons.IH by (auto simp: HasPrefix_iff) (metis append_Cons append_Nil)+
  next
    assume "\<exists>a b. c # s = a @ sub @ b"
    then obtain a b where eq: "c # s = a @ sub @ b" by blast
    show "Contains (c # s) sub"
    proof (cases a)
      case Nil
      with eq have "HasPrefix (c # s) sub" by (auto simp: HasPrefix_iff)
      then show ?thesis by simp
    next
      case (Cons x a')
      with eq show ?thesis using Cons.IH by auto
    qed
  qed
qed

subsection \<open>Trim, split and join\<close>

lemma dropWhile_eq_replicate: "\<exists>m. replicate m c @ dropWhile (\<lambda>x. x = c) s = s"
proof (induction s)
  case (Cons x s)
  then obtain m where m: "replicate m c @ dropWhile (\<lambda>x. x = c) s = s" by blast
  show ?case
  proof (cases "x = c")
    case True
    with m have "replicate (Suc m) c @ dropWhile (\<lambda>x. x = c) (x # s) = x # s" by simp
    then show ?thesis by blast
  next
    case False
    then show ?thesis by (auto intro: exI [of _ 0])
  qed
qed simp

lemma TrimByte_decomp: "\<exists>m n. replicate m c @ TrimByte c s @ replicate n c = s"
proof -
  let ?d = "dropWhile (\<lambda>x. x = c)"
  obtain m where m: "replicate m c @ ?d s = s" by (rule exE [OF dropWhile_eq_replicate])
  obtain n where "replicate n c @ ?d (rev (?d s)) = rev (?d s)"
    by (rule exE [OF dropWhile_eq_replicate])
  then have "rev (replicate n c @ ?d (rev (?d s))) = rev (rev (?d s))" by (rule arg_cong)
  then have "TrimByte c s @ replicate n c = ?d s"
    by (simp only: TrimByte_def rev_append rev_rev_ident rev_replicate)
  then have "replicate m c @ TrimByte c s @ replicate n c = s" using m by (simp only:)
  then show ?thesis by blast
qed

lemma SplitByte_not_Nil [simp]: "SplitByte sep s \<noteq> []"
  by (cases s) (auto split: list.splits)

lemma JoinByte_Cons: "ws \<noteq> [] \<Longrightarrow> JoinByte sep (w # ws) = w @ sep # JoinByte sep ws"
  by (cases ws) auto

lemma JoinByte_SplitByte [simp, go_str]: "JoinByte sep (SplitByte sep s) = s"
proof (induction s)
  case (Cons c s)
  obtain w ws where "SplitByte sep s = w # ws" by (cases "SplitByte sep s") auto
  with Cons show ?case by (cases ws) (auto simp: JoinByte_Cons)
qed simp

lemma SplitByte_no_sep: "w \<in> set (SplitByte sep s) \<Longrightarrow> sep \<notin> set w"
proof (induction s arbitrary: w)
  case (Cons c s)
  obtain v vs where "SplitByte sep s = v # vs" by (cases "SplitByte sep s") auto
  with Cons show ?case by (auto split: if_splits)
qed simp

lemma set_JoinByte: "set (JoinByte sep ws) \<subseteq> insert sep (\<Union>w \<in> set ws. set w)"
  by (induction ws rule: JoinByte.induct [of "\<lambda>_. _" sep, case_names])
     (auto simp: JoinByte_Cons)

lemma set_SplitByte: "w \<in> set (SplitByte sep s) \<Longrightarrow> set w \<subseteq> set s"
proof (induction s arbitrary: w)
  case (Cons c s)
  obtain v vs where "SplitByte sep s = v # vs" by (cases "SplitByte sep s") auto
  with Cons show ?case by (fastforce split: if_splits)
qed simp

subsection \<open>Replacement\<close>

lemma ReplaceAll_Nil [simp, go_str]: "ReplaceAll old new [] = []"
  by (simp add: ReplaceAll.simps)

lemma ReplaceAll_hit [go_str]:
  "old \<noteq> [] \<Longrightarrow> ReplaceAll old new (old @ s) = new @ ReplaceAll old new s"
  by (cases old) (simp_all add: ReplaceAll.simps HasPrefix_iff)

lemma ReplaceAll_miss [go_str]:
  "\<not> HasPrefix (c # cs) old \<Longrightarrow> ReplaceAll old new (c # cs) = c # ReplaceAll old new cs"
  by (simp add: ReplaceAll.simps)

lemma ReplaceAll_skip [go_str]:
  assumes "o' \<notin> set xs"
  shows "ReplaceAll (o' # os) new (xs @ s) = xs @ ReplaceAll (o' # os) new s"
  using assms by (induction xs) (auto intro!: ReplaceAll_miss [THEN trans])

lemma ReplaceAll_absent [go_str]:
  assumes "o' \<notin> set xs"
  shows "ReplaceAll (o' # os) new xs = xs"
  using ReplaceAll_skip [OF assms, of os new "[]"] by simp

lemma ReplaceAll_single:
  "ReplaceAll [c] new s = concat (map (\<lambda>x. if x = c then new else [x]) s)"
  by (induction s) (auto simp: ReplaceAll.simps)

lemma ReplaceBytes_append [simp, go_str]:
  "ReplaceBytes tbl (s @ t) = ReplaceBytes tbl s @ ReplaceBytes tbl t"
  by (simp add: ReplaceBytes_def)

lemma ReplaceBytes_Nil [simp, go_str]: "ReplaceBytes tbl [] = []"
  by (simp add: ReplaceBytes_def)

lemma ReplaceBytes_Cons [go_str]:
  "ReplaceBytes tbl (c # s) = (case map_of tbl c of None \<Rightarrow> [c] | Some r \<Rightarrow> r) @ ReplaceBytes tbl s"
  by (simp add: ReplaceBytes_def)

lemma ReplaceBytes_id:
  "(\<And>c. c \<in> set s \<Longrightarrow> map_of tbl c = None) \<Longrightarrow> ReplaceBytes tbl s = s"
  by (induction s) (auto simp: ReplaceBytes_Cons)

section \<open>Go maps\<close>

text \<open>
  A Go map is an association list with distinct keys; the list order stands for the order in
  which \<open>range\<close> visits the map, which Go leaves unspecified.
\<close>

type_synonym ('k, 'v) gomap = "('k \<times> 'v) list"
type_synonym labels = "(string, string) gomap"

definition wf_map :: "('k, 'v) gomap \<Rightarrow> bool" where
  "wf_map m \<longleftrightarrow> distinct (map fst m)"

text \<open>Indexing a map of strings: a missing key gives the zero value, the empty string.\<close>

definition map_index :: "('k, string) gomap \<Rightarrow> 'k \<Rightarrow> string" where
  "map_index m k = (case map_of m k of None \<Rightarrow> [] | Some v \<Rightarrow> v)"

definition map_has :: "('k, 'v) gomap \<Rightarrow> 'k \<Rightarrow> bool" where
  "map_has m k \<longleftrightarrow> map_of m k \<noteq> None"

text \<open>\<open>maps.Copy(dst, src)\<close> and \<open>maps.Equal\<close>.\<close>

definition maps_Copy :: "('k, 'v) gomap \<Rightarrow> ('k, 'v) gomap \<Rightarrow> ('k, 'v) gomap" where
  "maps_Copy dst src = fold (\<lambda>(k, v). AList.update k v) src dst"

definition maps_Equal :: "('k, 'v) gomap \<Rightarrow> ('k, 'v) gomap \<Rightarrow> bool" where
  "maps_Equal m n \<longleftrightarrow>
     length m = length n \<and> list_all (\<lambda>(k, v). map_of n k = Some v) m"

lemma maps_Copy_lookup [go_map]:
  "map_of (maps_Copy dst src) k =
     (case map_of (rev src) k of None \<Rightarrow> map_of dst k | Some v \<Rightarrow> Some v)"
  by (induction src arbitrary: dst)
     (auto simp: maps_Copy_def update_conv' map_add_def split: option.splits prod.splits)

end
