(* ===== verification/AuthPolicyTypes.thy ===== *)
theory AuthPolicyTypes
  imports Prelude
begin

text \<open>
  The custom resource of \<open>api/v1alpha1/authpolicy_types.go\<close>: its structs as records, field
  by field (an optional pointer is an \<open>option\<close>, a slice is a list, a pointer to a slice an
  optional list), the admission rules that its \<open>kubebuilder\<close> markers put on a resource, and
  the methods of the type.  The record fields carry a short prefix of their struct's name.
\<close>

section \<open>The spec\<close>

record keyRef =
  kr_name :: string
  kr_key :: string

record valueFrom =
  vf_configMapKeyRef :: "keyRef option"
  vf_secretKeyRef :: "keyRef option"

record allowedAudience =
  aa_value :: "string option"
  aa_valueFrom :: "valueFrom option"

record autoLogin =
  al_enabled :: bool
  al_loginPath :: "string option"
  al_redirectPath :: "string option"
  al_logoutPath :: "string option"
  al_postLogoutRedirectURI :: "string option"
  al_scopes :: "string list"
  al_loginParams :: labels

record oauthCredentialsRef =
  oc_secretRef :: string
  oc_clientSecretKey :: string
  oc_clientIDKey :: string

record workloadSelector =
  ws_matchLabels :: labels

record claimToHeader =
  cth_header :: string
  cth_claim :: string

record condition =
  cond_claim :: string
  cond_values :: "string list"

record baselineAuth =
  ba_claims :: "condition list"

record requestMatcher =
  rm_paths :: "string list"
  rm_methods :: "string list"

text \<open>The Go struct embeds \<open>RequestMatcher\<close>; the record extends it.\<close>

record requestAuthRule = requestMatcher +
  rar_when :: "condition list option"
  rar_denyRedirect :: "bool option"

record authPolicySpec =
  spec_enabled :: bool
  spec_autoLogin :: "autoLogin option"
  spec_oauthCredentials :: "oauthCredentialsRef option"
  spec_wellKnownURI :: string
  spec_allowedAudiences :: "allowedAudience list"
  spec_forwardJwt :: "bool option"
  spec_outputClaimToHeaders :: "claimToHeader list option"
  spec_acceptedResources :: "string list option"
  spec_baselineAuth :: "baselineAuth option"
  spec_authRules :: "requestAuthRule list option"
  spec_ignoreAuthRules :: "requestMatcher list option"
  spec_selector :: workloadSelector

section \<open>The status\<close>

datatype conditionStatus = ConditionTrue | ConditionFalse | ConditionUnknown

record statusCondition =
  sc_type :: string
  sc_status :: conditionStatus
  sc_reason :: string
  sc_message :: string
  sc_lastTransitionTime :: nat

datatype phase = PhasePending | PhaseReady | PhaseFailed | PhaseInvalid

definition phase_string :: "phase \<Rightarrow> string" where
  "phase_string p = (case p of
     PhasePending \<Rightarrow> ''Pending'' | PhaseReady \<Rightarrow> ''Ready''
   | PhaseFailed \<Rightarrow> ''Failed'' | PhaseInvalid \<Rightarrow> ''Invalid'')"

record authPolicyStatus =
  st_observedGeneration :: int
  st_conditions :: "statusCondition list"
  st_phase :: "phase option"
  st_message :: string
  st_ready :: bool

section \<open>The resource\<close>

text \<open>The object metadata the operator reads, and the type's \<open>Kind\<close>.\<close>

record authPolicy =
  ap_kind :: string
  ap_name :: string
  ap_namespace :: string
  ap_uid :: string
  ap_generation :: int
  ap_labels :: labels
  ap_deletionTimestamp :: "nat option"
  ap_spec :: authPolicySpec
  ap_status :: authPolicyStatus

section \<open>Admission rules\<close>

text \<open>
  The markers of the Go types become rules of the CRD that the API server checks before it stores
  a resource: the three cross-field rules of the spec, and those of an audience and a
  \<open>valueFrom\<close>.
\<close>

definition crd_spec_autologin_ok :: "authPolicySpec \<Rightarrow> bool" where
  "crd_spec_autologin_ok s \<longleftrightarrow>
     (case spec_autoLogin s of
        None \<Rightarrow> True
      | Some al \<Rightarrow> \<not> al_enabled al \<or> spec_oauthCredentials s \<noteq> None) \<and>
     (spec_oauthCredentials s = None \<or> spec_autoLogin s \<noteq> None)"

definition crd_idporten_uris :: "string list" where
  "crd_idporten_uris =
     [''https://test.idporten.no/.well-known/openid-configuration'',
      ''https://idporten.no/.well-known/openid-configuration'',
      ''https://test.ansattporten.no/.well-known/openid-configuration'',
      ''https://ansattporten.no/.well-known/openid-configuration'']"

definition crd_spec_resources_ok :: "authPolicySpec \<Rightarrow> bool" where
  "crd_spec_resources_ok s \<longleftrightarrow>
     spec_wellKnownURI s \<notin> set crd_idporten_uris \<or>
     (case spec_acceptedResources s of None \<Rightarrow> False | Some rs \<Rightarrow> length rs > 0)"

definition crd_valueFrom_ok :: "valueFrom \<Rightarrow> bool" where
  "crd_valueFrom_ok v \<longleftrightarrow>
     (vf_configMapKeyRef v \<noteq> None \<or> vf_secretKeyRef v \<noteq> None) \<and>
     \<not> (vf_configMapKeyRef v \<noteq> None \<and> vf_secretKeyRef v \<noteq> None)"

definition crd_audience_ok :: "allowedAudience \<Rightarrow> bool" where
  "crd_audience_ok a \<longleftrightarrow>
     (aa_value a \<noteq> None \<or> aa_valueFrom a \<noteq> None) \<and>
     \<not> (aa_value a \<noteq> None \<and> aa_valueFrom a \<noteq> None) \<and>
     (case aa_value a of None \<Rightarrow> True | Some v \<Rightarrow> length v > 0) \<and>
     (case aa_valueFrom a of None \<Rightarrow> True | Some v \<Rightarrow> crd_valueFrom_ok v)"

definition crd_baseline_ok :: "baselineAuth \<Rightarrow> bool" where
  "crd_baseline_ok b \<longleftrightarrow> length (ba_claims b) > 0"

definition GetAcceptedHTTPMethods :: "string list" where
  "GetAcceptedHTTPMethods =
     [''GET'', ''POST'', ''PUT'', ''PATCH'', ''DELETE'', ''HEAD'', ''OPTIONS'', ''TRACE'', ''CONNECT'']"

text \<open>The methods of a matcher come from an enumeration, and its lists are sets.\<close>

definition crd_matcher_ok :: "requestMatcher \<Rightarrow> bool" where
  "crd_matcher_ok m \<longleftrightarrow>
     distinct (rm_paths m) \<and> distinct (rm_methods m) \<and>
     list_all (\<lambda>x. x \<in> set GetAcceptedHTTPMethods) (rm_methods m)"

definition crd_admitted :: "authPolicySpec \<Rightarrow> bool" where
  "crd_admitted s \<longleftrightarrow>
     crd_spec_autologin_ok s \<and> crd_spec_resources_ok s \<and>
     list_all crd_audience_ok (spec_allowedAudiences s) \<and>
     (case spec_baselineAuth s of None \<Rightarrow> True | Some b \<Rightarrow> crd_baseline_ok b) \<and>
     (case spec_authRules s of None \<Rightarrow> True
      | Some rs \<Rightarrow> list_all (\<lambda>r. crd_matcher_ok (requestMatcher.truncate r)) rs) \<and>
     (case spec_ignoreAuthRules s of None \<Rightarrow> True | Some rs \<Rightarrow> list_all crd_matcher_ok rs)"

section \<open>Methods\<close>

definition InitializeStatus :: "authPolicy \<Rightarrow> authPolicy" where
  "InitializeStatus ap = ap\<lparr>ap_status := (ap_status ap)
     \<lparr>st_observedGeneration := ap_generation ap, st_ready := False, st_phase := Some PhasePending\<rparr>\<rparr>"

text \<open>The Go loop over the rules appends each embedded matcher.\<close>

definition GetRequestMatchers :: "requestAuthRule list option \<Rightarrow> requestMatcher list" where
  "GetRequestMatchers rules =
     (case rules of None \<Rightarrow> [] | Some rs \<Rightarrow> map requestMatcher.truncate rs)"

definition GetRequireAuthRequestMatchers :: "authPolicy \<Rightarrow> requestMatcher list" where
  "GetRequireAuthRequestMatchers ap =
     (if spec_authRules (ap_spec ap) \<noteq> None
      then GetRequestMatchers (spec_authRules (ap_spec ap)) else [])"

definition GetIgnoreAuthRequestMatchers :: "authPolicy \<Rightarrow> requestMatcher list" where
  "GetIgnoreAuthRequestMatchers ap =
     (case spec_ignoreAuthRules (ap_spec ap) of None \<Rightarrow> [] | Some rs \<Rightarrow> rs)"

definition GetAuthorizedPaths :: "authPolicy \<Rightarrow> string list" where
  "GetAuthorizedPaths ap = concat (map rm_paths (GetRequireAuthRequestMatchers ap))"

definition GetPaths :: "authPolicy \<Rightarrow> string list" where
  "GetPaths ap =
     (case spec_authRules (ap_spec ap) of None \<Rightarrow> [] | Some rs \<Rightarrow> concat (map rm_paths rs)) @
     (case spec_ignoreAuthRules (ap_spec ap) of None \<Rightarrow> [] | Some rs \<Rightarrow> concat (map rm_paths rs))"

subsection \<open>Facts about the methods\<close>

text \<open>The rule lists with a nil pointer read as the empty list.\<close>

definition auth_rules :: "authPolicy \<Rightarrow> requestAuthRule list" where
  "auth_rules ap = (case spec_authRules (ap_spec ap) of None \<Rightarrow> [] | Some rs \<Rightarrow> rs)"

lemma truncate_paths [simp]: "rm_paths (requestMatcher.truncate r) = rm_paths r"
  by (simp add: requestMatcher.truncate_def)

lemma truncate_methods [simp]: "rm_methods (requestMatcher.truncate r) = rm_methods r"
  by (simp add: requestMatcher.truncate_def)

lemma GetRequireAuthRequestMatchers_eq:
  "GetRequireAuthRequestMatchers ap = map requestMatcher.truncate (auth_rules ap)"
  by (simp add: GetRequireAuthRequestMatchers_def GetRequestMatchers_def auth_rules_def
      split: option.splits)

lemma GetPaths_eq:
  "GetPaths ap = GetAuthorizedPaths ap @ concat (map rm_paths (GetIgnoreAuthRequestMatchers ap))"
  by (simp add: GetPaths_def GetAuthorizedPaths_def GetRequireAuthRequestMatchers_eq auth_rules_def
      GetIgnoreAuthRequestMatchers_def comp_def split: option.splits)

lemma set_GetPaths:
  "set (GetPaths ap) =
     (\<Union>r \<in> set (auth_rules ap). set (rm_paths r)) \<union>
     (\<Union>m \<in> set (GetIgnoreAuthRequestMatchers ap). set (rm_paths m))"
  by (auto simp: GetPaths_eq GetAuthorizedPaths_def GetRequireAuthRequestMatchers_eq)

end
