(* ===== verification/PathValidation.thy ===== *)
theory PathValidation
  imports Prelude
begin

text \<open>
  The package \<open>pkg/validation\<close> for paths: the classifier (\<open>path_classifier.go\<close>), the
  validator (\<open>path_validation.go\<close>) and the rewriting of validated paths to Istio's syntax
  (\<open>path_transformation.go\<close>).  An error is a value of \<open>path_error\<close>, which
  \<open>path_error_text\<close> renders as the Go message.

  The theory \<open>PathLanguage\<close> says what this code should do and proves that it does it.
\<close>

section \<open>The classifier\<close>

datatype path_kind = PathKindPlain | PathKindTemplate | PathKindLegacyStar

datatype path_error =
    MustStartWithSlash string
  | BracketsBeyondTemplate string
  | AsteriskMisplaced string
  | MatchAnyNotLast string
  | InvalidLiteral string string

definition matchOneTemplate :: string where
  "matchOneTemplate = ''{*}''"

definition matchAnyTemplate :: string where
  "matchAnyTemplate = ''{**}''"

fun path_error_text :: "path_error \<Rightarrow> string" where
  "path_error_text (MustStartWithSlash p) = ''invalid path: '' @ p @ ''; must start with '' @ [CHR 0x27] @ ''/'' @ [CHR 0x27]"
| "path_error_text (BracketsBeyondTemplate p) =
     ''invalid or unsupported path '' @ p @ ''. Contains '' @ [CHR 0x27] @ ''{'' @ [CHR 0x27] @
     '' or '' @ [CHR 0x27] @ ''}'' @ [CHR 0x27] @ '' beyond a supported path template''"
| "path_error_text (AsteriskMisplaced p) =
     ''invalid path: '' @ p @ ''; '' @ [CHR 0x27] @ ''*'' @ [CHR 0x27] @
     '' must appear only once, be at the end, or be '' @ [CHR 0x27] @ ''*'' @ [CHR 0x27]"
| "path_error_text (MatchAnyNotLast p) =
     ''invalid or unsupported path '' @ p @ ''. {**} is not the last operator''"
| "path_error_text (InvalidLiteral p seg) =
     ''invalid or unsupported path '' @ p @ ''. Contains segment '' @ seg @ '' with invalid string literal''"

text \<open>
  The loop over the runes of the path; the three ASCII runes it looks for are single bytes that
  occur in no multi-byte UTF-8 sequence, so a loop over bytes sees them at the same places.
\<close>

fun rawAsterisk_loop :: "bool \<Rightarrow> string \<Rightarrow> bool" where
  "rawAsterisk_loop inside [] = False"
| "rawAsterisk_loop inside (r # rs) =
     (if r = CHR ''{'' then rawAsterisk_loop True rs
      else if r = CHR ''}'' then rawAsterisk_loop False rs
      else if r = CHR ''*'' then (if \<not> inside then True else rawAsterisk_loop inside rs)
      else rawAsterisk_loop inside rs)"

definition hasRawAsteriskOutsideCurlyBrackets :: "string \<Rightarrow> bool" where
  "hasRawAsteriskOutsideCurlyBrackets path = rawAsterisk_loop False path"

definition classifyPath :: "string \<Rightarrow> path_error + path_kind" where
  "classifyPath path =
     (let hasCurlyBrackets = ContainsAny path ''{}'';
          hasRawAsterisk = hasRawAsteriskOutsideCurlyBrackets path
      in if hasRawAsterisk then
           (if hasCurlyBrackets then Inl (BracketsBeyondTemplate path)
            else if CountByte path (CHR ''*'') > 1 \<or> (path \<noteq> ''*'' \<and> \<not> HasSuffix path ''*'')
            then Inl (AsteriskMisplaced path)
            else Inr PathKindLegacyStar)
         else if hasCurlyBrackets then Inr PathKindTemplate
         else Inr PathKindPlain)"

section \<open>The validator\<close>

text \<open>The character class of the regular expression \<open>validLiteral\<close>; the match is anchored.\<close>

definition literal_chars :: string where
  "literal_chars =
     ''abcdefghijklmnopqrstuvwxyzABCDEFGHIJKLMNOPQRSTUVWXYZ0123456789-._~%!$&()+,;:@='' @ [CHR 0x27]"

definition validLiteral :: "string \<Rightarrow> bool" where
  "validLiteral s \<longleftrightarrow> s \<noteq> [] \<and> list_all (\<lambda>c. c \<in> set literal_chars) s"

definition toPathSegments :: "string \<Rightarrow> string list" where
  "toPathSegments path =
     (let trimmed = TrimByte (CHR ''/'') path
      in if trimmed = [] then [] else SplitByte (CHR ''/'') trimmed)"

fun plainLiterals_loop :: "string \<Rightarrow> string list \<Rightarrow> path_error + unit" where
  "plainLiterals_loop path [] = Inr ()"
| "plainLiterals_loop path (seg # segs) =
     (if seg = [] then plainLiterals_loop path segs
      else if \<not> validLiteral seg then Inl (InvalidLiteral path seg)
      else plainLiterals_loop path segs)"

definition validatePlainPathLiterals :: "string \<Rightarrow> path_error + unit" where
  "validatePlainPathLiterals path = plainLiterals_loop path (toPathSegments path)"

record templateState =
  seenMatchOne :: bool
  seenMatchMulti :: bool

definition validateTemplatePathSegment ::
  "string \<Rightarrow> string \<Rightarrow> bool \<Rightarrow> templateState \<Rightarrow> path_error + templateState" where
  "validateTemplatePathSegment path segment isLastSegment st =
     (if segment = matchOneTemplate then
        (if seenMatchMulti st then Inl (MatchAnyNotLast path)
         else Inr (st\<lparr>seenMatchOne := True\<rparr>))
      else if segment = matchAnyTemplate then
        (if seenMatchMulti st then Inl (MatchAnyNotLast path)
         else Inr (st\<lparr>seenMatchMulti := True\<rparr>))
      else if HasSuffix segment matchAnyTemplate then
        (let prefix = TrimSuffix segment matchAnyTemplate
         in if ContainsAny prefix ''{}'' then Inl (BracketsBeyondTemplate path)
            else if \<not> validLiteral prefix then Inl (InvalidLiteral path segment)
            else if \<not> isLastSegment then Inl (MatchAnyNotLast path)
            else if seenMatchMulti st \<or> seenMatchOne st then Inl (MatchAnyNotLast path)
            else Inr (st\<lparr>seenMatchMulti := True\<rparr>))
      else if ContainsAny segment ''{}'' then Inl (BracketsBeyondTemplate path)
      else if \<not> validLiteral segment then Inl (InvalidLiteral path segment)
      else Inr st)"

text \<open>The loop over the segments: the last one is the one with no segment behind it.\<close>

fun templatePath_loop :: "string \<Rightarrow> string list \<Rightarrow> templateState \<Rightarrow> path_error + unit" where
  "templatePath_loop path [] st = Inr ()"
| "templatePath_loop path (seg # segs) st =
     res_bind (validateTemplatePathSegment path seg (segs = []) st) (templatePath_loop path segs)"

definition validateTemplatePath :: "string \<Rightarrow> path_error + unit" where
  "validateTemplatePath path =
     templatePath_loop path (toPathSegments path) \<lparr>seenMatchOne = False, seenMatchMulti = False\<rparr>"

definition validatePath :: "string \<Rightarrow> path_error + unit" where
  "validatePath path =
     (if \<not> HasPrefix path ''/'' then Inl (MustStartWithSlash path)
      else res_bind (classifyPath path) (\<lambda>kind.
        case kind of
          PathKindLegacyStar \<Rightarrow> validatePlainPathLiterals (TrimSuffix path ''*'')
        | PathKindTemplate \<Rightarrow> validateTemplatePath path
        | PathKindPlain \<Rightarrow> validatePlainPathLiterals path))"

fun ValidatePaths :: "string list \<Rightarrow> path_error + unit" where
  "ValidatePaths [] = Inr ()"
| "ValidatePaths (path # paths) = res_bind (validatePath path) (\<lambda>_. ValidatePaths paths)"

section \<open>The rewriting for Istio\<close>

definition transformPathForIstio :: "string \<Rightarrow> string" where
  "transformPathForIstio validatedPath =
     (if \<not> HasSuffix validatedPath matchAnyTemplate then validatedPath
      else let trimmedPath = TrimSuffix validatedPath matchAnyTemplate
           in if HasSuffix trimmedPath ''/'' then validatedPath
              else if Contains trimmedPath matchOneTemplate \<or> Contains trimmedPath matchAnyTemplate
              then validatedPath
              else trimmedPath @ ''*'')"

definition TransformPathsForIstio :: "string list \<Rightarrow> string list" where
  "TransformPathsForIstio validatedPaths = map transformPathForIstio validatedPaths"

end
