(* ===== verification/PathLanguage.thy ===== *)
theory PathLanguage
  imports PathValidation
begin

text \<open>
  What the path code should do, stated apart from it: the language a path denotes
  (\<open>path_denotes\<close>), by its tokens, and the grammar of the accepted paths
  (\<open>accepted_path\<close>), by the shapes of their segments.  The lemmas show that the validator
  accepts exactly the grammar, that an accepted path is the text of its tokens, and that the
  rewriting for Istio keeps the tokens and leaves operators as whole segments.
\<close>

section \<open>What a path denotes\<close>

text \<open>
  A path reads as a sequence of literal bytes and two operators: one non-empty path segment
  (\<open>{*}\<close>) and any string (\<open>{**}\<close>, or a legacy \<open>*\<close>).
\<close>

datatype path_tok = Lit char | OneSeg | AnyStr

function template_tokens :: "string \<Rightarrow> path_tok list" where
  "template_tokens [] = []"
| "template_tokens (c # cs) =
     (if HasPrefix (c # cs) matchAnyTemplate
      then AnyStr # template_tokens (drop (length matchAnyTemplate) (c # cs))
      else if HasPrefix (c # cs) matchOneTemplate
      then OneSeg # template_tokens (drop (length matchOneTemplate) (c # cs))
      else Lit c # template_tokens cs)"
  by pat_completeness auto
termination
  by (relation "measure length") (auto simp: matchAnyTemplate_def matchOneTemplate_def)

declare template_tokens.simps [simp del]

definition legacy_tokens :: "string \<Rightarrow> path_tok list" where
  "legacy_tokens p = map (\<lambda>c. if c = CHR ''*'' then AnyStr else Lit c) p"

definition path_tokens :: "string \<Rightarrow> path_tok list" where
  "path_tokens p = (if ContainsAny p ''{}'' then template_tokens p else legacy_tokens p)"

fun tok_match :: "path_tok list \<Rightarrow> string \<Rightarrow> bool" where
  "tok_match [] s \<longleftrightarrow> s = []"
| "tok_match (Lit c # ts) s \<longleftrightarrow> (case s of [] \<Rightarrow> False | x # xs \<Rightarrow> x = c \<and> tok_match ts xs)"
| "tok_match (OneSeg # ts) s \<longleftrightarrow>
     (case s of [] \<Rightarrow> False
      | x # xs \<Rightarrow> x \<noteq> CHR ''/'' \<and> (tok_match ts xs \<or> tok_match (OneSeg # ts) xs))"
| "tok_match (AnyStr # ts) s \<longleftrightarrow>
     tok_match ts s \<or> (case s of [] \<Rightarrow> False | x # xs \<Rightarrow> tok_match (AnyStr # ts) xs)"

definition path_denotes :: "string \<Rightarrow> string \<Rightarrow> bool" where
  "path_denotes p s \<longleftrightarrow> tok_match (path_tokens p) s"

text \<open>The two operators as languages.\<close>

lemma tok_match_AnyStr: "tok_match (AnyStr # ts) s \<longleftrightarrow> (\<exists>u v. s = u @ v \<and> tok_match ts v)"
proof (induction s)
  case Nil
  then show ?case by auto
next
  case (Cons x s)
  have "(\<exists>u v. x # s = u @ v \<and> tok_match ts v) \<longleftrightarrow>
        tok_match ts (x # s) \<or> (\<exists>u v. s = u @ v \<and> tok_match ts v)"
    by (auto simp: Cons_eq_append_conv)
  with Cons.IH show ?case by simp
qed

lemma tok_match_OneSeg:
  "tok_match (OneSeg # ts) s \<longleftrightarrow>
     (\<exists>u v. s = u @ v \<and> u \<noteq> [] \<and> CHR ''/'' \<notin> set u \<and> tok_match ts v)"
proof (induction s)
  case Nil
  then show ?case by auto
next
  case (Cons x s)
  have "(\<exists>u v. x # s = u @ v \<and> u \<noteq> [] \<and> CHR ''/'' \<notin> set u \<and> tok_match ts v) \<longleftrightarrow>
        (\<exists>u v. s = u @ v \<and> x \<noteq> CHR ''/'' \<and> CHR ''/'' \<notin> set u \<and> tok_match ts v)"
    by (subst ex_append_Cons) auto
  also have "\<dots> \<longleftrightarrow> x \<noteq> CHR ''/'' \<and> (tok_match ts s \<or>
        (\<exists>u v. s = u @ v \<and> u \<noteq> [] \<and> CHR ''/'' \<notin> set u \<and> tok_match ts v))"
    by (subst ex_append_split) auto
  finally show ?case using Cons.IH by simp
qed

section \<open>The grammar of the accepted paths\<close>

text \<open>
  A path is accepted when it starts with a slash and is plain (literal bytes and slashes), plain
  up to one trailing \<open>*\<close>, or a template: each segment has one of four shapes, no operator
  follows a \<open>{**}\<close>, and a segment \<open>literal{**}\<close> is the last one and the only operator.
\<close>

definition path_char :: "char \<Rightarrow> bool" where
  "path_char c \<longleftrightarrow> c = CHR ''/'' \<or> c \<in> set literal_chars"

definition plain_path :: "string \<Rightarrow> bool" where
  "plain_path p \<longleftrightarrow> list_all path_char p"

definition legacy_path :: "string \<Rightarrow> bool" where
  "legacy_path p \<longleftrightarrow> p \<noteq> [] \<and> last p = CHR ''*'' \<and> plain_path (butlast p)"

datatype seg_shape = SegLit | SegOne | SegMany | SegPrefixMany | SegBad

definition seg_shape :: "string \<Rightarrow> seg_shape" where
  "seg_shape seg =
     (if seg = matchOneTemplate then SegOne
      else if seg = matchAnyTemplate then SegMany
      else if HasSuffix seg matchAnyTemplate \<and> validLiteral (TrimSuffix seg matchAnyTemplate)
      then SegPrefixMany
      else if validLiteral seg then SegLit
      else SegBad)"

definition ops_in_order :: "seg_shape list \<Rightarrow> bool" where
  "ops_in_order shs \<longleftrightarrow>
     (\<forall>us v ws. shs = us @ v # ws \<longrightarrow>
        (v = SegMany \<longrightarrow> set ws \<subseteq> {SegLit}) \<and>
        (v = SegPrefixMany \<longrightarrow> ws = [] \<and> set us \<subseteq> {SegLit}))"

definition template_path :: "string \<Rightarrow> bool" where
  "template_path p \<longleftrightarrow>
     ContainsAny p ''{}'' \<and>
     (let shs = map seg_shape (toPathSegments p) in SegBad \<notin> set shs \<and> ops_in_order shs)"

definition accepted_path :: "string \<Rightarrow> bool" where
  "accepted_path p \<longleftrightarrow>
     HasPrefix p ''/'' \<and> (plain_path p \<or> legacy_path p \<or> template_path p)"

subsection \<open>Literal bytes\<close>

lemma ContainsAny_braces [simp]:
  "ContainsAny s ''{}'' \<longleftrightarrow> CHR ''{'' \<in> set s \<or> CHR ''}'' \<in> set s"
  by (auto simp: ContainsAny_iff)

lemma literal_char_neq [simp]:
  "CHR ''{'' \<notin> set literal_chars" "CHR ''}'' \<notin> set literal_chars"
  "CHR ''*'' \<notin> set literal_chars" "CHR ''/'' \<notin> set literal_chars"
  by (simp_all add: literal_chars_def)

lemma path_char_neq [simp]:
  "\<not> path_char (CHR ''{'')" "\<not> path_char (CHR ''}'')" "\<not> path_char (CHR ''*'')"
  "path_char (CHR ''/'')"
  by (simp_all add: path_char_def)

lemma path_charD: "path_char c \<Longrightarrow> c \<noteq> CHR ''{'' \<and> c \<noteq> CHR ''}'' \<and> c \<noteq> CHR ''*''"
  by (metis path_char_neq)

lemma validLiteral_chars:
  "validLiteral s \<longleftrightarrow> s \<noteq> [] \<and> CHR ''/'' \<notin> set s \<and> (\<forall>c \<in> set s. path_char c)"
proof -
  have "c \<in> set literal_chars \<longleftrightarrow> c \<noteq> CHR ''/'' \<and> path_char c" for c
    unfolding path_char_def by (metis literal_char_neq(4))
  then show ?thesis unfolding validLiteral_def list_all_iff by metis
qed

lemma validLiteral_no_ops:
  "validLiteral s \<Longrightarrow> CHR ''{'' \<notin> set s \<and> CHR ''}'' \<notin> set s \<and> CHR ''*'' \<notin> set s"
  unfolding validLiteral_chars by (meson path_char_neq)

lemma validLiteral_no_braces: "validLiteral s \<Longrightarrow> \<not> ContainsAny s ''{}''"
  using validLiteral_no_ops [of s] by simp

lemma validLiteral_no_template_suffix: "validLiteral s \<Longrightarrow> \<not> HasSuffix s matchAnyTemplate"
  using validLiteral_no_ops [of s] by (auto simp: HasSuffix_iff matchAnyTemplate_def)

lemma plain_path_iff: "plain_path p \<longleftrightarrow> (\<forall>c \<in> set p. path_char c)"
  by (simp add: plain_path_def list_all_iff)

lemma plain_path_notin:
  assumes "plain_path p"
  shows "CHR ''{'' \<notin> set p" and "CHR ''}'' \<notin> set p" and "CHR ''*'' \<notin> set p"
  using assms by (auto simp: plain_path_iff)

lemma legacy_path_iff: "legacy_path p \<longleftrightarrow> (\<exists>q. p = q @ ''*'' \<and> plain_path q)"
  by (cases p rule: rev_cases) (auto simp: legacy_path_def)

subsection \<open>Segments\<close>

lemma set_append_replicates:
  "set (replicate m c @ s @ replicate n c) \<subseteq> insert c (set s)"
  by (auto simp: set_replicate_conv_if)

lemma toPathSegments_decomp:
  "\<exists>m n. p = replicate m (CHR ''/'') @ JoinByte (CHR ''/'') (toPathSegments p) @ replicate n (CHR ''/'')"
proof -
  obtain m n where "replicate m (CHR ''/'') @ TrimByte (CHR ''/'') p @ replicate n (CHR ''/'') = p"
    using TrimByte_decomp [of "CHR ''/''" p] by (elim exE)
  moreover have "JoinByte (CHR ''/'') (toPathSegments p) = TrimByte (CHR ''/'') p"
    by (simp add: toPathSegments_def Let_def)
  ultimately have "p = replicate m (CHR ''/'') @ JoinByte (CHR ''/'') (toPathSegments p) @ replicate n (CHR ''/'')"
    by simp
  then show ?thesis by (intro exI)
qed

lemma toPathSegments_no_slash: "seg \<in> set (toPathSegments p) \<Longrightarrow> CHR ''/'' \<notin> set seg"
  by (auto simp: toPathSegments_def Let_def dest: SplitByte_no_sep split: if_splits)

lemma toPathSegments_subset: "seg \<in> set (toPathSegments p) \<Longrightarrow> set seg \<subseteq> set p"
proof -
  assume "seg \<in> set (toPathSegments p)"
  then have "set seg \<subseteq> set (TrimByte (CHR ''/'') p)"
    by (auto simp: toPathSegments_def Let_def dest: set_SplitByte split: if_splits)
  also have "\<dots> \<subseteq> set p"
    by (auto simp: TrimByte_def dest!: set_dropWhileD)
  finally show ?thesis .
qed

lemma plainLiterals_loop_iff:
  "plainLiterals_loop path segs = Inr () \<longleftrightarrow> (\<forall>seg \<in> set segs. seg = [] \<or> validLiteral seg)"
  by (induction segs) auto

lemma validatePlainPathLiterals_iff: "validatePlainPathLiterals p = Inr () \<longleftrightarrow> plain_path p"
proof
  assume "validatePlainPathLiterals p = Inr ()"
  then have "\<forall>seg \<in> set (toPathSegments p). seg = [] \<or> validLiteral seg"
    by (simp add: validatePlainPathLiterals_def plainLiterals_loop_iff)
  then have segs: "\<forall>seg \<in> set (toPathSegments p). \<forall>c \<in> set seg. path_char c"
    unfolding validLiteral_chars by fastforce
  obtain m n where "p = replicate m (CHR ''/'') @ JoinByte (CHR ''/'') (toPathSegments p) @ replicate n (CHR ''/'')"
    using toPathSegments_decomp [of p] by (elim exE)
  then have "set p \<subseteq> insert (CHR ''/'') (set (JoinByte (CHR ''/'') (toPathSegments p)))"
    by (metis set_append_replicates)
  then have "set p \<subseteq> insert (CHR ''/'') (\<Union>w \<in> set (toPathSegments p). set w)"
    using set_JoinByte [of "CHR ''/''" "toPathSegments p"] by blast
  with segs show "plain_path p" by (auto simp: plain_path_iff)
next
  assume plain: "plain_path p"
  have "seg = [] \<or> validLiteral seg" if "seg \<in> set (toPathSegments p)" for seg
    using toPathSegments_no_slash [OF that] toPathSegments_subset [OF that] plain
    by (auto simp: validLiteral_chars plain_path_iff)
  then show "validatePlainPathLiterals p = Inr ()"
    by (simp add: validatePlainPathLiterals_def plainLiterals_loop_iff)
qed

subsection \<open>The template loop accepts exactly the ordered shapes\<close>

lemma validateTemplatePathSegment_Inr:
  "validateTemplatePathSegment path seg isLast st = Inr st' \<longleftrightarrow>
     (case seg_shape seg of
        SegLit \<Rightarrow> st' = st
      | SegOne \<Rightarrow> \<not> seenMatchMulti st \<and> st' = st\<lparr>seenMatchOne := True\<rparr>
      | SegMany \<Rightarrow> \<not> seenMatchMulti st \<and> st' = st\<lparr>seenMatchMulti := True\<rparr>
      | SegPrefixMany \<Rightarrow> isLast \<and> \<not> seenMatchMulti st \<and> \<not> seenMatchOne st \<and>
          st' = st\<lparr>seenMatchMulti := True\<rparr>
      | SegBad \<Rightarrow> False)"
  using validLiteral_no_braces [of seg] validLiteral_no_template_suffix [of seg]
    validLiteral_no_braces [of "TrimSuffix seg matchAnyTemplate"]
  by (auto simp: validateTemplatePathSegment_def seg_shape_def Let_def)

lemma all_split_Cons:
  "(\<forall>us v ws. x # xs = us @ v # ws \<longrightarrow> P us v ws) \<longleftrightarrow>
     P [] x xs \<and> (\<forall>us v ws. xs = us @ v # ws \<longrightarrow> P (x # us) v ws)"
  by (auto simp: Cons_eq_append_conv)

lemma all_split_conj:
  "(\<forall>us v ws. S us v ws \<longrightarrow> A v ws \<and> (B v \<longrightarrow> C ws \<and> d \<and> D us)) \<longleftrightarrow>
     (\<forall>us v ws. S us v ws \<longrightarrow> B v \<longrightarrow> d) \<and>
     (\<forall>us v ws. S us v ws \<longrightarrow> A v ws \<and> (B v \<longrightarrow> C ws \<and> D us))"
  by blast

lemma ops_in_order_Nil [simp]: "ops_in_order []"
  by (simp add: ops_in_order_def)

lemma ops_in_order_Cons:
  "ops_in_order (sh # shs) \<longleftrightarrow>
     (sh = SegMany \<longrightarrow> set shs \<subseteq> {SegLit}) \<and> (sh = SegPrefixMany \<longrightarrow> shs = []) \<and>
     (sh \<noteq> SegLit \<longrightarrow> SegPrefixMany \<notin> set shs) \<and> ops_in_order shs"
proof -
  have "(\<forall>us v ws. shs = us @ v # ws \<longrightarrow>
          (v = SegMany \<longrightarrow> set ws \<subseteq> {SegLit}) \<and>
          (v = SegPrefixMany \<longrightarrow> ws = [] \<and> set (sh # us) \<subseteq> {SegLit})) \<longleftrightarrow>
        (\<forall>us v ws. shs = us @ v # ws \<longrightarrow> v = SegPrefixMany \<longrightarrow> sh = SegLit) \<and> ops_in_order shs"
    unfolding ops_in_order_def list.set(2) insert_subset singleton_iff
    by (rule all_split_conj [where S = "\<lambda>us v ws. shs = us @ v # ws"])
  moreover have "(\<forall>us v ws. shs = us @ v # ws \<longrightarrow> v = SegPrefixMany \<longrightarrow> sh = SegLit) \<longleftrightarrow>
        (sh \<noteq> SegLit \<longrightarrow> SegPrefixMany \<notin> set shs)"
    unfolding in_set_conv_decomp by blast
  ultimately show ?thesis
    unfolding ops_in_order_def [of "sh # shs"] all_split_Cons by auto
qed

lemma templatePath_loop_iff:
  "templatePath_loop path segs st = Inr () \<longleftrightarrow>
     (let shs = map seg_shape segs in
        SegBad \<notin> set shs \<and> ops_in_order shs \<and>
        (seenMatchMulti st \<longrightarrow> set shs \<subseteq> {SegLit}) \<and>
        (seenMatchOne st \<longrightarrow> SegPrefixMany \<notin> set shs))"
proof (induction segs arbitrary: st)
  case Nil
  then show ?case by simp
next
  case (Cons seg segs)
  show ?case
    unfolding templatePath_loop.simps res_bind_Inr_iff validateTemplatePathSegment_Inr
    by (cases "seg_shape seg") (auto simp: Cons.IH Let_def ops_in_order_Cons)
qed

lemma validateTemplatePath_iff:
  "validateTemplatePath p = Inr () \<longleftrightarrow>
     (let shs = map seg_shape (toPathSegments p) in SegBad \<notin> set shs \<and> ops_in_order shs)"
  by (simp add: validateTemplatePath_def templatePath_loop_iff Let_def)

section \<open>Tokens of an accepted path\<close>

text \<open>
  The tokens a path was written from: \<open>wf_toks\<close> is what the validator guarantees, and
  \<open>tok_text\<close>, \<open>legacy_text\<close> print a token in the two syntaxes.
\<close>

fun tok_text :: "path_tok \<Rightarrow> string" where
  "tok_text (Lit c) = [c]"
| "tok_text OneSeg = matchOneTemplate"
| "tok_text AnyStr = matchAnyTemplate"

fun is_lit :: "path_tok \<Rightarrow> bool" where
  "is_lit (Lit c) \<longleftrightarrow> path_char c"
| "is_lit _ \<longleftrightarrow> False"

text \<open>Literals are path bytes, and no two operators stand side by side.\<close>

fun wf_toks :: "path_tok list \<Rightarrow> bool" where
  "wf_toks [] \<longleftrightarrow> True"
| "wf_toks (Lit c # ts) \<longleftrightarrow> path_char c \<and> wf_toks ts"
| "wf_toks (OneSeg # ts) \<longleftrightarrow> (case ts of [] \<Rightarrow> True | u # us \<Rightarrow> is_lit u) \<and> wf_toks ts"
| "wf_toks (AnyStr # ts) \<longleftrightarrow> (case ts of [] \<Rightarrow> True | u # us \<Rightarrow> is_lit u) \<and> wf_toks ts"

definition tok_texts :: "path_tok list \<Rightarrow> string" where
  "tok_texts ts = concat (map tok_text ts)"

lemma tok_texts_simps [simp]:
  "tok_texts [] = []"
  "tok_texts (t # ts) = tok_text t @ tok_texts ts"
  "tok_texts (ts @ us) = tok_texts ts @ tok_texts us"
  by (simp_all add: tok_texts_def)

lemma tok_texts_map_Lit [simp]: "tok_texts (map Lit s) = s"
  by (induction s) auto

lemma wf_toks_Lits: "wf_toks (map Lit s @ ts) \<longleftrightarrow> (\<forall>c \<in> set s. path_char c) \<and> wf_toks ts"
  by (induction s) auto

lemma wf_toks_append_Lit:
  "wf_toks ts \<Longrightarrow> path_char c \<Longrightarrow> wf_toks us \<Longrightarrow> wf_toks (ts @ Lit c # us)"
proof (induction ts rule: wf_toks.induct)
  case (3 ts)
  then show ?case by (cases ts) auto
next
  case (4 ts)
  then show ?case by (cases ts) auto
qed auto

lemma template_tokens_texts:
  "wf_toks ts \<Longrightarrow> template_tokens (tok_texts ts) = ts"
proof (induction ts rule: wf_toks.induct)
  case (2 c ts)
  then have "c \<noteq> CHR ''{''" by (auto dest: path_charD)
  with 2 show ?case
    by (simp add: template_tokens.simps matchAnyTemplate_def matchOneTemplate_def)
qed (simp_all add: template_tokens.simps matchAnyTemplate_def matchOneTemplate_def)

lemma segment_tokens:
  assumes "seg_shape seg \<noteq> SegBad"
  shows "\<exists>ts. seg = tok_texts ts \<and> wf_toks ts"
proof (cases "seg_shape seg")
  case SegLit
  then have "\<forall>c \<in> set seg. path_char c"
    by (auto simp: seg_shape_def validLiteral_chars split: if_splits)
  then show ?thesis by (intro exI [of _ "map Lit seg"]) (simp add: wf_toks_Lits [of seg "[]", simplified])
next
  case SegOne
  then show ?thesis
    by (intro exI [of _ "[OneSeg]"]) (auto simp: seg_shape_def split: if_splits)
next
  case SegMany
  then show ?thesis
    by (intro exI [of _ "[AnyStr]"]) (auto simp: seg_shape_def split: if_splits)
next
  case SegPrefixMany
  let ?pre = "TrimSuffix seg matchAnyTemplate"
  have "HasSuffix seg matchAnyTemplate" and "validLiteral ?pre"
    using SegPrefixMany by (auto simp: seg_shape_def split: if_splits)
  then have "seg = tok_texts (map Lit ?pre @ [AnyStr])" and "wf_toks (map Lit ?pre @ [AnyStr])"
    by (simp_all add: TrimSuffix_split [symmetric] wf_toks_Lits validLiteral_chars)
  then show ?thesis by blast
qed (use assms in simp)

lemma segments_tokens:
  assumes "\<forall>seg \<in> set segs. seg_shape seg \<noteq> SegBad"
  shows "\<exists>ts. JoinByte (CHR ''/'') segs = tok_texts ts \<and> wf_toks ts"
  using assms
proof (induction segs)
  case Nil
  then show ?case by (intro exI [of _ "[]"]) simp
next
  case (Cons seg segs)
  obtain ts where ts: "seg = tok_texts ts" "wf_toks ts"
    using segment_tokens [of seg] Cons.prems by auto
  obtain us where us: "JoinByte (CHR ''/'') segs = tok_texts us" "wf_toks us"
    using Cons by auto
  show ?case
  proof (cases "segs = []")
    case True
    with ts show ?thesis by auto
  next
    case False
    with ts us have "JoinByte (CHR ''/'') (seg # segs) = tok_texts (ts @ Lit (CHR ''/'') # us)"
      by (simp add: JoinByte_Cons)
    moreover have "wf_toks (ts @ Lit (CHR ''/'') # us)"
      using ts us by (simp add: wf_toks_append_Lit)
    ultimately show ?thesis by blast
  qed
qed

lemma wf_toks_append_Lits:
  "wf_toks ts \<Longrightarrow> \<forall>c \<in> set s. path_char c \<Longrightarrow> wf_toks (ts @ map Lit s)"
  using wf_toks_append_Lit [of ts _ "map Lit _"] wf_toks_Lits [of _ "[]"]
  by (cases s) auto

lemma template_path_tokens:
  assumes "template_path p"
  shows "\<exists>ts. p = tok_texts ts \<and> wf_toks ts"
proof -
  obtain m n where p: "p = replicate m (CHR ''/'') @ JoinByte (CHR ''/'') (toPathSegments p) @ replicate n (CHR ''/'')"
    using toPathSegments_decomp [of p] by (elim exE)
  have "\<forall>seg \<in> set (toPathSegments p). seg_shape seg \<noteq> SegBad"
    using assms by (auto simp: template_path_def Let_def image_iff)
  then obtain ts where ts: "JoinByte (CHR ''/'') (toPathSegments p) = tok_texts ts" "wf_toks ts"
    using segments_tokens by blast
  let ?all = "map Lit (replicate m (CHR ''/'')) @ ts @ map Lit (replicate n (CHR ''/''))"
  have "p = tok_texts ?all"
    unfolding tok_texts_simps tok_texts_map_Lit ts(1) [symmetric] by (rule p)
  moreover have "wf_toks ?all"
    using ts(2) by (simp only: wf_toks_Lits) (simp add: wf_toks_append_Lits del: map_replicate)
  ultimately show ?thesis by (intro exI conjI)
qed

text \<open>In the older syntax a token prints without braces.\<close>

fun legacy_text :: "path_tok \<Rightarrow> string" where
  "legacy_text (Lit c) = [c]"
| "legacy_text _ = ''*''"

lemma legacy_tokens_plain: "plain_path p \<Longrightarrow> legacy_tokens p = map Lit p"
  using plain_path_notin(3) [of p] by (auto simp: legacy_tokens_def)

lemma legacy_tokens_star: "plain_path q \<Longrightarrow> legacy_tokens (q @ ''*'') = map Lit q @ [AnyStr]"
  using legacy_tokens_plain [of q] by (simp add: legacy_tokens_def)

lemma accepted_no_braces:
  assumes "plain_path p \<or> legacy_path p"
  shows "\<not> ContainsAny p ''{}''"
  using assms
proof
  assume "plain_path p"
  then show ?thesis using plain_path_notin [of p] by simp
next
  assume "legacy_path p"
  then obtain q where "p = q @ ''*''" "plain_path q" by (auto simp: legacy_path_iff)
  then show ?thesis using plain_path_notin [of q] by simp
qed

text \<open>An accepted path is the text of its tokens, in one of the two syntaxes.\<close>

lemma accepted_path_tokens:
  assumes "accepted_path p"
  shows "wf_toks (path_tokens p)"
    and "ContainsAny p ''{}'' \<Longrightarrow> p = tok_texts (path_tokens p)"
    and "\<not> ContainsAny p ''{}'' \<Longrightarrow>
      p = concat (map legacy_text (path_tokens p)) \<and> OneSeg \<notin> set (path_tokens p)"
proof -
  have lits: "concat (map (legacy_text \<circ> Lit) q) = q" for q by (induction q) auto
  consider (plain) "plain_path p" | (legacy) q where "p = q @ ''*''" "plain_path q"
    | (template) "template_path p"
    using assms by (auto simp: accepted_path_def legacy_path_iff)
  then have "wf_toks (path_tokens p) \<and>
    (ContainsAny p ''{}'' \<longrightarrow> p = tok_texts (path_tokens p)) \<and>
    (\<not> ContainsAny p ''{}'' \<longrightarrow>
      p = concat (map legacy_text (path_tokens p)) \<and> OneSeg \<notin> set (path_tokens p))"
  proof cases
    case plain
    then show ?thesis
      using wf_toks_Lits [of p "[]"] lits
      by (auto simp: path_tokens_def accepted_no_braces legacy_tokens_plain plain_path_iff)
  next
    case legacy
    then have "path_tokens p = map Lit q @ [AnyStr]" and "\<not> ContainsAny p ''{}''"
      using accepted_no_braces [of p] by (auto simp: path_tokens_def legacy_path_iff legacy_tokens_star)
    then show ?thesis
      using legacy lits wf_toks_Lits [of q "[AnyStr]"] by (auto simp: plain_path_iff)
  next
    case template
    then obtain ts where ts: "p = tok_texts ts" "wf_toks ts" using template_path_tokens by blast
    with template have "path_tokens p = ts"
      by (simp add: path_tokens_def template_tokens_texts template_path_def)
    with ts template show ?thesis by (auto simp: template_path_def)
  qed
  then show "wf_toks (path_tokens p)"
    and "ContainsAny p ''{}'' \<Longrightarrow> p = tok_texts (path_tokens p)"
    and "\<not> ContainsAny p ''{}'' \<Longrightarrow>
      p = concat (map legacy_text (path_tokens p)) \<and> OneSeg \<notin> set (path_tokens p)"
    by blast+
qed

section \<open>The validator accepts exactly the grammar\<close>

lemma rawAsterisk_no_braces:
  "CHR ''{'' \<notin> set s \<Longrightarrow> rawAsterisk_loop False s \<longleftrightarrow> CHR ''*'' \<in> set s"
  by (induction s) auto

lemma rawAsterisk_tok_texts: "wf_toks ts \<Longrightarrow> \<not> rawAsterisk_loop False (tok_texts ts)"
proof (induction ts rule: wf_toks.induct)
  case (2 c ts)
  then show ?case using path_charD [of c] by simp
qed (auto simp: matchOneTemplate_def matchAnyTemplate_def)

lemma classifyPath_plain: "plain_path p \<Longrightarrow> classifyPath p = Inr PathKindPlain"
  using plain_path_notin [of p] rawAsterisk_no_braces [of p]
  by (simp add: classifyPath_def hasRawAsteriskOutsideCurlyBrackets_def)

lemma classifyPath_legacy: "plain_path q \<Longrightarrow> classifyPath (q @ ''*'') = Inr PathKindLegacyStar"
  using plain_path_notin [of q] rawAsterisk_no_braces [of "q @ ''*''"]
  by (simp add: classifyPath_def hasRawAsteriskOutsideCurlyBrackets_def CountByte_def)

lemma classifyPath_template: "template_path p \<Longrightarrow> classifyPath p = Inr PathKindTemplate"
  using template_path_tokens [of p] rawAsterisk_tok_texts
  by (auto simp: classifyPath_def hasRawAsteriskOutsideCurlyBrackets_def template_path_def)

lemma classifyPath_InrD:
  assumes "classifyPath p = Inr k"
  shows "k = PathKindLegacyStar \<Longrightarrow> HasSuffix p ''*''"
    and "k = PathKindTemplate \<Longrightarrow> ContainsAny p ''{}''"
  using assms by (auto simp: classifyPath_def Let_def HasSuffix_def split: if_splits)

lemma validatePath_Inr_iff: "validatePath p = Inr () \<longleftrightarrow> accepted_path p"
proof
  assume ok: "validatePath p = Inr ()"
  then obtain k where slash: "HasPrefix p ''/''" and k: "classifyPath p = Inr k"
    by (auto simp: validatePath_def res_bind_Inr_iff split: if_splits)
  show "accepted_path p"
  proof (cases k)
    case PathKindPlain
    with ok slash k show ?thesis
      by (simp add: validatePath_def accepted_path_def validatePlainPathLiterals_iff)
  next
    case PathKindTemplate
    with ok slash k classifyPath_InrD(2) [OF k] show ?thesis
      by (simp add: validatePath_def accepted_path_def template_path_def validateTemplatePath_iff)
  next
    case PathKindLegacyStar
    with classifyPath_InrD(1) [OF k] obtain q where "p = q @ ''*''" by (auto simp: HasSuffix_iff)
    with ok slash k PathKindLegacyStar show ?thesis
      by (auto simp: validatePath_def accepted_path_def legacy_path_iff validatePlainPathLiterals_iff)
  qed
next
  assume acc: "accepted_path p"
  then have slash: "HasPrefix p ''/''" by (simp add: accepted_path_def)
  from acc consider (plain) "plain_path p" | (legacy) q where "p = q @ ''*''" "plain_path q"
    | (template) "template_path p"
    by (auto simp: accepted_path_def legacy_path_iff)
  then show "validatePath p = Inr ()"
  proof cases
    case plain
    with slash show ?thesis
      by (simp add: validatePath_def classifyPath_plain validatePlainPathLiterals_iff)
  next
    case legacy
    with slash show ?thesis
      by (simp add: validatePath_def classifyPath_legacy validatePlainPathLiterals_iff)
  next
    case template
    with slash show ?thesis
      by (simp add: validatePath_def classifyPath_template validateTemplatePath_iff template_path_def)
  qed
qed

lemma ValidatePaths_Inr_iff: "ValidatePaths ps = Inr () \<longleftrightarrow> (\<forall>p \<in> set ps. validatePath p = Inr ())"
  by (induction ps) (auto simp: res_bind_Inr_iff)

section \<open>The rewriting keeps the meaning and yields Istio's syntax\<close>

lemma plain_path_append [simp]: "plain_path (p @ q) \<longleftrightarrow> plain_path p \<and> plain_path q"
  by (simp add: plain_path_def)

lemma tok_texts_ends_any:
  assumes "wf_toks ts" and "HasSuffix (tok_texts ts) matchAnyTemplate"
  shows "\<exists>us. ts = us @ [AnyStr]"
proof (cases ts rule: rev_cases)
  case Nil
  with assms show ?thesis by (simp add: HasSuffix_def matchAnyTemplate_def)
next
  case (snoc us t)
  obtain r where r: "tok_texts us @ tok_text t = r @ ''{**}''"
    using assms(2) by (auto simp: snoc HasSuffix_iff matchAnyTemplate_def)
  show ?thesis
  proof (cases t)
    case (Lit c)
    have "path_char c"
      using assms(1) unfolding snoc Lit by (induction us rule: wf_toks.induct) (auto split: list.splits)
    with r Lit show ?thesis by (metis append_butlast_last_id last_appendR last.simps list.distinct(1) path_char_neq(2) tok_text.simps(1))
  next
    case OneSeg
    have "rev (tok_texts us @ ''{*}'') = rev (r @ ''{**}'')"
      using r OneSeg by (simp add: matchOneTemplate_def)
    then show ?thesis by simp
  qed (use snoc in simp)
qed

lemma wf_toks_no_ops:
  assumes "wf_toks ts"
    and "\<not> Contains (tok_texts ts) matchOneTemplate" and "\<not> Contains (tok_texts ts) matchAnyTemplate"
  shows "\<exists>q. ts = map Lit q \<and> plain_path q"
  using assms
proof (induction ts rule: wf_toks.induct)
  case 1
  then show ?case by (simp add: plain_path_def)
next
  case (2 c ts)
  then obtain q where "ts = map Lit q" "plain_path q" by auto
  with 2 show ?case by (intro exI [of _ "c # q"]) (simp add: plain_path_def)
qed (auto simp: Contains_iff; metis append_Nil)+

lemma wf_toks_butlast: "wf_toks (ts @ [t]) \<Longrightarrow> wf_toks ts"
  by (induction ts rule: wf_toks.induct) (auto split: list.splits)

text \<open>A path that is rewritten is plain up to its final \<open>{**}\<close>.\<close>

lemma transform_cases:
  assumes "accepted_path p"
  obtains "transformPathForIstio p = p"
  | q where "p = q @ matchAnyTemplate" "plain_path q" "\<not> HasSuffix q ''/''"
      "transformPathForIstio p = q @ ''*''"
proof (cases "transformPathForIstio p = p")
  case False
  let ?q = "TrimSuffix p matchAnyTemplate"
  from False have suf: "HasSuffix p matchAnyTemplate" and ns: "\<not> HasSuffix ?q ''/''"
    and no: "\<not> Contains ?q matchOneTemplate" "\<not> Contains ?q matchAnyTemplate"
    and eq: "transformPathForIstio p = ?q @ ''*''"
    by (auto simp: transformPathForIstio_def Let_def split: if_splits)
  from suf have p: "p = ?q @ matchAnyTemplate" by (rule TrimSuffix_split)
  then have "ContainsAny p ''{}''" by (metis ContainsAny_braces UnCI list.set_intros(1) matchAnyTemplate_def set_append)
  then have ts: "p = tok_texts (path_tokens p)" and wf: "wf_toks (path_tokens p)"
    using accepted_path_tokens [OF assms] by blast+
  then obtain us where us: "path_tokens p = us @ [AnyStr]"
    using tok_texts_ends_any suf by metis
  then have "?q = tok_texts us" using ts p by (metis append_same_eq append_Nil2 tok_text.simps(3) tok_texts_simps)
  moreover have "wf_toks us" using wf us wf_toks_butlast by metis
  ultimately obtain q where "us = map Lit q" "plain_path q" using no wf_toks_no_ops by metis
  then have "plain_path ?q" using \<open>?q = tok_texts us\<close> by simp
  then show ?thesis using that(2) p ns eq by blast
qed (use that in blast)

lemma path_tokens_transform: "accepted_path p \<Longrightarrow> path_tokens (transformPathForIstio p) = path_tokens p"
proof (erule transform_cases)
  fix q
  assume q: "p = q @ matchAnyTemplate" "plain_path q" "transformPathForIstio p = q @ ''*''"
  have "template_tokens (tok_texts (map Lit q @ [AnyStr])) = map Lit q @ [AnyStr]"
    using q(2) by (intro template_tokens_texts) (simp add: wf_toks_Lits plain_path_iff)
  then have "path_tokens p = map Lit q @ [AnyStr]"
    using q(1) by (simp add: path_tokens_def matchAnyTemplate_def)
  moreover have "path_tokens (q @ ''*'') = map Lit q @ [AnyStr]"
    using q(2) accepted_no_braces [of "q @ ''*''"] unfolding path_tokens_def legacy_path_iff
    by (auto simp: legacy_tokens_star)
  ultimately show ?thesis by (simp add: q(3))
qed simp

lemma accepted_path_transform:
  assumes acc: "accepted_path p"
  shows "accepted_path (transformPathForIstio p)"
  using acc
proof (cases rule: transform_cases)
  case (2 q)
  then have "HasPrefix (q @ ''*'') ''/''"
    using acc by (cases q) (auto simp: accepted_path_def matchAnyTemplate_def)
  with 2 show ?thesis by (auto simp: accepted_path_def legacy_path_iff)
qed (use acc in simp)

lemma not_HasSuffix_star [simp]: "\<not> HasSuffix (q @ ''*'') matchAnyTemplate"
proof
  assume "HasSuffix (q @ ''*'') matchAnyTemplate"
  then obtain r where "q @ ''*'' = r @ ''{**}''" by (auto simp: HasSuffix_iff matchAnyTemplate_def)
  then have "rev (q @ ''*'') = rev (r @ ''{**}'')" by (rule arg_cong)
  then show False by simp
qed

lemma transform_idem:
  assumes "accepted_path p"
  shows "transformPathForIstio (transformPathForIstio p) = transformPathForIstio p"
  using assms
proof (cases rule: transform_cases)
  case (2 q)
  then have "transformPathForIstio (q @ ''*'') = q @ ''*''" by (simp add: transformPathForIstio_def)
  with 2 show ?thesis by simp
qed simp

text \<open>
  Istio's rules for the paths of an authorization policy.  A path with a brace is a template: each
  of its segments is an operator, of which none may follow \<open>{**}\<close>, or a literal of the URI path
  characters.  Any other path may have an asterisk at its end, which makes it a prefix.
\<close>

definition istio_literal_char :: "char \<Rightarrow> bool" where
  "istio_literal_char c \<longleftrightarrow>
     c \<in> set ''-._~%!$&()+,;:@='' \<or> c = CHR 0x27 \<or> byte_between (CHR ''0'') (CHR ''9'') c \<or>
     byte_between (CHR ''A'') (CHR ''Z'') c \<or> byte_between (CHR ''a'') (CHR ''z'') c"

fun istio_segments :: "bool \<Rightarrow> string list \<Rightarrow> bool" where
  "istio_segments anySeen [] \<longleftrightarrow> True"
| "istio_segments anySeen (seg # segs) \<longleftrightarrow>
     (if seg = ''{*}'' then \<not> anySeen \<and> istio_segments anySeen segs
      else if seg = ''{**}'' then \<not> anySeen \<and> istio_segments True segs
      else seg \<noteq> [] \<and> list_all istio_literal_char seg \<and> istio_segments anySeen segs)"

definition istio_template_syntax :: "string \<Rightarrow> bool" where
  "istio_template_syntax p \<longleftrightarrow>
     (if CHR ''{'' \<in> set p \<or> CHR ''}'' \<in> set p
      then istio_segments False (SplitByte (CHR ''/'') (TrimByte (CHR ''/'') p))
      else CHR ''*'' \<notin> set (butlast p))"

text \<open>Which request paths Istio matches: the strings of a template, a prefix, or the path itself.\<close>

definition istio_matches :: "string \<Rightarrow> string \<Rightarrow> bool" where
  "istio_matches p s \<longleftrightarrow>
     (if CHR ''{'' \<in> set p \<or> CHR ''}'' \<in> set p then tok_match (template_tokens p) s
      else if p \<noteq> [] \<and> last p = CHR ''*'' then HasPrefix s (butlast p)
      else s = p)"

lemma literal_chars_istio: "c \<in> set literal_chars \<Longrightarrow> istio_literal_char c"
proof -
  have "list_all istio_literal_char literal_chars" by code_simp
  then show "c \<in> set literal_chars \<Longrightarrow> istio_literal_char c" by (simp add: list_all_iff)
qed

lemma plain_istio_syntax: "plain_path q \<Longrightarrow> istio_template_syntax q \<and> istio_template_syntax (q @ ''*'')"
  using plain_path_notin [of q] in_set_butlastD [of "CHR ''*''" q] by (auto simp: istio_template_syntax_def)

lemma tok_match_Lits: "tok_match (map Lit q @ ts) s \<longleftrightarrow> (\<exists>r. s = q @ r \<and> tok_match ts r)"
  by (induction q arbitrary: s) (auto split: list.splits)

lemma plain_istio_matches:
  assumes "plain_path q"
  shows "istio_matches q s \<longleftrightarrow> path_denotes q s" and "istio_matches (q @ ''*'') s \<longleftrightarrow> path_denotes (q @ ''*'') s"
proof -
  note no = plain_path_notin [OF assms]
  have "last q \<noteq> CHR ''*''" if "q \<noteq> []" using no that by (metis last_in_set)
  then show "istio_matches q s \<longleftrightarrow> path_denotes q s"
    using no tok_match_Lits [of q "[]" s] legacy_tokens_plain [OF assms]
    by (auto simp: istio_matches_def path_denotes_def path_tokens_def)
  show "istio_matches (q @ ''*'') s \<longleftrightarrow> path_denotes (q @ ''*'') s"
    using no tok_match_Lits [of q "[AnyStr]" s] legacy_tokens_star [OF assms]
    by (auto simp: istio_matches_def path_denotes_def path_tokens_def tok_match_AnyStr HasPrefix_iff
        simp del: tok_match.simps(4))
qed

lemma istio_segments_shapes:
  assumes "set (map seg_shape segs) \<subseteq> {SegLit, SegOne, SegMany}" and "ops_in_order (map seg_shape segs)"
    and "seen \<Longrightarrow> set (map seg_shape segs) \<subseteq> {SegLit}"
  shows "istio_segments seen segs"
  using assms
proof (induction segs arbitrary: seen)
  case (Cons seg segs)
  have lit: "seg \<noteq> [] \<and> list_all istio_literal_char seg \<and> seg \<noteq> ''{*}'' \<and> seg \<noteq> ''{**}''" if "seg_shape seg = SegLit"
    using that literal_chars_istio
    by (auto simp: seg_shape_def validLiteral_def list_all_iff matchOneTemplate_def matchAnyTemplate_def split: if_splits)
  have one: "seg = ''{*}''" if "seg_shape seg = SegOne"
    using that by (auto simp: seg_shape_def matchOneTemplate_def split: if_splits)
  have many: "seg = ''{**}''" if "seg_shape seg = SegMany"
    using that by (auto simp: seg_shape_def matchAnyTemplate_def split: if_splits)
  have rest: "set (map seg_shape segs) \<subseteq> {SegLit, SegOne, SegMany}" "ops_in_order (map seg_shape segs)"
    using Cons.prems(1, 2) by (simp_all add: ops_in_order_Cons)
  from Cons.prems(1) consider "seg_shape seg = SegLit" | "seg_shape seg = SegOne" | "seg_shape seg = SegMany" by auto
  then show ?case
  proof cases
    case 1
    then show ?thesis using lit Cons.IH [OF rest, of seen] Cons.prems(3) by simp
  next
    case 2
    then show ?thesis using one Cons.IH [OF rest, of False] Cons.prems(3) by (cases seen) simp_all
  next
    case 3
    moreover have "set (map seg_shape segs) \<subseteq> {SegLit}" using Cons.prems(2) 3 by (simp add: ops_in_order_Cons)
    ultimately show ?thesis using many Cons.IH [OF rest, of True] Cons.prems(3) by (cases seen) simp_all
  qed
qed simp

lemma glued_operator_last:
  assumes "template_path p" and "SegPrefixMany \<in> set (map seg_shape (toPathSegments p))"
    and "\<not> HasSuffix p ''/''"
  shows "\<exists>q. p = q @ matchAnyTemplate \<and> plain_path q \<and> \<not> HasSuffix q ''/''"
proof -
  let ?segs = "toPathSegments p" and ?sl = "CHR ''/''"
  obtain m n where p: "p = replicate m ?sl @ JoinByte ?sl ?segs @ replicate n ?sl"
    using toPathSegments_decomp [of p] by (elim exE)
  have n: "n = 0"
  proof (rule ccontr)
    assume "n \<noteq> 0"
    then have "last p = ?sl" and "p \<noteq> []" using p by (metis Nil_is_append_conv last_append last_replicate replicate_empty)+
    with assms(3) show False by (simp add: HasSuffix_single)
  qed
  have order: "ops_in_order (map seg_shape ?segs)"
    using assms(1) by (simp add: template_path_def Let_def)
  obtain us seg ws where segs: "?segs = us @ seg # ws" and shape: "seg_shape seg = SegPrefixMany"
    using assms(2) by (auto simp: in_set_conv_decomp map_eq_append_conv map_eq_Cons_conv)
  have "map seg_shape ?segs = map seg_shape us @ SegPrefixMany # map seg_shape ws"
    by (simp add: segs shape)
  from order [unfolded ops_in_order_def, rule_format, OF this]
  have ws: "ws = []" and us: "\<forall>u \<in> set us. seg_shape u = SegLit" by auto
  obtain pre where pre: "seg = pre @ matchAnyTemplate" "validLiteral pre"
    using shape by (auto simp: seg_shape_def HasSuffix_iff split: if_splits)
  have join: "\<exists>b. JoinByte ?sl (us @ [seg]) = b @ pre @ matchAnyTemplate \<and> plain_path b"
    using us
  proof (induction us)
    case Nil
    then show ?case by (intro exI [of _ "[]"]) (simp add: pre plain_path_def)
  next
    case (Cons u us)
    then obtain b where b: "JoinByte ?sl (us @ [seg]) = b @ pre @ matchAnyTemplate" "plain_path b" by auto
    have "plain_path u" using Cons.prems by (auto simp: seg_shape_def validLiteral_chars plain_path_iff split: if_splits)
    with b show ?case by (intro exI [of _ "u @ ?sl # b"]) (simp add: JoinByte_Cons plain_path_def)
  qed
  then obtain b where b: "p = (replicate m ?sl @ b @ pre) @ matchAnyTemplate" "plain_path b"
    using p n segs ws by auto
  moreover have "plain_path (replicate m ?sl @ b @ pre)"
    using b(2) pre(2) by (auto simp: plain_path_iff validLiteral_chars)
  moreover have "\<not> HasSuffix (replicate m ?sl @ b @ pre) ''/''"
    using pre(2) by (auto simp: HasSuffix_single validLiteral_chars) (metis last_in_set)
  ultimately show ?thesis by blast
qed

lemma transform_istio_syntax:
  assumes acc: "accepted_path p" and "\<not> HasSuffix p ''/''"
  shows "istio_template_syntax (transformPathForIstio p)"
proof (cases "template_path p")
  case False
  with acc have plain: "plain_path p \<or> legacy_path p" by (simp add: accepted_path_def)
  then have "\<not> HasSuffix p matchAnyTemplate"
    using accepted_no_braces [OF plain] by (auto simp: HasSuffix_iff matchAnyTemplate_def)
  then have "transformPathForIstio p = p" by (simp add: transformPathForIstio_def)
  with plain plain_istio_syntax show ?thesis by (auto simp: legacy_path_iff)
next
  case True
  show ?thesis
  proof (cases "SegPrefixMany \<in> set (map seg_shape (toPathSegments p))")
    case False
    have braces: "CHR ''{'' \<in> set p \<or> CHR ''}'' \<in> set p" using True by (simp add: template_path_def)
    have "TrimByte (CHR ''/'') p \<noteq> []"
    proof
      assume none: "TrimByte (CHR ''/'') p = []"
      obtain m n where "replicate m (CHR ''/'') @ TrimByte (CHR ''/'') p @ replicate n (CHR ''/'') = p"
        using TrimByte_decomp [of "CHR ''/''" p] by (elim exE)
      then have "set p \<subseteq> {CHR ''/''}" using none by (metis append_Nil set_append_replicates set_empty subset_insertI2 empty_set)
      then show False using braces by auto
    qed
    then have segs: "toPathSegments p = SplitByte (CHR ''/'') (TrimByte (CHR ''/'') p)"
      by (simp add: toPathSegments_def Let_def)
    have shapes: "SegBad \<notin> set (map seg_shape (toPathSegments p))" "ops_in_order (map seg_shape (toPathSegments p))"
      using True unfolding template_path_def Let_def by blast+
    have "x \<in> {SegLit, SegOne, SegMany}" if "x \<in> set (map seg_shape (toPathSegments p))" for x
    proof -
      have "x \<noteq> SegBad" "x \<noteq> SegPrefixMany" using that shapes(1) False by metis+
      then show ?thesis by (cases x) simp_all
    qed
    then have "istio_segments False (toPathSegments p)"
      using shapes(2) by (intro istio_segments_shapes) auto
    then have "istio_template_syntax p" using braces by (simp add: istio_template_syntax_def segs)
    then show ?thesis using plain_istio_syntax by (cases rule: transform_cases [OF acc]) auto
  next
    case glued: True
    then obtain q where q: "p = q @ matchAnyTemplate" "plain_path q" "\<not> HasSuffix q ''/''"
      using glued_operator_last [OF True glued assms(2)] by blast
    then have "transformPathForIstio p = q @ ''*''"
      using plain_path_notin [of q]
      by (auto simp: transformPathForIstio_def Contains_iff matchOneTemplate_def matchAnyTemplate_def)
    then show ?thesis using plain_istio_syntax [OF q(2)] by simp
  qed
qed

lemma transform_istio_matches:
  assumes "accepted_path p"
  shows "istio_matches (transformPathForIstio p) s \<longleftrightarrow> path_denotes p s"
proof -
  have same: "path_denotes (transformPathForIstio p) s \<longleftrightarrow> path_denotes p s"
    using path_tokens_transform [OF assms] by (simp add: path_denotes_def)
  have "istio_matches p s \<longleftrightarrow> path_denotes p s"
  proof (cases "template_path p")
    case True
    then show ?thesis by (simp add: template_path_def istio_matches_def path_denotes_def path_tokens_def)
  next
    case False
    then show ?thesis using assms plain_istio_matches by (auto simp: accepted_path_def legacy_path_iff)
  qed
  then show ?thesis
    using same plain_istio_matches(2) by (cases rule: transform_cases [OF assms]) auto
qed

section \<open>Properties\<close>

text \<open>C11: the validator accepts a list of paths exactly when each of them starts with a slash and is a
  plain path, a plain path with one trailing legacy asterisk, or a template whose operators are whole
  segments (or one literal prefix of the last segment) with no operator behind \<open>{**}\<close>.  A slash at
  the end is accepted, which the documentation of the API type forbids.\<close>

theorem validator_accepts_grammar: "ValidatePaths ps = Inr () \<longleftrightarrow> list_all accepted_path ps"
  by (induction ps) (auto simp: res_bind_Inr_iff validatePath_Inr_iff)

theorem validator_accepts_grammar_witness:
  "ValidatePaths [''/api/{*}/v1'', ''/files*'', ''/dir/''] = Inr () \<and> ValidatePaths [''/{**}/{*}''] \<noteq> Inr ()"
  unfolding validator_accepts_grammar by (simp add: validatePath_Inr_iff [symmetric]; code_simp)

text \<open>C13: rewriting a validated path to Istio's syntax does not change the set of request paths
  it denotes.\<close>

theorem istio_rewrite_preserves_meaning:
  assumes "validatePath p = Inr ()"
  shows "path_denotes (transformPathForIstio p) s \<longleftrightarrow> path_denotes p s"
  using path_tokens_transform [of p] assms by (simp add: path_denotes_def validatePath_Inr_iff)

theorem istio_rewrite_preserves_meaning_witness:
  "path_denotes (transformPathForIstio ''/api{**}'') ''/api/x'' \<longleftrightarrow> path_denotes ''/api{**}'' ''/api/x''"
  by (rule istio_rewrite_preserves_meaning) code_simp

text \<open>C28: a validated path that does not end in a slash is rewritten to a path that Istio accepts: a
  template of whole operators and literals with no operator behind \<open>{**}\<close>, or a path without braces
  with an asterisk at most at its end.  Istio matches with it the request paths that the original
  denotes.\<close>

theorem istio_rewrite_syntax:
  assumes "ValidatePaths [p] = Inr ()" and "\<not> HasSuffix p ''/''"
  shows "istio_template_syntax (transformPathForIstio p) \<and>
    (istio_matches (transformPathForIstio p) s \<longleftrightarrow> path_denotes p s)"
  using transform_istio_syntax transform_istio_matches assms by (simp add: res_bind_Inr_iff validatePath_Inr_iff)

theorem istio_rewrite_syntax_witness:
  "istio_template_syntax (transformPathForIstio ''/api/v1{**}'') \<and>
   istio_matches (transformPathForIstio ''/api/v1{**}'') ''/api/v1/x'' \<and> \<not> istio_template_syntax ''/api/v1{**}''"
proof -
  have "ValidatePaths [''/api/v1{**}''] = Inr ()" "\<not> HasSuffix ''/api/v1{**}'' ''/''"
    "path_denotes ''/api/v1{**}'' ''/api/v1/x''" "\<not> istio_template_syntax ''/api/v1{**}''" by code_simp+
  with istio_rewrite_syntax [of "''/api/v1{**}''" "''/api/v1/x''"] show ?thesis by blast
qed

end
