(* ===== verification/LuaPattern.thy ===== *)
theory LuaPattern
  imports PathLanguage
begin

text \<open>
  \<open>pkg/luascript/matcher_path_converter.go\<close>: a request matcher's path becomes an anchored
  Lua pattern.  The generated script runs \<open>string.match\<close> on it, so the theory models the part
  of Lua's pattern matching that the generated patterns use, as a parser and a backtracking
  matcher in the order of the reference implementation, and proves that the pattern of a
  validated path matches exactly what the path denotes.
\<close>

section \<open>The converter\<close>

definition singleStarPlaceholder :: string where
  "singleStarPlaceholder = ''<<SINGLESTAR>>''"

definition doubleStarPlaceholder :: string where
  "doubleStarPlaceholder = ''<<DOUBLESTAR>>''"

definition lua_pattern_escapes :: "(char \<times> string) list" where
  "lua_pattern_escapes =
     [(CHR ''%'', ''%%''), (CHR ''^'', ''%^''), (CHR ''$'', ''%$''), (CHR ''.'', ''%.''),
      (CHR ''+'', ''%+''), (CHR ''-'', ''%-''), (CHR ''?'', ''%?''), (CHR ''['', ''%[''),
      (CHR '']'', ''%]''), (CHR ''('', ''%(''), (CHR '')'', ''%)'')]"

text \<open>\<open>None\<close> is the panic of the Go code.\<close>

definition escapeLuaPatternChars :: "string \<Rightarrow> string option" where
  "escapeLuaPatternChars s =
     (if ContainsAny s ''*{}'' then None else Some (ReplaceBytes lua_pattern_escapes s))"

definition toLuaPattern :: "string \<Rightarrow> string option" where
  "toLuaPattern path =
     (let path1 = (if ContainsAny path ''{}''
                   then ReplaceAll ''}'' '''' (ReplaceAll ''{'' '''' path)
                   else ReplaceAll ''*'' ''**'' path);
          path2 = ReplaceAll ''**'' doubleStarPlaceholder path1;
          path3 = ReplaceAll ''*'' singleStarPlaceholder path2
      in map_option (\<lambda>path4.
           ReplaceAll doubleStarPlaceholder ''.*'' (ReplaceAll singleStarPlaceholder ''[^/]+'' path4))
         (escapeLuaPatternChars path3))"

definition ConvertRequestMatcherPathToLuaPattern :: "string \<Rightarrow> string option" where
  "ConvertRequestMatcherPathToLuaPattern path =
     map_option (\<lambda>p. ''^'' @ p @ ''$'') (toLuaPattern path)"

lemma toLuaPattern_shape:
  assumes "toLuaPattern path = Some q"
  shows "\<exists>s. \<not> ContainsAny s ''*{}'' \<and> q = ReplaceAll doubleStarPlaceholder ''.*''
    (ReplaceAll singleStarPlaceholder ''[^/]+'' (ReplaceBytes lua_pattern_escapes s))"
  using assms unfolding toLuaPattern_def Let_def escapeLuaPatternChars_def map_option_eq_Some
  by (metis option.distinct(1) option.sel)

section \<open>Lua patterns\<close>

text \<open>
  A pattern item is a character class with an optional suffix, or the end anchor.  The parser
  answers \<open>None\<close> outside the modelled part: class letters (\<open>%a\<close>), captures,
  \<open>%b\<close> and \<open>%f\<close>, and sets with ranges or escapes.
\<close>

datatype lua_class = LAny | LChar char | LSet bool "char list"

datatype lua_item =
  LOne lua_class | LStar lua_class | LPlus lua_class | LLazy lua_class | LOpt lua_class | LEnd

fun class_match :: "lua_class \<Rightarrow> char \<Rightarrow> bool" where
  "class_match LAny x \<longleftrightarrow> True"
| "class_match (LChar c) x \<longleftrightarrow> x = c"
| "class_match (LSet neg cs) x \<longleftrightarrow> (if neg then x \<notin> set cs else x \<in> set cs)"

definition ascii_alnum :: string where
  "ascii_alnum = ''abcdefghijklmnopqrstuvwxyzABCDEFGHIJKLMNOPQRSTUVWXYZ0123456789''"

definition lua_set :: "string \<Rightarrow> (lua_class \<times> string) option" where
  "lua_set cs =
     (let neg = HasPrefix cs ''^'';
          body = (if neg then tl cs else cs);
          members = takeWhile (\<lambda>c. c \<noteq> CHR '']'') body;
          rest = dropWhile (\<lambda>c. c \<noteq> CHR '']'') body
      in if members = [] \<or> rest = [] \<or> CHR ''%'' \<in> set members \<or> CHR ''-'' \<in> set members
         then None else Some (LSet neg members, tl rest))"

fun lua_read_class :: "string \<Rightarrow> (lua_class \<times> string) option" where
  "lua_read_class [] = None"
| "lua_read_class (c # cs) =
     (if c = CHR ''%'' then
        (case cs of [] \<Rightarrow> None
         | x # xs \<Rightarrow> if x \<in> set ascii_alnum then None else Some (LChar x, xs))
      else if c = CHR ''['' then lua_set cs
      else if c = CHR ''.'' then Some (LAny, cs)
      else if c = CHR ''('' \<or> c = CHR '')'' then None
      else Some (LChar c, cs))"

lemma lua_read_class_shorter: "lua_read_class p = Some (cl, rest) \<Longrightarrow> length rest < length p"
proof (induction p rule: lua_read_class.induct)
  case (2 c cs)
  have "lua_set cs = Some (cl, rest) \<Longrightarrow> length rest \<le> length cs"
    using length_dropWhile_le [of "\<lambda>c. c \<noteq> CHR '']''" "if HasPrefix cs ''^'' then tl cs else cs"]
    by (cases cs) (auto simp: lua_set_def Let_def split: if_splits)
  with 2 show ?case by (auto split: if_splits list.splits)
qed simp

text \<open>Splitting off the suffix of a class, if there is one.\<close>

definition lua_suffix :: "lua_class \<Rightarrow> string \<Rightarrow> lua_item \<times> string" where
  "lua_suffix cl rest =
     (case rest of [] \<Rightarrow> (LOne cl, [])
      | c # cs \<Rightarrow>
          if c = CHR ''*'' then (LStar cl, cs)
          else if c = CHR ''+'' then (LPlus cl, cs)
          else if c = CHR ''-'' then (LLazy cl, cs)
          else if c = CHR ''?'' then (LOpt cl, cs)
          else (LOne cl, rest))"

lemma lua_suffix_shorter: "length (snd (lua_suffix cl rest)) \<le> length rest"
  by (cases rest) (auto simp: lua_suffix_def)

function lua_parse :: "string \<Rightarrow> lua_item list option" where
  "lua_parse p =
     (if p = [] then Some []
      else if p = ''$'' then Some [LEnd]
      else case lua_read_class p of
             None \<Rightarrow> None
           | Some (cl, rest) \<Rightarrow>
               map_option (\<lambda>its. fst (lua_suffix cl rest) # its) (lua_parse (snd (lua_suffix cl rest))))"
  by pat_completeness auto
termination
  by (relation "measure length")
     (auto dest!: lua_read_class_shorter intro: le_less_trans [OF lua_suffix_shorter])

declare lua_parse.simps [simp del]

text \<open>
  The matcher, with its backtracking: a greedy item first tries to take one more character, a
  lazy one first tries to stop.  The end anchor only matches at the end of the subject.
\<close>

function lua_do_match :: "lua_item list \<Rightarrow> string \<Rightarrow> bool" where
  "lua_do_match [] s \<longleftrightarrow> True"
| "lua_do_match (LEnd # its) s \<longleftrightarrow> s = []"
| "lua_do_match (LOne cl # its) s \<longleftrightarrow>
     (case s of [] \<Rightarrow> False | x # xs \<Rightarrow> class_match cl x \<and> lua_do_match its xs)"
| "lua_do_match (LStar cl # its) s \<longleftrightarrow>
     (case s of [] \<Rightarrow> False | x # xs \<Rightarrow> class_match cl x \<and> lua_do_match (LStar cl # its) xs) \<or>
     lua_do_match its s"
| "lua_do_match (LPlus cl # its) s \<longleftrightarrow>
     (case s of [] \<Rightarrow> False | x # xs \<Rightarrow> class_match cl x \<and> lua_do_match (LStar cl # its) xs)"
| "lua_do_match (LLazy cl # its) s \<longleftrightarrow>
     lua_do_match its s \<or>
     (case s of [] \<Rightarrow> False | x # xs \<Rightarrow> class_match cl x \<and> lua_do_match (LLazy cl # its) xs)"
| "lua_do_match (LOpt cl # its) s \<longleftrightarrow>
     (case s of [] \<Rightarrow> False | x # xs \<Rightarrow> class_match cl x \<and> lua_do_match its xs) \<or>
     lua_do_match its s"
  by pat_completeness auto
termination
  by (relation "measure (\<lambda>(its, s). length its + length s)") auto

fun lua_find :: "lua_item list \<Rightarrow> string \<Rightarrow> bool" where
  "lua_find its [] \<longleftrightarrow> lua_do_match its []"
| "lua_find its (x # xs) \<longleftrightarrow> lua_do_match its (x # xs) \<or> lua_find its xs"

text \<open>\<open>string.match(s, pat)\<close>: whether it returns a match; \<open>None\<close> outside the model.\<close>

definition lua_string_match :: "string \<Rightarrow> string \<Rightarrow> bool option" where
  "lua_string_match s pat =
     (if HasPrefix pat ''^''
      then map_option (\<lambda>its. lua_do_match its s) (lua_parse (tl pat))
      else map_option (\<lambda>its. lua_find its s) (lua_parse pat))"

section \<open>The converter never panics\<close>

lemma set_ReplaceAll: "set (ReplaceAll old new s) \<subseteq> set s \<union> set new"
proof (induction old new s rule: ReplaceAll.induct)
  case (2 old new c cs)
  have "set (drop (length old) (c # cs)) \<subseteq> set (c # cs)" by (rule set_drop_subset)
  with 2 show ?case by (auto simp: ReplaceAll.simps)
qed simp

lemma set_ReplaceAll_single: "set (ReplaceAll [c] new s) \<subseteq> (set s - {c}) \<union> set new"
  by (auto simp: ReplaceAll_single split: if_splits)

lemma ReplaceAll_notin:
  "x \<notin> set s \<Longrightarrow> x \<notin> set new \<Longrightarrow> x \<notin> set (ReplaceAll old new s)"
  using set_ReplaceAll [of old new s] by blast

lemma ReplaceAll_keeps: "x \<in> set s \<Longrightarrow> x \<notin> set old \<Longrightarrow> x \<in> set (ReplaceAll old new s)"
proof (induction old new s rule: ReplaceAll.induct)
  case (2 old new c cs)
  show ?case
  proof (cases "old \<noteq> [] \<and> HasPrefix (c # cs) old")
    case True
    then obtain r where r: "c # cs = old @ r" by (auto simp: HasPrefix_iff)
    then have "x \<in> set r" using 2(3, 4) by (metis Un_iff set_append)
    then have "x \<in> set (ReplaceAll old new r)" using 2(1) [OF True] 2(4) r by simp
    then show ?thesis unfolding r using True by (simp add: ReplaceAll_hit)
  next
    case False
    then show ?thesis using 2(2) [OF False] 2(3, 4) by (auto simp: ReplaceAll.simps)
  qed
qed simp

lemma ReplaceAll_single_notin: "c \<notin> set new \<Longrightarrow> c \<notin> set (ReplaceAll [c] new s)"
  using set_ReplaceAll_single [of c new s] by blast

lemma wildcards_replaced:
  assumes "CHR ''{'' \<notin> set p" and "CHR ''}'' \<notin> set p"
  shows "\<not> ContainsAny (ReplaceAll ''*'' singleStarPlaceholder
           (ReplaceAll ''**'' doubleStarPlaceholder p)) ''*{}''" (is "\<not> ContainsAny ?r _")
proof -
  have "CHR ''{'' \<notin> set ?r"
    using assms(1) by (intro ReplaceAll_notin) (simp_all add: singleStarPlaceholder_def doubleStarPlaceholder_def)
  moreover have "CHR ''}'' \<notin> set ?r"
    using assms(2) by (intro ReplaceAll_notin) (simp_all add: singleStarPlaceholder_def doubleStarPlaceholder_def)
  moreover have "CHR ''*'' \<notin> set ?r"
    by (rule ReplaceAll_single_notin) (simp add: singleStarPlaceholder_def)
  ultimately show ?thesis unfolding ContainsAny_iff by fastforce
qed

lemma toLuaPattern_total: "toLuaPattern path \<noteq> None"
proof (cases "ContainsAny path ''{}''")
  case True
  let ?p = "ReplaceAll ''}'' '''' (ReplaceAll ''{'' '''' path)"
  have "CHR ''{'' \<notin> set ?p"
    by (rule ReplaceAll_notin [OF ReplaceAll_single_notin]) simp_all
  moreover have "CHR ''}'' \<notin> set ?p"
    by (rule ReplaceAll_single_notin) simp
  ultimately show ?thesis
    using wildcards_replaced [of ?p] unfolding toLuaPattern_def escapeLuaPatternChars_def Let_def if_P [OF True]
    by simp
next
  case False
  let ?p = "ReplaceAll ''*'' ''**'' path"
  have "CHR ''{'' \<notin> set ?p" and "CHR ''}'' \<notin> set ?p"
    using False by (simp_all add: ReplaceAll_notin)
  then show ?thesis
    using wildcards_replaced [of ?p] unfolding toLuaPattern_def escapeLuaPatternChars_def Let_def if_not_P [OF False]
    by simp
qed

lemma ConvertRequestMatcherPathToLuaPattern_total:
  "\<exists>pat. ConvertRequestMatcherPathToLuaPattern path = Some pat"
  using toLuaPattern_total [of path] by (auto simp: ConvertRequestMatcherPathToLuaPattern_def)

section \<open>The pattern of an accepted path\<close>

text \<open>The wildcard text without braces, the final text in a pattern, and the item it parses to.\<close>

fun star_text :: "path_tok \<Rightarrow> string" where
  "star_text (Lit c) = [c]"
| "star_text OneSeg = ''*''"
| "star_text AnyStr = ''**''"

fun placeholder_text :: "path_tok \<Rightarrow> string" where
  "placeholder_text (Lit c) = [c]"
| "placeholder_text OneSeg = singleStarPlaceholder"
| "placeholder_text AnyStr = doubleStarPlaceholder"

definition lit_text :: "char \<Rightarrow> string" where
  "lit_text c = ReplaceBytes lua_pattern_escapes [c]"

fun lua_text :: "path_tok \<Rightarrow> string" where
  "lua_text (Lit c) = lit_text c"
| "lua_text OneSeg = ''[^/]+''"
| "lua_text AnyStr = ''.*''"

fun lua_item_of :: "path_tok \<Rightarrow> lua_item" where
  "lua_item_of (Lit c) = LOne (LChar c)"
| "lua_item_of OneSeg = LPlus (LSet True ''/'')"
| "lua_item_of AnyStr = LStar LAny"

definition texts :: "(path_tok \<Rightarrow> string) \<Rightarrow> path_tok list \<Rightarrow> string" where
  "texts f ts = concat (map f ts)"

lemma texts_simps [simp]:
  "texts f [] = []" "texts f (t # ts) = f t @ texts f ts"
  by (simp_all add: texts_def)

lemma path_char_not_special:
  "path_char c \<Longrightarrow> c \<noteq> CHR ''<'' \<and> c \<noteq> CHR ''['' \<and> c \<noteq> CHR '']'' \<and> c \<noteq> CHR ''^'' \<and>
     c \<noteq> CHR ''?'' \<and> c \<noteq> CHR 0x22 \<and> c \<noteq> CHR 0x5C \<and> c \<noteq> CHR 0x0A \<and> c \<noteq> CHR 0x0D \<and> c \<noteq> CHR 0x00"
  by (auto simp: path_char_def literal_chars_def)

lemma star_texts_no_braces:
  assumes "wf_toks ts"
  shows "CHR ''{'' \<notin> set (texts star_text ts)" and "CHR ''}'' \<notin> set (texts star_text ts)"
  using assms by (induction ts rule: wf_toks.induct) (auto simp: path_char_neq)

lemma strip_braces_texts:
  "wf_toks ts \<Longrightarrow> ReplaceAll ''}'' '''' (ReplaceAll ''{'' '''' (tok_texts ts)) = texts star_text ts"
proof (induction ts rule: wf_toks.induct)
  case (2 c ts)
  then show ?case using path_charD [of c] by (simp add: ReplaceAll_single)
qed (simp_all add: ReplaceAll_single matchOneTemplate_def matchAnyTemplate_def)

lemma double_legacy_texts:
  "wf_toks ts \<Longrightarrow> OneSeg \<notin> set ts \<Longrightarrow>
     ReplaceAll ''*'' ''**'' (concat (map legacy_text ts)) = texts star_text ts"
proof (induction ts rule: wf_toks.induct)
  case (2 c ts)
  then show ?case using path_charD [of c] by (simp add: ReplaceAll_single)
qed (simp_all add: ReplaceAll_single)

lemma double_star_replaced:
  "wf_toks ts \<Longrightarrow> ReplaceAll ''*'' singleStarPlaceholder
     (ReplaceAll ''**'' doubleStarPlaceholder (texts star_text ts)) = texts placeholder_text ts"
proof (induction ts rule: wf_toks.induct)
  case 1
  then show ?case by simp
next
  case (2 c ts)
  then show ?case using path_charD [of c] by (simp add: ReplaceAll_miss)
next
  case (3 ts)
  have "\<not> HasPrefix (texts star_text ts) ''*''"
    using "3.prems" path_charD by (cases ts rule: wf_toks.cases) auto
  then have "ReplaceAll ''**'' doubleStarPlaceholder (''*'' @ texts star_text ts) =
      ''*'' @ ReplaceAll ''**'' doubleStarPlaceholder (texts star_text ts)"
    by (simp add: ReplaceAll_miss)
  then show ?case
    using 3 ReplaceAll_hit [of "''*''" singleStarPlaceholder] by (auto split: list.splits)
next
  case (4 ts)
  have "ReplaceAll ''*'' singleStarPlaceholder (doubleStarPlaceholder @ s) =
      doubleStarPlaceholder @ ReplaceAll ''*'' singleStarPlaceholder s" for s
    by (rule ReplaceAll_skip) (simp add: doubleStarPlaceholder_def)
  then show ?case
    using 4 ReplaceAll_hit [of "''**''" doubleStarPlaceholder] by (auto split: list.splits)
qed

lemma lit_text_cases: "lit_text c = [c] \<or> (lit_text c = [CHR ''%'', c] \<and> c \<notin> set ascii_alnum)"
  by (auto simp: lit_text_def ReplaceBytes_def lua_pattern_escapes_def ascii_alnum_def)

lemma lit_text_unescaped:
  "lit_text c = [c] \<Longrightarrow> c \<notin> set ''%^$.+-?[]()''"
  by (auto simp: lit_text_def ReplaceBytes_def lua_pattern_escapes_def)

lemma set_lit_text: "set (lit_text c) \<subseteq> {CHR ''%'', c}"
  using lit_text_cases [of c] by auto

fun escaped_text :: "path_tok \<Rightarrow> string" where
  "escaped_text (Lit c) = lit_text c"
| "escaped_text t = placeholder_text t"

fun single_done_text :: "path_tok \<Rightarrow> string" where
  "single_done_text (Lit c) = lit_text c"
| "single_done_text OneSeg = ''[^/]+''"
| "single_done_text AnyStr = doubleStarPlaceholder"

lemma escape_texts:
  "ReplaceBytes lua_pattern_escapes (texts placeholder_text ts) = texts escaped_text ts"
proof -
  have "ReplaceBytes lua_pattern_escapes singleStarPlaceholder = singleStarPlaceholder"
    "ReplaceBytes lua_pattern_escapes doubleStarPlaceholder = doubleStarPlaceholder"
    by (simp_all add: ReplaceBytes_def singleStarPlaceholder_def doubleStarPlaceholder_def lua_pattern_escapes_def)
  then show ?thesis
  proof (induction ts)
    case (Cons t ts)
    then show ?case by (cases t) (auto simp: lit_text_def ReplaceBytes_Cons)
  qed simp
qed

lemma skip_literal:
  "path_char c \<Longrightarrow> ReplaceAll (CHR ''<'' # os) new (lit_text c @ s) = lit_text c @ ReplaceAll (CHR ''<'' # os) new s"
  using set_lit_text [of c] path_char_not_special [of c] by (intro ReplaceAll_skip) auto

lemma single_placeholders_replaced:
  "wf_toks ts \<Longrightarrow>
     ReplaceAll singleStarPlaceholder ''[^/]+'' (texts escaped_text ts) = texts single_done_text ts"
proof (induction ts rule: wf_toks.induct)
  case (2 c ts)
  then show ?case using skip_literal [of c] by (simp add: singleStarPlaceholder_def)
next
  case (3 ts)
  then show ?case
    using ReplaceAll_hit [of singleStarPlaceholder "''[^/]+''"] by (simp add: singleStarPlaceholder_def)
next
  case (4 ts)
  then show ?case
    by (simp add: singleStarPlaceholder_def doubleStarPlaceholder_def ReplaceAll_miss)
qed simp

lemma double_placeholders_replaced:
  "wf_toks ts \<Longrightarrow>
     ReplaceAll doubleStarPlaceholder ''.*'' (texts single_done_text ts) = texts lua_text ts"
proof (induction ts rule: wf_toks.induct)
  case (2 c ts)
  then show ?case using skip_literal [of c] by (simp add: doubleStarPlaceholder_def)
next
  case (3 ts)
  then show ?case by (simp add: doubleStarPlaceholder_def ReplaceAll_miss)
next
  case (4 ts)
  then show ?case
    using ReplaceAll_hit [of doubleStarPlaceholder "''.*''"] by (simp add: doubleStarPlaceholder_def)
qed simp

lemma toLuaPattern_accepted:
  assumes "accepted_path p"
  shows "toLuaPattern p = Some (texts lua_text (path_tokens p))"
proof -
  note wf = accepted_path_tokens(1) [OF assms]
  have stars: "(if ContainsAny p ''{}'' then ReplaceAll ''}'' '''' (ReplaceAll ''{'' '''' p)
      else ReplaceAll ''*'' ''**'' p) = texts star_text (path_tokens p)" (is "?p1 = _")
  proof (cases "ContainsAny p ''{}''")
    case True
    show ?thesis
      unfolding if_P [OF True] by (subst accepted_path_tokens(2) [OF assms True]) (rule strip_braces_texts [OF wf])
  next
    case False
    have "p = concat (map legacy_text (path_tokens p))" and one: "OneSeg \<notin> set (path_tokens p)"
      using accepted_path_tokens(3) [OF assms False] by simp_all
    then show ?thesis unfolding if_not_P [OF False] using double_legacy_texts [OF wf one] by simp
  qed
  note nb = star_texts_no_braces [OF wf]
  have noop: "\<not> ContainsAny (texts placeholder_text (path_tokens p)) ''*{}''"
    using wildcards_replaced [of "texts star_text (path_tokens p)"] nb double_star_replaced [OF wf] by simp
  show ?thesis
    unfolding toLuaPattern_def Let_def stars double_star_replaced [OF wf]
    using noop by (simp add: escapeLuaPatternChars_def escape_texts single_placeholders_replaced [OF wf]
        double_placeholders_replaced [OF wf])
qed

subsection \<open>Parsing it back\<close>

text \<open>The text behind a token never starts with a repetition suffix.\<close>

lemma lua_text_head:
  assumes "wf_toks ts"
  shows "\<exists>h r. texts lua_text ts @ ''$'' = h # r \<and> h \<notin> set ''*+-?''"
proof (cases ts rule: wf_toks.cases)
  case (2 c us)
  with assms have "path_char c" by simp
  then have "c \<noteq> CHR ''*''" by (simp add: path_charD)
  then show ?thesis
    using 2 lit_text_cases [of c] lit_text_unescaped [of c] by auto
qed simp_all

lemma lua_suffix_none:
  "rest = h # r \<Longrightarrow> h \<notin> set ''*+-?'' \<Longrightarrow> lua_suffix cl rest = (LOne cl, rest)"
  by (simp add: lua_suffix_def)

lemma lua_parse_step:
  assumes "p \<noteq> []" and "p \<noteq> ''$''" and "lua_read_class p = Some (cl, rest)"
    and "lua_suffix cl rest = (it, rest')" and "lua_parse rest' = Some its"
  shows "lua_parse p = Some (it # its)"
  using assms by (simp add: lua_parse.simps [of p])

lemma lua_parse_texts:
  "wf_toks ts \<Longrightarrow> lua_parse (texts lua_text ts @ ''$'') = Some (map lua_item_of ts @ [LEnd])"
proof (induction ts rule: wf_toks.induct)
  case 1
  then show ?case by (simp add: lua_parse.simps)
next
  case (2 c ts)
  let ?rest = "texts lua_text ts @ ''$''"
  from 2 obtain h r where hr: "?rest = h # r" "h \<notin> set ''*+-?''" using lua_text_head [of ts] by auto
  have read: "lua_read_class (lit_text c @ ?rest) = Some (LChar c, ?rest)"
    using lit_text_cases [of c] lit_text_unescaped [of c] by auto
  show ?case
    using lua_parse_step [OF _ _ read lua_suffix_none [OF hr]] 2 hr lit_text_cases [of c] by auto
next
  case (3 ts)
  have "lua_read_class (''[^/]+'' @ texts lua_text ts @ ''$'') =
      Some (LSet True ''/'', ''+'' @ texts lua_text ts @ ''$'')"
    by (simp add: lua_set_def)
  then show ?case
    using 3 lua_parse_step [of "''[^/]+'' @ texts lua_text ts @ ''$''"]
    by (auto simp: lua_suffix_def split: list.splits)
next
  case (4 ts)
  have "lua_read_class (''.*'' @ texts lua_text ts @ ''$'') = Some (LAny, ''*'' @ texts lua_text ts @ ''$'')"
    by simp
  then show ?case
    using 4 lua_parse_step [of "''.*'' @ texts lua_text ts @ ''$''"]
    by (auto simp: lua_suffix_def split: list.splits)
qed

subsection \<open>Matching it\<close>

lemma lua_any_star:
  "(\<And>s. lua_do_match its s \<longleftrightarrow> tok_match ts s) \<Longrightarrow>
     lua_do_match (LStar LAny # its) s \<longleftrightarrow> tok_match (AnyStr # ts) s"
  by (induction s) auto

lemma lua_seg_star:
  "(\<And>s. lua_do_match its s \<longleftrightarrow> tok_match ts s) \<Longrightarrow>
     lua_do_match (LStar (LSet True ''/'') # its) s \<longleftrightarrow> tok_match ts s \<or> tok_match (OneSeg # ts) s"
  by (induction s) auto

lemma lua_match_tokens:
  "lua_do_match (map lua_item_of ts @ [LEnd]) s \<longleftrightarrow> tok_match ts s"
proof (induction ts arbitrary: s)
  case (Cons t ts)
  show ?case
  proof (cases t)
    case (Lit c)
    then show ?thesis using Cons.IH by (cases s) auto
  next
    case OneSeg
    then show ?thesis using lua_seg_star [OF Cons.IH] by (cases s) (auto simp del: lua_do_match.simps(4))
  next
    case AnyStr
    then show ?thesis using lua_any_star [OF Cons.IH] by simp
  qed
qed simp

lemma pattern_of_accepted_path:
  assumes "accepted_path p"
  shows "ConvertRequestMatcherPathToLuaPattern p = Some (''^'' @ texts lua_text (path_tokens p) @ ''$'')"
    and "lua_string_match s (''^'' @ texts lua_text (path_tokens p) @ ''$'') = Some (path_denotes p s)"
  using accepted_path_tokens(1) [OF assms]
  by (simp_all add: ConvertRequestMatcherPathToLuaPattern_def toLuaPattern_accepted [OF assms]
      lua_string_match_def lua_parse_texts lua_match_tokens path_denotes_def)

section \<open>Properties\<close>

text \<open>C12: for every validated path the converter returns a Lua pattern, and
  \<open>string.match\<close> on that pattern succeeds exactly on the request paths the path denotes.\<close>

theorem lua_pattern_matches_path:
  assumes "validatePath p = Inr ()"
  shows "\<exists>pat. ConvertRequestMatcherPathToLuaPattern p = Some pat \<and>
    lua_string_match s pat = Some (path_denotes p s)"
  using pattern_of_accepted_path [of p] assms by (simp add: validatePath_Inr_iff)

theorem lua_pattern_matches_path_witness:
  "\<exists>pat. ConvertRequestMatcherPathToLuaPattern ''/a.b/{*}'' = Some pat \<and>
    lua_string_match ''/a.b/c'' pat = Some (path_denotes ''/a.b/{*}'' ''/a.b/c'')"
  by (rule lua_pattern_matches_path) code_simp

end
