(* ===== verification/Scope.thy ===== *)
theory Scope
  imports AuthPolicyTypes
begin

text \<open>
  \<open>internal/state/scope.go\<close>: what one reconciliation knows about its AuthPolicy after
  resolving it, and the log of the resources it has reconciled so far, the descendants.
  \<open>internal/names/names.go\<close>: the names of the generated resources.  The client object a
  descendant carries is a type parameter, nothing reads it.
\<close>

section \<open>State\<close>

record identityProviderUris =
  idp_issuerURI :: string
  idp_jwksURI :: string
  idp_tokenURI :: string
  idp_authorizationURI :: string
  idp_endSessionURI :: "string option"

record autoLoginConfig =
  alc_enabled :: bool
  alc_loginPath :: "string option"
  alc_redirectPath :: string
  alc_logoutPath :: string
  alc_postLogoutRedirectURI :: "string option"
  alc_scopes :: "string list"
  alc_loginParams :: labels
  alc_luaScript :: string
  alc_envoySecretName :: string

record oauthCredentials =
  cr_clientID :: "string option"
  cr_clientSecret :: "string option"

record 'o descendant =
  d_id :: string
  d_object :: 'o
  d_errorMessage :: "string option"
  d_successMessage :: "string option"

record 'o scope =
  s_authPolicy :: authPolicy
  s_audiences :: "string list"
  s_autoLoginConfig :: autoLoginConfig
  s_oauthCredentials :: oauthCredentials
  s_identityProviderUris :: identityProviderUris
  s_descendants :: "'o descendant list"
  s_invalidConfig :: bool
  s_validationErrorMessage :: "string option"

section \<open>Operations\<close>

definition GetID :: "string \<Rightarrow> string \<Rightarrow> string" where
  "GetID resourceKind resourceName = resourceKind @ ''-'' @ resourceName"

definition GetErrors :: "'o scope \<Rightarrow> string list" where
  "GetErrors s = List.map_filter d_errorMessage (s_descendants s)"

text \<open>The loop of \<open>ReplaceDescendant\<close>: overwrite the first match and return, else append.\<close>

fun replaceDescendant_loop :: "'o descendant \<Rightarrow> 'o descendant list \<Rightarrow> 'o descendant list" where
  "replaceDescendant_loop new [] = [new]"
| "replaceDescendant_loop new (d # ds) =
     (if d_id d = d_id new then new # ds else d # replaceDescendant_loop new ds)"

definition ReplaceDescendant ::
  "'o scope \<Rightarrow> 'o \<Rightarrow> string option \<Rightarrow> string option \<Rightarrow> string \<Rightarrow> string \<Rightarrow> 'o scope" where
  "ReplaceDescendant s obj errorMessage successMessage resourceKind resourceName =
     s\<lparr>s_descendants := replaceDescendant_loop
        \<lparr>d_id = GetID resourceKind resourceName, d_object = obj,
         d_errorMessage = errorMessage, d_successMessage = successMessage\<rparr> (s_descendants s)\<rparr>"

definition SetSaneDefaults :: "autoLoginConfig \<Rightarrow> autoLogin \<Rightarrow> autoLoginConfig" where
  "SetSaneDefaults a al =
     (let a1 = (case al_redirectPath al of
                  None \<Rightarrow> a\<lparr>alc_redirectPath := ''/oauth2/callback''\<rparr>
                | Some p \<Rightarrow> if p = [] then a\<lparr>alc_redirectPath := ''/oauth2/callback''\<rparr>
                            else a\<lparr>alc_redirectPath := p\<rparr>)
      in (case al_logoutPath al of
            None \<Rightarrow> a1\<lparr>alc_logoutPath := ''/logout''\<rparr>
          | Some p \<Rightarrow> if p = [] then a1\<lparr>alc_logoutPath := ''/logout''\<rparr>
                      else a1\<lparr>alc_logoutPath := p\<rparr>))"

section \<open>Names\<close>

definition EnvoyFilterName :: "string \<Rightarrow> string" where
  "EnvoyFilterName base = base @ ''-login''"

definition EnvoySecretName :: "string \<Rightarrow> string" where
  "EnvoySecretName base = base @ ''-envoy-secret''"

definition DenyPolicyName :: "string \<Rightarrow> string" where
  "DenyPolicyName base = base @ ''-deny-auth-rules''"

definition IgnorePolicyName :: "string \<Rightarrow> string" where
  "IgnorePolicyName base = base @ ''-ignore-auth''"

definition RequirePolicyName :: "string \<Rightarrow> string" where
  "RequirePolicyName base = base @ ''-require-auth''"

lemmas name_defs =
  EnvoyFilterName_def EnvoySecretName_def DenyPolicyName_def IgnorePolicyName_def RequirePolicyName_def

section \<open>The descendant log\<close>

definition descendant_ids :: "'o scope \<Rightarrow> string list" where
  "descendant_ids s = map d_id (s_descendants s)"

definition find_descendant :: "string \<Rightarrow> 'o scope \<Rightarrow> 'o descendant option" where
  "find_descendant i s = find (\<lambda>d. d_id d = i) (s_descendants s)"

lemma replaceDescendant_loop_ids:
  "map d_id (replaceDescendant_loop new ds) =
     (if d_id new \<in> set (map d_id ds) then map d_id ds else map d_id ds @ [d_id new])"
  by (induction ds) auto

lemma replaceDescendant_loop_find:
  "find (\<lambda>d. d_id d = i) (replaceDescendant_loop new ds) =
     (if i = d_id new then Some new else find (\<lambda>d. d_id d = i) ds)"
  by (induction ds) auto

lemma ReplaceDescendant_ids:
  "descendant_ids (ReplaceDescendant s obj e m kind name) =
     (if GetID kind name \<in> set (descendant_ids s) then descendant_ids s
      else descendant_ids s @ [GetID kind name])"
  by (simp add: descendant_ids_def ReplaceDescendant_def replaceDescendant_loop_ids)

lemma ReplaceDescendant_find:
  "find_descendant i (ReplaceDescendant s obj e m kind name) =
     (if i = GetID kind name
      then Some \<lparr>d_id = GetID kind name, d_object = obj, d_errorMessage = e, d_successMessage = m\<rparr>
      else find_descendant i s)"
  by (simp add: find_descendant_def ReplaceDescendant_def replaceDescendant_loop_find)

lemma ReplaceDescendant_new:
  "GetID kind name \<notin> set (descendant_ids s) \<Longrightarrow>
     s_descendants (ReplaceDescendant s obj e m kind name) = s_descendants s @
       [\<lparr>d_id = GetID kind name, d_object = obj, d_errorMessage = e, d_successMessage = m\<rparr>]"
proof -
  have "d_id new \<notin> set (map d_id ds) \<Longrightarrow> replaceDescendant_loop new ds = ds @ [new]"
    for new :: "'a descendant" and ds
    by (induction ds) auto
  then show "GetID kind name \<notin> set (descendant_ids s) \<Longrightarrow> ?thesis"
    by (simp add: ReplaceDescendant_def descendant_ids_def)
qed

lemma ReplaceDescendant_frame [simp]:
  "s_authPolicy (ReplaceDescendant s obj e m kind name) = s_authPolicy s"
  "s_invalidConfig (ReplaceDescendant s obj e m kind name) = s_invalidConfig s"
  "s_validationErrorMessage (ReplaceDescendant s obj e m kind name) = s_validationErrorMessage s"
  by (simp_all add: ReplaceDescendant_def)

end
