(* ===== verification/LuaScript.thy ===== *)
theory LuaScript
  imports LuaPattern Scope "HOL-Library.Multiset"
begin

text \<open>
  The rest of \<open>pkg/luascript\<close>: escaping for Lua string literals
  (\<open>lua_string_escape.go\<close>), the Lua tables of the request matchers
  (\<open>request_matcher_converter.go\<close>) and of the login parameters
  (\<open>login_param_converter.go\<close>), and the selection of the matchers
  (\<open>lua_script_generator.go\<close>).  A reader for the generated fragment of Lua (string literals
  and the rule table) says what the text means to the proxy; the lemmas show that it reads back as
  the values it was written from.
\<close>

section \<open>Escaping\<close>

definition quote_char :: char where
  "quote_char = CHR 0x22"

definition backslash :: char where
  "backslash = CHR 0x5C"

definition lua_string_escapes :: "(char \<times> string) list" where
  "lua_string_escapes =
     [(backslash, [backslash, backslash]), (quote_char, [backslash, quote_char]),
      (CHR 0x0A, [backslash, CHR ''n'']), (CHR 0x0D, [backslash, CHR ''r'']),
      (CHR 0x09, [backslash, CHR ''t'']), (CHR 0x0B, [backslash, CHR ''v'']),
      (CHR 0x0C, [backslash, CHR ''f'']), (CHR 0x00, [])]"

definition EscapeLuaString :: "string \<Rightarrow> string" where
  "EscapeLuaString s = ReplaceBytes lua_string_escapes s"

section \<open>The tables\<close>

definition method_text :: "string \<Rightarrow> string" where
  "method_text method = ''['' @ [quote_char] @ EscapeLuaString method @ [quote_char] @ '']=true''"

fun methods_text :: "string list \<Rightarrow> string" where
  "methods_text [] = []"
| "methods_text [m] = method_text m"
| "methods_text (m # n # ms) = method_text m @ '','' @ methods_text (n # ms)"

text \<open>One entry; \<open>None\<close> is the panic of the pattern converter.\<close>

definition entry_text :: "string \<Rightarrow> string list \<Rightarrow> string option" where
  "entry_text path methods =
     map_option (\<lambda>pat. ''{regex='' @ [quote_char] @ pat @ [quote_char] @ '',methods={'' @
         methods_text methods @ ''}}'')
       (ConvertRequestMatcherPathToLuaPattern path)"

text \<open>The two nested loops, with the \<open>first\<close> flag that decides the comma.\<close>

fun entries_loop :: "bool \<Rightarrow> (string \<times> string list) list \<Rightarrow> string option" where
  "entries_loop first [] = Some []"
| "entries_loop first ((path, methods) # rest) =
     Option.bind (entry_text path methods) (\<lambda>e.
       map_option (\<lambda>es. (if first then [] else '','') @ e @ es) (entries_loop False rest))"

definition matcher_entries :: "requestMatcher list \<Rightarrow> (string \<times> string list) list" where
  "matcher_entries ms = concat (map (\<lambda>m. map (\<lambda>p. (p, rm_methods m)) (rm_paths m)) ms)"

definition ConvertRequestMatchersToLuaTableString :: "requestMatcher list \<Rightarrow> string option" where
  "ConvertRequestMatchersToLuaTableString ms =
     map_option (\<lambda>body. ''{'' @ body @ ''}'') (entries_loop True (matcher_entries ms))"

text \<open>
  \<open>url.QueryEscape\<close>: unreserved bytes stay, a space becomes \<open>+\<close>, any other byte is
  percent-encoded with upper-case digits.
\<close>

definition hex_digits :: string where
  "hex_digits = ''0123456789ABCDEF''"

definition query_unreserved :: string where
  "query_unreserved = ascii_alnum @ ''-_.~''"

definition query_byte :: "char \<Rightarrow> string" where
  "query_byte c =
     (if c \<in> set query_unreserved then [c]
      else if c = CHR '' '' then ''+''
      else [CHR ''%'', hex_digits ! (of_char c div 16), hex_digits ! (of_char c mod 16)])"

definition QueryEscape :: "string \<Rightarrow> string" where
  "QueryEscape s = concat (map query_byte s)"

definition encodeLoginParams :: "labels \<Rightarrow> labels" where
  "encodeLoginParams raw = map (\<lambda>(k, v). (k, QueryEscape v)) raw"

definition param_text :: "string \<Rightarrow> string \<Rightarrow> string" where
  "param_text k v = ''['' @ [quote_char] @ EscapeLuaString k @ [quote_char] @ '']='' @
     [quote_char] @ EscapeLuaString v @ [quote_char]"

fun params_loop :: "bool \<Rightarrow> labels \<Rightarrow> string list \<Rightarrow> string" where
  "params_loop first params [] = []"
| "params_loop first params (k # ks) =
     (if first then [] else '','') @ param_text k (map_index params k) @ params_loop False params ks"

definition ConvertLoginParamsToLuaParams :: "labels \<Rightarrow> string" where
  "ConvertLoginParamsToLuaParams rawLoginParams =
     (let params = encodeLoginParams rawLoginParams
      in if params = [] then ''{}''
         else ''{'' @ params_loop True params (sort (map fst params)) @ ''}'')"

section \<open>The matchers of a policy\<close>

definition IgnoreAuthMatchers :: "requestMatcher list option \<Rightarrow> requestMatcher list" where
  "IgnoreAuthMatchers ignoreAuthRules = (case ignoreAuthRules of None \<Rightarrow> [] | Some rs \<Rightarrow> rs)"

definition DenyRedirectMatchers :: "requestAuthRule list option \<Rightarrow> requestMatcher list" where
  "DenyRedirectMatchers authRules =
     (case authRules of None \<Rightarrow> []
      | Some rs \<Rightarrow> map requestMatcher.truncate (filter (\<lambda>r. rar_denyRedirect r = Some True) rs))"

definition RequireAuthMatchers ::
  "requestAuthRule list option \<Rightarrow> autoLoginConfig \<Rightarrow> requestMatcher list" where
  "RequireAuthMatchers authRules cfg =
     GetRequestMatchers authRules @
     [\<lparr>rm_paths = [alc_redirectPath cfg, alc_logoutPath cfg] @
          (case alc_loginPath cfg of None \<Rightarrow> [] | Some p \<Rightarrow> [p]),
       rm_methods = []\<rparr>]"

section \<open>Reading the generated Lua\<close>

text \<open>
  The body of a double-quoted literal, read from behind the opening quote: the value and what
  follows the closing quote. A raw line break or the end of the text leaves the literal unfinished.
  Numeric escapes are outside the model.
\<close>

definition lua_escape_values :: "(char \<times> char) list" where
  "lua_escape_values =
     [(CHR ''n'', CHR 0x0A), (CHR ''r'', CHR 0x0D), (CHR ''t'', CHR 0x09), (CHR ''v'', CHR 0x0B),
      (CHR ''f'', CHR 0x0C), (CHR ''a'', CHR 0x07), (CHR ''b'', CHR 0x08),
      (backslash, backslash), (quote_char, quote_char), (CHR 0x27, CHR 0x27)]"

fun lua_read_string :: "string \<Rightarrow> (string \<times> string) option" where
  "lua_read_string [] = None"
| "lua_read_string [c] = (if c = quote_char then Some ([], []) else None)"
| "lua_read_string (c # x # xs) =
     (if c = quote_char then Some ([], x # xs)
      else if c = backslash then
        (case map_of lua_escape_values x of None \<Rightarrow> None
         | Some v \<Rightarrow> map_option (\<lambda>(s, r). (v # s, r)) (lua_read_string xs))
      else if c = CHR 0x0A \<or> c = CHR 0x0D then None
      else map_option (\<lambda>(s, r). (c # s, r)) (lua_read_string (x # xs)))"

lemma lua_read_string_shorter: "lua_read_string s = Some (v, r) \<Longrightarrow> length r < length s"
  by (induction s arbitrary: v rule: lua_read_string.induct)
     (fastforce split: if_splits option.splits)+

text \<open>A fixed piece of text.\<close>

definition expect :: "string \<Rightarrow> string \<Rightarrow> string option" where
  "expect p s = (if HasPrefix s p then Some (drop (length p) s) else None)"

lemma expect_append [simp]: "expect p (p @ s) = Some s"
  by (simp add: expect_def)

lemma expect_shorter: "expect p s = Some r \<Longrightarrow> length r = length s - length p \<and> length p \<le> length s"
  by (auto simp: expect_def HasPrefix_def split: if_splits)

text \<open>One method, \<open>["M"]=true\<close>, a list of them up to the closing brace, an entry, the table.\<close>

definition read_method :: "string \<Rightarrow> (string \<times> string) option" where
  "read_method s =
     Option.bind (expect (''['' @ [quote_char]) s) (\<lambda>r1.
     Option.bind (lua_read_string r1) (\<lambda>(m, r2).
     Option.bind (expect '']=true'' r2) (\<lambda>r3. Some (m, r3))))"

lemma read_method_shorter: "read_method s = Some (m, r) \<Longrightarrow> length r < length s"
  by (auto simp: read_method_def bind_eq_Some_conv dest!: expect_shorter lua_read_string_shorter)

function read_methods :: "string \<Rightarrow> (string list \<times> string) option" where
  "read_methods s =
     (case read_method s of None \<Rightarrow> None
      | Some (m, r) \<Rightarrow>
          (case expect '','' r of
             None \<Rightarrow> map_option (\<lambda>r'. ([m], r')) (expect ''}'' r)
           | Some r' \<Rightarrow> map_option (\<lambda>(ms, r''). (m # ms, r'')) (read_methods r')))"
  by pat_completeness auto
termination
  by (relation "measure length") (auto dest!: read_method_shorter expect_shorter)

declare read_methods.simps [simp del]

lemma read_methods_shorter: "read_methods s = Some (ms, r) \<Longrightarrow> length r < length s"
proof (induction s arbitrary: ms r rule: read_methods.induct)
  case (1 s)
  from "1.prems" obtain m r1 where m: "read_method s = Some (m, r1)"
    by (auto simp: read_methods.simps [of s] split: option.splits)
  show ?case
  proof (cases "expect '','' r1")
    case None
    with 1 m show ?thesis
      by (auto simp: read_methods.simps [of s] dest!: read_method_shorter expect_shorter)
  next
    case (Some r2)
    with "1.prems" m obtain ms' where "read_methods r2 = Some (ms', r)"
      by (auto simp: read_methods.simps [of s])
    with "1.IH" [OF m refl Some] have "length r < length r2" by blast
    with m Some show ?thesis by (auto dest!: read_method_shorter expect_shorter)
  qed
qed

definition read_method_table :: "string \<Rightarrow> (string list \<times> string) option" where
  "read_method_table s = (case expect ''}'' s of Some r \<Rightarrow> Some ([], r) | None \<Rightarrow> read_methods s)"

lemma read_method_table_shorter: "read_method_table s = Some (ms, r) \<Longrightarrow> length r < length s"
  by (auto simp: read_method_table_def split: option.splits dest: expect_shorter read_methods_shorter)

definition read_entry :: "string \<Rightarrow> ((string \<times> string list) \<times> string) option" where
  "read_entry s =
     Option.bind (expect (''{regex='' @ [quote_char]) s) (\<lambda>r1.
     Option.bind (lua_read_string r1) (\<lambda>(re, r2).
     Option.bind (expect '',methods={'' r2) (\<lambda>r3.
     Option.bind (read_method_table r3) (\<lambda>(ms, r4).
     Option.bind (expect ''}'' r4) (\<lambda>r5. Some ((re, ms), r5))))))"

lemma read_entry_shorter: "read_entry s = Some (e, r) \<Longrightarrow> length r < length s"
  by (auto simp: read_entry_def bind_eq_Some_conv
      dest!: expect_shorter lua_read_string_shorter read_method_table_shorter)

function read_entries :: "string \<Rightarrow> ((string \<times> string list) list \<times> string) option" where
  "read_entries s =
     (case read_entry s of None \<Rightarrow> None
      | Some (e, r) \<Rightarrow>
          (case expect '','' r of
             None \<Rightarrow> map_option (\<lambda>r'. ([e], r')) (expect ''}'' r)
           | Some r' \<Rightarrow> map_option (\<lambda>(es, r''). (e # es, r'')) (read_entries r')))"
  by pat_completeness auto
termination
  by (relation "measure length") (auto dest!: read_entry_shorter expect_shorter)

declare read_entries.simps [simp del]

definition read_table :: "string \<Rightarrow> ((string \<times> string list) list \<times> string) option" where
  "read_table s =
     Option.bind (expect ''{'' s) (\<lambda>r.
       case expect ''}'' r of Some r' \<Rightarrow> Some ([], r') | None \<Rightarrow> read_entries r)"

text \<open>A parameter, \<open>["k"]="v"\<close>, and their table.\<close>

definition read_param :: "string \<Rightarrow> ((string \<times> string) \<times> string) option" where
  "read_param s =
     Option.bind (expect (''['' @ [quote_char]) s) (\<lambda>r1.
     Option.bind (lua_read_string r1) (\<lambda>(k, r2).
     Option.bind (expect ('']='' @ [quote_char]) r2) (\<lambda>r3.
     Option.bind (lua_read_string r3) (\<lambda>(v, r4). Some ((k, v), r4)))))"

lemma read_param_shorter: "read_param s = Some (kv, r) \<Longrightarrow> length r < length s"
  by (auto simp: read_param_def bind_eq_Some_conv dest!: expect_shorter lua_read_string_shorter)

function read_params :: "string \<Rightarrow> (labels \<times> string) option" where
  "read_params s =
     (case read_param s of None \<Rightarrow> None
      | Some (kv, r) \<Rightarrow>
          (case expect '','' r of
             None \<Rightarrow> map_option (\<lambda>r'. ([kv], r')) (expect ''}'' r)
           | Some r' \<Rightarrow> map_option (\<lambda>(kvs, r''). (kv # kvs, r'')) (read_params r')))"
  by pat_completeness auto
termination
  by (relation "measure length") (auto dest!: read_param_shorter expect_shorter)

declare read_params.simps [simp del]

definition read_param_table :: "string \<Rightarrow> (labels \<times> string) option" where
  "read_param_table s =
     Option.bind (expect ''{'' s) (\<lambda>r.
       case expect ''}'' r of Some r' \<Rightarrow> Some ([], r') | None \<Rightarrow> read_params r)"

section \<open>The text reads back\<close>

text \<open>What remains of a Go string in a Lua literal: everything but its null bytes.\<close>

definition no_nul :: "string \<Rightarrow> string" where
  "no_nul s = filter (\<lambda>c. c \<noteq> CHR 0x00) s"

lemma no_nul_id: "CHR 0x00 \<notin> set s \<Longrightarrow> no_nul s = s"
  by (auto simp: no_nul_def intro!: filter_True)

lemma lua_read_string_close [simp]: "lua_read_string (quote_char # r) = Some ([], r)"
  by (cases r) auto

definition bare_char :: "char \<Rightarrow> bool" where
  "bare_char c \<longleftrightarrow> c \<noteq> quote_char \<and> c \<noteq> backslash \<and> c \<noteq> CHR 0x0A \<and> c \<noteq> CHR 0x0D"

lemma lua_read_string_bare:
  "bare_char c \<Longrightarrow> lua_read_string (c # s) = map_option (\<lambda>(v, r). (c # v, r)) (lua_read_string s)"
  by (cases s) (auto simp: bare_char_def)

lemma lua_read_string_escape:
  "map_of lua_escape_values x = Some v \<Longrightarrow>
     lua_read_string (backslash # x # s) = map_option (\<lambda>(t, r). (v # t, r)) (lua_read_string s)"
  by (simp add: backslash_def quote_char_def)

lemma lua_read_bare_string:
  "(\<And>c. c \<in> set s \<Longrightarrow> bare_char c) \<Longrightarrow> lua_read_string (s @ quote_char # r) = Some (s, r)"
  by (induction s) (simp_all add: lua_read_string_bare)

lemma EscapeLuaString_Cons:
  "EscapeLuaString (c # s) = EscapeLuaString [c] @ EscapeLuaString s"
  by (simp add: EscapeLuaString_def ReplaceBytes_Cons)

lemma EscapeLuaString_cases:
  obtains (bare) "EscapeLuaString [c] = [c]" "bare_char c" "c \<noteq> CHR 0x00"
  | (escaped) x where "EscapeLuaString [c] = [backslash, x]" "map_of lua_escape_values x = Some c" "c \<noteq> CHR 0x00"
  | (nul) "EscapeLuaString [c] = []" "c = CHR 0x00"
  by (cases "c \<in> {backslash, quote_char, CHR 0x0A, CHR 0x0D, CHR 0x09, CHR 0x0B, CHR 0x0C, CHR 0x00}")
     (auto simp: EscapeLuaString_def ReplaceBytes_def lua_string_escapes_def lua_escape_values_def
       backslash_def quote_char_def bare_char_def)

lemma lua_read_escaped:
  "lua_read_string (EscapeLuaString s @ quote_char # r) = Some (no_nul s, r)"
proof (induction s)
  case Nil
  then show ?case by (simp add: EscapeLuaString_def no_nul_def)
next
  case (Cons c s)
  show ?case
  proof (cases c rule: EscapeLuaString_cases)
    case bare
    with Cons show ?thesis
      by (simp add: EscapeLuaString_Cons [of c s] lua_read_string_bare no_nul_def)
  next
    case (escaped x)
    with Cons show ?thesis
      by (simp add: EscapeLuaString_Cons [of c s] lua_read_string_escape no_nul_def del: lua_read_string.simps)
  next
    case nul
    with Cons show ?thesis
      using EscapeLuaString_Cons [of c s] by (simp add: no_nul_def)
  qed
qed

lemma expect_miss [simp]: "a \<noteq> c \<Longrightarrow> expect (a # p) (c # s) = None"
  by (simp add: expect_def)

lemma expect_Cons [simp]: "expect (c # p) (c # s) = expect p s"
  by (simp add: expect_def)

lemma expect_Nil [simp]: "expect [] s = Some s"
  by (simp add: expect_def)

lemma read_method_text: "read_method (method_text m @ r) = Some (no_nul m, r)"
  by (simp add: read_method_def method_text_def lua_read_escaped del: lua_read_string.simps)

lemma read_methods_text:
  "ms \<noteq> [] \<Longrightarrow> read_methods (methods_text ms @ ''}'' @ r) = Some (map no_nul ms, r)"
proof (induction ms rule: methods_text.induct)
  case (2 m)
  then show ?case by (simp add: read_methods.simps [of "method_text m @ _"] read_method_text)
next
  case (3 m n ms)
  then show ?case by (simp add: read_methods.simps [of "method_text m @ _"] read_method_text)
qed simp

lemma methods_text_not_brace:
  "ms \<noteq> [] \<Longrightarrow> expect ''}'' (methods_text ms @ r) = None"
  by (cases ms rule: methods_text.cases) (simp_all add: method_text_def)

lemma read_method_table_text:
  "read_method_table (methods_text ms @ CHR ''}'' # r) = Some (map no_nul ms, r)"
  using methods_text_not_brace [of ms] read_methods_text [of ms r]
  by (cases "ms = []") (simp_all add: read_method_table_def)

text \<open>An entry whose pattern needs no escaping, and the tables.\<close>

lemma read_entry_text:
  assumes "ConvertRequestMatcherPathToLuaPattern path = Some pat"
    and "\<And>c. c \<in> set pat \<Longrightarrow> bare_char c"
    and "entry_text path methods = Some e"
  shows "read_entry (e @ r) = Some ((pat, map no_nul methods), r)"
proof -
  have e: "e @ r = ''{regex='' @ [quote_char] @ pat @ quote_char # '',methods={'' @
      methods_text methods @ ''}'' @ ''}'' @ r"
    using assms(1, 3) by (simp add: entry_text_def)
  show ?thesis
    unfolding e read_entry_def
    using lua_read_bare_string [OF assms(2), of pat]
    by (simp add: read_method_table_text del: lua_read_string.simps)
qed

lemma path_char_bare: "path_char c \<Longrightarrow> bare_char c"
  using path_char_not_special [of c] by (auto simp: bare_char_def quote_char_def backslash_def)

lemma lua_texts_bare:
  "wf_toks ts \<Longrightarrow> c \<in> set (''^'' @ texts lua_text ts @ ''$'') \<Longrightarrow> bare_char c"
proof (induction ts rule: wf_toks.induct)
  case (2 d ts)
  then show ?case using set_lit_text [of d] path_char_bare [of d] by (auto simp: bare_char_def quote_char_def backslash_def)
qed (auto simp: bare_char_def quote_char_def backslash_def)

text \<open>The pattern that the converter makes of a path; for an accepted path it is that of its tokens.\<close>

definition path_pattern :: "string \<Rightarrow> string" where
  "path_pattern p = (case ConvertRequestMatcherPathToLuaPattern p of None \<Rightarrow> [] | Some pat \<Rightarrow> pat)"

lemma path_pattern_converted: "ConvertRequestMatcherPathToLuaPattern p = Some (path_pattern p)"
  using ConvertRequestMatcherPathToLuaPattern_total [of p] by (auto simp: path_pattern_def)

lemma path_pattern_accepted:
  assumes "accepted_path p"
  shows "path_pattern p = ''^'' @ texts lua_text (path_tokens p) @ ''$''"
    and "lua_string_match s (path_pattern p) = Some (path_denotes p s)"
    and "c \<in> set (path_pattern p) \<Longrightarrow> bare_char c"
  using pattern_of_accepted_path [OF assms] lua_texts_bare [OF accepted_path_tokens(1) [OF assms]]
  by (auto simp: path_pattern_def)

text \<open>The characters of any pattern: those of its path, and what the converter adds.\<close>

definition literal_breaking :: "char \<Rightarrow> bool" where
  "literal_breaking c \<longleftrightarrow> c = backslash \<or> c = CHR 0x0A \<or> c = CHR 0x0D"

lemma bare_char_iff: "bare_char c \<longleftrightarrow> c \<noteq> quote_char \<and> \<not> literal_breaking c"
  by (auto simp: bare_char_def literal_breaking_def)

lemma converter_texts:
  assumes "\<not> bare_char x"
  shows "x \<notin> set ''{}*^$.+[]/-%?()''" "x \<notin> set singleStarPlaceholder" "x \<notin> set doubleStarPlaceholder"
    "x \<notin> set (concat (map snd lua_pattern_escapes))" "map_of lua_pattern_escapes x = None"
  using assms by (auto simp: bare_char_def quote_char_def backslash_def singleStarPlaceholder_def
      doubleStarPlaceholder_def lua_pattern_escapes_def)

lemma set_ReplaceBytes_iff:
  assumes "x \<notin> set (concat (map snd tbl))" and "map_of tbl x = None"
  shows "x \<in> set (ReplaceBytes tbl s) \<longleftrightarrow> x \<in> set s"
proof (induction s)
  case (Cons c s)
  have "x \<notin> set r" if "map_of tbl c = Some r" for r
    using assms(1) map_of_SomeD [OF that] by force
  then show ?case using Cons assms(2) by (auto simp: ReplaceBytes_Cons split: option.splits)
qed simp

lemma set_path_pattern:
  assumes "\<not> bare_char x"
  shows "x \<in> set (path_pattern p) \<longleftrightarrow> x \<in> set p"
proof -
  note no = converter_texts [OF assms]
  have step: "x \<in> set (ReplaceAll old new s) \<longleftrightarrow> x \<in> set s"
    if "old \<in> {''}'', ''{'', ''*'', ''**'', singleStarPlaceholder, doubleStarPlaceholder}"
      "new \<in> {[], ''**'', singleStarPlaceholder, doubleStarPlaceholder, ''.*'', ''[^/]+''}" for old new s
  proof -
    have "x \<notin> set old" "x \<notin> set new" using that no by auto
    then show ?thesis using ReplaceAll_keeps [of x s old new] ReplaceAll_notin [of x s new old] by blast
  qed
  have "x \<in> set q \<longleftrightarrow> x \<in> set p" if "toLuaPattern p = Some q" for q
    using that by (auto simp: toLuaPattern_def escapeLuaPatternChars_def Let_def step
        set_ReplaceBytes_iff [OF no(4, 5)] split: if_splits)
  moreover obtain q where "toLuaPattern p = Some q" "path_pattern p = ''^'' @ q @ ''$''"
    using path_pattern_converted [of p] by (auto simp: ConvertRequestMatcherPathToLuaPattern_def)
  ultimately show ?thesis using no(1) by simp
qed

lemma no_brace_in_pattern: "CHR ''{'' \<notin> set (path_pattern p)"
proof -
  have "CHR ''{'' \<notin> set (ReplaceAll doubleStarPlaceholder ''.*'' (ReplaceAll singleStarPlaceholder ''[^/]+'' s))"
    if "CHR ''{'' \<notin> set s" for s
    using that by (simp add: ReplaceAll_notin)
  moreover have "CHR ''{'' \<notin> set (ReplaceBytes lua_pattern_escapes s)" if "CHR ''{'' \<notin> set s" for s
    using that by (subst set_ReplaceBytes_iff) (simp_all add: lua_pattern_escapes_def)
  moreover obtain q where q: "toLuaPattern p = Some q" "path_pattern p = ''^'' @ q @ ''$''"
    using path_pattern_converted [of p] by (auto simp: ConvertRequestMatcherPathToLuaPattern_def)
  moreover have "CHR ''{'' \<notin> set s" if "\<not> ContainsAny s ''*{}''" for s
    using that by (auto simp: ContainsAny_iff)
  ultimately have "CHR ''{'' \<notin> set q" using toLuaPattern_shape [OF q(1)] by blast
  then show ?thesis by (simp add: q(2))
qed

lemma accepted_path_bare: "accepted_path p \<Longrightarrow> c \<in> set p \<Longrightarrow> bare_char c"
  using set_path_pattern [of c p] path_pattern_accepted(3) [of p c] by blast

text \<open>A pattern with a quote ends its literal early, and what follows is no entry.\<close>

lemma read_entry_quote:
  assumes "quote_char \<in> set pat" and "\<And>c. c \<in> set pat \<Longrightarrow> \<not> literal_breaking c" and "CHR ''{'' \<notin> set pat"
    and "e = ''{regex='' @ [quote_char] @ pat @ [quote_char] @ '',methods={'' @ rest"
  shows "read_entry e = None"
proof -
  obtain a b where pat: "pat = a @ quote_char # b" "quote_char \<notin> set a"
    using split_list_first [OF assms(1)] by blast
  have bare: "bare_char c" if "c \<in> set a" for c
    using that assms(2) [of c] pat by (auto simp: bare_char_iff)
  have none: "expect '',methods={'' (b @ quote_char # r) = None" for r
  proof (cases "expect '',methods={'' (b @ quote_char # r)")
    case (Some r')
    then have "b @ quote_char # r = '',methods={'' @ r'" by (auto simp: expect_def HasPrefix_iff split: if_splits)
    then consider us where "b = '',methods={'' @ us" | us where "'',methods={'' = b @ us" "us @ r' = quote_char # r"
      unfolding append_eq_append_conv2 by metis
    then have False
    proof cases
      case (1 us)
      then show ?thesis using assms(3) pat(1) by simp
    next
      case (2 us)
      show ?thesis
      proof (cases us)
        case Nil
        then have "b = '',methods={''" using 2(1) by simp
        then show ?thesis using assms(3) pat(1) by simp
      next
        case (Cons u us')
        then have "'',methods={'' = b @ quote_char # us'" using 2 by simp
        then have "quote_char \<in> set '',methods={''" by (simp only: in_set_conv_decomp) blast
        then show ?thesis by (simp add: quote_char_def)
      qed
    qed
    then show ?thesis ..
  qed
  let ?tail = "b @ quote_char # '',methods={'' @ rest"
  have "e = (''{regex='' @ [quote_char]) @ a @ quote_char # ?tail" by (simp add: assms(4) pat(1))
  then have "expect (''{regex='' @ [quote_char]) e = Some (a @ quote_char # ?tail)" by (simp only: expect_append)
  moreover have "lua_read_string (a @ quote_char # ?tail) = Some (a, ?tail)" by (rule lua_read_bare_string [OF bare])
  ultimately show ?thesis unfolding read_entry_def by (simp only: none bind.bind_lunit bind.bind_lzero prod.case)
qed

definition breaks_out :: "(string \<times> string list) list \<Rightarrow> bool" where
  "breaks_out es \<longleftrightarrow> list_ex (\<lambda>(p, ms). quote_char \<in> set p) es"

lemma entries_text_reads:
  "es \<noteq> [] \<Longrightarrow> (\<And>p ms c. (p, ms) \<in> set es \<Longrightarrow> c \<in> set p \<Longrightarrow> \<not> literal_breaking c) \<Longrightarrow>
     \<exists>t. entries_loop True es = Some t \<and> t \<noteq> [] \<and> hd t = CHR ''{'' \<and>
       (\<forall>r. read_entries (t @ ''}'' @ r) =
          (if breaks_out es then None else Some (map (\<lambda>(p, ms). (path_pattern p, map no_nul ms)) es, r)))"
proof (induction es)
  case (Cons e es)
  obtain p ms where e: "e = (p, ms)" by (cases e)
  have safe: "\<not> literal_breaking c" if "c \<in> set (path_pattern p)" for c
    using that set_path_pattern [of c p] Cons.prems(2) [of p ms c] e by (auto simp: bare_char_iff)
  obtain t where t: "entry_text p ms = Some t"
    using path_pattern_converted [of p] by (simp add: entry_text_def)
  then have hd: "t \<noteq> []" "hd t = CHR ''{''" by (auto simp: entry_text_def)
  have read: "read_entry (t @ r) = (if quote_char \<in> set p then None else Some ((path_pattern p, map no_nul ms), r))" for r
  proof (cases "quote_char \<in> set p")
    case True
    then have "quote_char \<in> set (path_pattern p)" using set_path_pattern [of quote_char p] by (simp add: bare_char_def)
    from read_entry_quote [OF this safe no_brace_in_pattern] show ?thesis
      using t True path_pattern_converted [of p] by (auto simp: entry_text_def)
  next
    case False
    have "bare_char c" if "c \<in> set (path_pattern p)" for c
      using that safe [OF that] set_path_pattern [of c p] False by (auto simp: bare_char_iff)
    from read_entry_text [OF path_pattern_converted this t] False show ?thesis by simp
  qed
  show ?case
  proof (cases "es = []")
    case True
    then show ?thesis using t e hd read by (simp add: read_entries.simps [of "t @ _"] breaks_out_def)
  next
    case False
    with Cons obtain t' where t': "entries_loop True es = Some t'"
      "\<And>r. read_entries (t' @ ''}'' @ r) =
        (if breaks_out es then None else Some (map (\<lambda>(p, ms). (path_pattern p, map no_nul ms)) es, r))"
      by (metis list.set_intros(2))
    have "entries_loop False es = Some ('','' @ t')"
      using t'(1) False by (cases es) (auto simp: bind_eq_Some_conv split: option.splits)
    with t t'(2) e hd read show ?thesis by (simp add: read_entries.simps [of "t @ _"] breaks_out_def)
  qed
qed simp

lemma table_text_reads:
  assumes "\<And>m p c. m \<in> set ms \<Longrightarrow> p \<in> set (rm_paths m) \<Longrightarrow> c \<in> set p \<Longrightarrow> \<not> literal_breaking c"
  shows "\<exists>t. ConvertRequestMatchersToLuaTableString ms = Some t \<and>
    (\<forall>r. read_table (t @ r) = (if breaks_out (matcher_entries ms) then None
      else Some (map (\<lambda>(p, mths). (path_pattern p, map no_nul mths)) (matcher_entries ms), r)))"
proof (cases "matcher_entries ms = []")
  case True
  then show ?thesis by (simp add: ConvertRequestMatchersToLuaTableString_def read_table_def breaks_out_def)
next
  case False
  have "\<not> literal_breaking c" if "(p, mths) \<in> set (matcher_entries ms)" "c \<in> set p" for p mths c
    using that assms by (fastforce simp: matcher_entries_def)
  with entries_text_reads [OF False] obtain t where
    "entries_loop True (matcher_entries ms) = Some t" "t \<noteq> []" "hd t = CHR ''{''"
    "\<forall>r. read_entries (t @ ''}'' @ r) = (if breaks_out (matcher_entries ms) then None
       else Some (map (\<lambda>(p, ms). (path_pattern p, map no_nul ms)) (matcher_entries ms), r))"
    by blast
  then show ?thesis
    by (cases t) (auto simp: ConvertRequestMatchersToLuaTableString_def read_table_def)
qed

subsection \<open>Login parameters\<close>

lemma hex_digits_nth:
  assumes "n < 16" shows "hex_digits ! n \<in> set query_unreserved"
proof -
  have "hex_digits ! n \<in> set hex_digits" using assms by (intro nth_mem) (simp add: hex_digits_def)
  also have "set hex_digits \<subseteq> set query_unreserved"
    by (simp add: hex_digits_def query_unreserved_def ascii_alnum_def)
  finally show ?thesis .
qed

lemma set_QueryEscape: "c \<in> set (QueryEscape s) \<Longrightarrow> c \<in> set query_unreserved \<or> c = CHR ''+'' \<or> c = CHR ''%''"
proof -
  have "of_char d div 16 < (16 :: nat)" for d :: char
    using nat_of_char_less_256 [of d] by (simp add: less_mult_imp_div_less)
  then show "c \<in> set (QueryEscape s) \<Longrightarrow> ?thesis"
    using hex_digits_nth by (fastforce simp: QueryEscape_def query_byte_def split: if_splits)
qed

lemma no_nul_QueryEscape [simp]: "no_nul (QueryEscape s) = QueryEscape s"
  using set_QueryEscape [of "CHR 0x00" s] by (intro no_nul_id) (auto simp: query_unreserved_def ascii_alnum_def)

lemma read_param_text: "read_param (param_text k v @ r) = Some ((no_nul k, no_nul v), r)"
  by (simp add: read_param_def param_text_def lua_read_escaped del: lua_read_string.simps)

lemma params_loop_reads:
  "ks \<noteq> [] \<Longrightarrow>
     hd (params_loop True params ks) = CHR ''['' \<and> params_loop True params ks \<noteq> [] \<and>
     params_loop False params ks = '','' @ params_loop True params ks \<and>
     read_params (params_loop True params ks @ ''}'' @ r) =
       Some (map (\<lambda>k. (no_nul k, no_nul (map_index params k))) ks, r)"
proof (induction ks)
  case (Cons k ks)
  have head: "hd (param_text k v @ s) = CHR ''[''" "param_text k v @ s \<noteq> []" for v s
    by (simp_all add: param_text_def)
  note head' = head [of _ "[]", unfolded append_Nil2]
  show ?case
  proof (cases "ks = []")
    case True
    then show ?thesis by (simp add: read_params.simps [of "param_text k _ @ _"] read_param_text head head')
  next
    case False
    with Cons.IH show ?thesis
      by (simp add: read_params.simps [of "param_text k _ @ _"] read_param_text head head')
  qed
qed simp

lemma encodeLoginParams_lookup: "map_of (encodeLoginParams raw) k = map_option QueryEscape (map_of raw k)"
  by (induction raw) (auto simp: encodeLoginParams_def)

lemma encodeLoginParams_keys [simp]: "map fst (encodeLoginParams raw) = map fst raw"
  by (simp add: encodeLoginParams_def case_prod_unfold)

lemma encodeLoginParams_index:
  "k \<in> set (map fst raw) \<Longrightarrow> map_index (encodeLoginParams raw) k = QueryEscape (map_index raw k)"
  by (auto simp: map_index_def encodeLoginParams_lookup split: option.splits dest: weak_map_of_SomeI)

lemma login_params_read:
  "read_param_table (ConvertLoginParamsToLuaParams raw @ r) =
     Some (map (\<lambda>k. (no_nul k, QueryEscape (map_index raw k))) (sort (map fst raw)), r)"
proof (cases "raw = []")
  case True
  then show ?thesis
    by (simp add: ConvertLoginParamsToLuaParams_def encodeLoginParams_def read_param_table_def)
next
  case False
  define ks where "ks = sort (map fst raw)"
  have ks: "ks \<noteq> []" using False by (metis ks_def length_0_conv length_map length_sort)
  let ?body = "params_loop True (encodeLoginParams raw) ks"
  have whole: "ConvertLoginParamsToLuaParams raw = ''{'' @ ?body @ ''}''"
    using False by (simp add: ConvertLoginParamsToLuaParams_def Let_def ks_def) (simp add: encodeLoginParams_def)
  have vals: "map (\<lambda>k. (no_nul k, no_nul (map_index (encodeLoginParams raw) k))) ks =
      map (\<lambda>k. (no_nul k, QueryEscape (map_index raw k))) ks"
    by (rule map_cong) (auto simp: ks_def encodeLoginParams_index)
  obtain b where b: "?body = CHR ''['' # b"
    using params_loop_reads [OF ks, of "encodeLoginParams raw" r] by (cases ?body) auto
  have "read_param_table (ConvertLoginParamsToLuaParams raw @ r) = read_params (?body @ ''}'' @ r)"
    unfolding whole b by (simp add: read_param_table_def)
  then show ?thesis
    using params_loop_reads [OF ks, of "encodeLoginParams raw" r] vals by (simp add: ks_def)
qed

text \<open>The iteration order of the Go map does not reach the text.\<close>

lemma login_params_text_order:
  assumes "wf_map m" and "mset m = mset n"
  shows "ConvertLoginParamsToLuaParams m = ConvertLoginParamsToLuaParams n"
proof -
  have keys: "mset (map fst m) = mset (map fst n)" using assms(2) by (metis mset_map)
  then have sorted: "sort (map fst m) = sort (map fst n)"
    by (intro properties_for_sort) simp_all
  have "distinct (map fst n)" using assms(1) mset_eq_imp_distinct_iff [OF keys] by (simp add: wf_map_def)
  then have "map_of m = map_of n"
    using assms map_of_inject_set mset_eq_setD by (fastforce simp: wf_map_def)
  then have "map_of (encodeLoginParams m) = map_of (encodeLoginParams n)"
    by (intro ext) (simp add: encodeLoginParams_lookup)
  then have index: "map_index (encodeLoginParams m) = map_index (encodeLoginParams n)"
    by (intro ext) (simp add: map_index_def)
  have loop: "params_loop b (encodeLoginParams m) ks = params_loop b (encodeLoginParams n) ks" for b ks
    by (induction ks arbitrary: b) (simp_all add: index)
  have "encodeLoginParams m = [] \<longleftrightarrow> encodeLoginParams n = []"
    using assms(2) by (auto simp: encodeLoginParams_def)
  then show ?thesis by (simp add: ConvertLoginParamsToLuaParams_def Let_def sorted loop)
qed

section \<open>Properties\<close>

text \<open>A value escaped by \<open>EscapeLuaString\<close> and put between double quotes is one
  complete Lua string literal: reading it gives the value without its null bytes, and whatever the
  script puts behind the literal is untouched.\<close>

lemma escaped_literal_roundtrip:
  "lua_read_string (EscapeLuaString s @ quote_char # rest) = Some (no_nul s, rest)"
  by (rule lua_read_escaped)

text \<open>The login parameters are written in sorted order, so two visits of the same Go map in
  different orders give the same text, and that text reads back as the parameters with query-escaped
  values.\<close>

lemma login_params_deterministic:
  assumes "wf_map m" and "mset m = mset n"
  shows "ConvertLoginParamsToLuaParams m = ConvertLoginParamsToLuaParams n \<and>
    read_param_table (ConvertLoginParamsToLuaParams n @ rest) =
      Some (map (\<lambda>k. (no_nul k, QueryEscape (map_index n k))) (sort (map fst n)), rest)"
  using login_params_text_order [OF assms] login_params_read by simp

end
