(* ===== verification/Examples.thy ===== *)
theory Examples
  imports Scope
begin

text \<open>
  A concrete policy, with an auth rule, an ignore rule and auto login, and the scope a
  reconciliation has for it.  The witnesses of the properties evaluate on them.
\<close>

definition example_rule :: requestAuthRule where
  "example_rule = \<lparr>rm_paths = [''/api{**}''], rm_methods = [],
     rar_when = Some [\<lparr>cond_claim = ''role'', cond_values = [''admin'']\<rparr>], rar_denyRedirect = Some True\<rparr>"

definition example_ignore :: requestMatcher where
  "example_ignore = \<lparr>rm_paths = [''/public/{*}''], rm_methods = [''GET'']\<rparr>"

definition example_spec :: authPolicySpec where
  "example_spec =
     \<lparr>spec_enabled = True,
      spec_autoLogin = Some \<lparr>al_enabled = True, al_loginPath = None, al_redirectPath = None,
        al_logoutPath = None, al_postLogoutRedirectURI = None, al_scopes = [''openid''],
        al_loginParams = [(''acr'', ''high'')]\<rparr>,
      spec_oauthCredentials = Some \<lparr>oc_secretRef = ''oauth'', oc_clientSecretKey = ''secret'',
        oc_clientIDKey = ''id''\<rparr>,
      spec_wellKnownURI = ''https://idp/.well-known'',
      spec_allowedAudiences = [\<lparr>aa_value = Some ''aud'', aa_valueFrom = None\<rparr>],
      spec_forwardJwt = None, spec_outputClaimToHeaders = None, spec_acceptedResources = None,
      spec_baselineAuth = Some \<lparr>ba_claims = [\<lparr>cond_claim = ''iss'', cond_values = [''idp'']\<rparr>]\<rparr>,
      spec_authRules = Some [example_rule], spec_ignoreAuthRules = Some [example_ignore],
      spec_selector = \<lparr>ws_matchLabels = [(''app'', ''demo'')]\<rparr>\<rparr>"

definition example_policy :: authPolicy where
  "example_policy =
     \<lparr>ap_kind = ''AuthPolicy'', ap_name = ''demo'', ap_namespace = ''ns'', ap_uid = ''u1'',
      ap_generation = 1, ap_labels = [], ap_deletionTimestamp = None, ap_spec = example_spec,
      ap_status = \<lparr>st_observedGeneration = 0, st_conditions = [], st_phase = None, st_message = [],
        st_ready = False\<rparr>\<rparr>"

definition example_cfg :: autoLoginConfig where
  "example_cfg =
     \<lparr>alc_enabled = True, alc_loginPath = None, alc_redirectPath = ''/oauth2/callback'',
      alc_logoutPath = ''/logout'', alc_postLogoutRedirectURI = None, alc_scopes = [''openid''],
      alc_loginParams = [(''acr'', ''high'')], alc_luaScript = [], alc_envoySecretName = ''demo-envoy-secret''\<rparr>"

definition example_uris :: identityProviderUris where
  "example_uris =
     \<lparr>idp_issuerURI = ''https://idp'', idp_jwksURI = ''https://idp/jwks'', idp_tokenURI = ''https://idp:8443/token'',
      idp_authorizationURI = ''https://idp/authorize'', idp_endSessionURI = None\<rparr>"

definition example_scope :: "unit scope" where
  "example_scope =
     \<lparr>s_authPolicy = example_policy, s_audiences = [''aud''], s_autoLoginConfig = example_cfg,
      s_oauthCredentials = \<lparr>cr_clientID = Some ''id'', cr_clientSecret = Some ''s''\<rparr>,
      s_identityProviderUris = example_uris, s_descendants = [], s_invalidConfig = False,
      s_validationErrorMessage = None\<rparr>"

end
