(* ===== verification/Matching.thy ===== *)
theory Matching
  imports PathLanguage AuthPolicyTypes
begin

text \<open>When a request matcher of a policy applies to a request, given by its path and method.\<close>

text \<open>A request matcher on a path and a method: a denoted path, and a listed method if any is.\<close>

definition matcher_hits :: "requestMatcher \<Rightarrow> string \<Rightarrow> string \<Rightarrow> bool" where
  "matcher_hits r p m \<longleftrightarrow>
     list_ex (\<lambda>path. path_denotes path p) (rm_paths r) \<and> (rm_methods r = [] \<or> m \<in> set (rm_methods r))"

definition any_hits :: "requestMatcher list \<Rightarrow> string \<Rightarrow> string \<Rightarrow> bool" where
  "any_hits rs p m \<longleftrightarrow> list_ex (\<lambda>r. matcher_hits r p m) rs"

lemma any_hits_append [simp]: "any_hits (xs @ ys) p m \<longleftrightarrow> any_hits xs p m \<or> any_hits ys p m"
  by (simp add: any_hits_def)

lemma any_hits_iff: "any_hits rs p m \<longleftrightarrow> (\<exists>r \<in> set rs. matcher_hits r p m)"
  by (simp add: any_hits_def list_ex_iff)

end
