(* ===== verification/LuaFilter.thy ===== *)
theory LuaFilter
  imports LuaScript Examples Matching
begin

text \<open>
  The Lua filter: \<open>GenerateLuaScript\<close> (\<open>lua_script_generator.go\<close>) fills the template
  \<open>ztoperator.lua\<close> by \<open>fmt.Sprintf\<close>, and the proxy runs the result on every request.
  The theory models both ends: the text that is generated, a reader of the global variables it
  starts with, and the request handler of the script as functions of those variables.  The
  response handler, which rewrites the location of redirects, is the theory \<open>LuaResponse\<close>.
\<close>

section \<open>The text\<close>

definition BypassOauthLoginHeaderName :: string where
  "BypassOauthLoginHeaderName = ''x-bypass-login''"

definition DenyRedirectHeaderName :: string where
  "DenyRedirectHeaderName = ''x-deny-redirect''"

text \<open>
  \<open>fmt.Sprintf\<close> on string arguments, for the verbs \<open>%s\<close> and \<open>%%\<close> of the template, with
  Go's texts for missing and extra arguments.  Another verb is left as it stands.
\<close>

definition extra_text :: "string list \<Rightarrow> string" where
  "extra_text args =
     (case args of [] \<Rightarrow> []
      | a # as \<Rightarrow> ''%!(EXTRA string='' @ a @ concat (map (\<lambda>x. '', string='' @ x) as) @ '')'')"

fun Sprintf :: "string \<Rightarrow> string list \<Rightarrow> string" where
  "Sprintf [] args = extra_text args"
| "Sprintf [c] args = (if c = CHR ''%'' then ''%!(NOVERB)'' else [c]) @ extra_text args"
| "Sprintf (c # x # xs) args =
     (if c \<noteq> CHR ''%'' then c # Sprintf (x # xs) args
      else if x = CHR ''%'' then CHR ''%'' # Sprintf xs args
      else if x = CHR ''s'' then
        (case args of [] \<Rightarrow> ''%!s(MISSING)'' @ Sprintf xs []
         | a # as \<Rightarrow> a @ Sprintf xs as)
      else c # x # Sprintf xs args)"

text \<open>The template, line by line: the global variables, and the functions.\<close>

definition template_globals :: "string list" where
  "template_globals =
    [''local ignore_rules = %s'',
     ''local require_rules = %s'',
     ''local deny_redirect_rules = %s'',
     ''local authorize_endpoint = '' @ [quote_char] @ ''%s'' @ [quote_char],
     ''local login_params = %s'',
     ''local end_session_endpoint = '' @ [quote_char] @ ''%s'' @ [quote_char],
     ''local post_logout_redirect_uri = '' @ [quote_char] @ ''%s'' @ [quote_char]]"

definition template_functions :: "string list" where
  "template_functions =
    [[],
     ''-- returns true when {p,m} matches any rule in the supplied table'',
     ''local function match(rules, p, m)'',
     ''    for _, rule in ipairs(rules) do'',
     ''        if string.match(p, rule.regex) then'',
     ''        -- empty '' @ [quote_char] @ ''methods'' @ [quote_char] @ '' table == all methods'',
     ''            if next(rule.methods) == nil or rule.methods[m] then'',
     ''                return true'',
     ''            end'',
     ''        end'',
     ''    end'',
     ''    return false'',
     ''end'',
     [],
     ''-- returns true if {p,m} is in ignore_rules *and* NOT in require_rules'',
     ''local function should_bypass(p, m)'',
     ''    local bypass = false'',
     ''    if p ~= '' @ [quote_char] @ [quote_char] @ '' and m ~= '' @ [quote_char] @ [quote_char] @ '' then'',
     ''        -- bypass only when it is in ignore_rules *and* NOT in require_rules'',
     ''        if match(ignore_rules, p, m) and not match(require_rules, p, m) then'',
     ''            bypass = true'',
     ''        end'',
     ''    end'',
     ''    return bypass'',
     ''end'',
     [],
     ''-- returns true if {p,m} is in deny_redirect_rules'',
     ''local function should_deny_redirect(p, m)'',
     ''    local deny_redirect = false'',
     ''    if p ~= '' @ [quote_char] @ [quote_char] @ '' and m ~= '' @ [quote_char] @ [quote_char] @ '' then'',
     ''        -- deny redirect only when it is in deny_redirect_rules'',
     ''        if match(deny_redirect_rules, p, m) then'',
     ''            deny_redirect = true'',
     ''        end'',
     ''    end'',
     ''    return deny_redirect'',
     ''end'',
     [],
     ''local function is_empty_table(t)'',
     ''    return type(t) ~= '' @ [quote_char] @ ''table'' @ [quote_char] @ '' or next(t) == nil'',
     ''end'',
     [],
     ''function envoy_on_request(request_handle)'',
     ''    local raw_p = request_handle:headers():get('' @ [quote_char] @ '':path'' @ [quote_char] @ '') or '' @ [quote_char] @ [quote_char],
     ''    local m = request_handle:headers():get('' @ [quote_char] @ '':method'' @ [quote_char] @ '') or '' @ [quote_char] @ [quote_char],
     ''    local p = string.match(raw_p, '' @ [quote_char] @ ''^[^?]*'' @ [quote_char] @ '')'',
     [],
     ''    local bypass = should_bypass(p, m)'',
     ''    request_handle:logCritical('' @ [quote_char] @ ''Login bypassed?: '' @ [quote_char] @ '' .. tostring(bypass))'',
     ''    request_handle:headers():add('' @ [quote_char] @ ''%s'' @ [quote_char] @ '', tostring(bypass))'',
     [],
     ''    local deny_redirect = should_deny_redirect(p, m)'',
     ''    request_handle:logCritical('' @ [quote_char] @ ''Deny redirect?: '' @ [quote_char] @ '' .. tostring(deny_redirect))'',
     ''    request_handle:headers():add('' @ [quote_char] @ ''%s'' @ [quote_char] @ '', tostring(deny_redirect))'',
     ''end'',
     [],
     ''function envoy_on_response(response_handle)'',
     ''    local status = response_handle:headers():get('' @ [quote_char] @ '':status'' @ [quote_char] @ '') or '' @ [quote_char] @ [quote_char],
     ''    if status == '' @ [quote_char] @ ''302'' @ [quote_char] @ '' then'',
     ''        local loc = response_handle:headers():get('' @ [quote_char] @ ''location'' @ [quote_char] @ '') or '' @ [quote_char] @ [quote_char],
     ''        if loc ~= '' @ [quote_char] @ [quote_char] @ '' then'',
     ''            if string.sub(loc, 1, #authorize_endpoint) == authorize_endpoint and not is_empty_table(login_params) then'',
     ''                local base, qs = loc:match('' @ [quote_char] @ ''^([^?]+)%%??(.*)$'' @ [quote_char] @ '')'',
     ''                local filtered = {}'',
     ''                if qs ~= '' @ [quote_char] @ [quote_char] @ '' then'',
     ''                    local params = {}'',
     ''                    for key, val in string.gmatch(qs, '' @ [quote_char] @ ''([^&=?]+)=([^&=?]+)'' @ [quote_char] @ '') do'',
     ''                        params[key] = val'',
     ''                    end'',
     ''                    for k, v in pairs(login_params) do'',
     ''                        params[k] = v'',
     ''                    end'',
     ''                    for k, v in pairs(params) do'',
     ''                        table.insert(filtered, k .. '' @ [quote_char] @ ''='' @ [quote_char] @ '' .. v)'',
     ''                    end'',
     ''                end'',
     [],
     ''                local new_qs = table.concat(filtered, '' @ [quote_char] @ ''&'' @ [quote_char] @ '')'',
     ''                local new_url = base .. (new_qs ~= '' @ [quote_char] @ [quote_char] @ '' and ('' @ [quote_char] @ ''?'' @ [quote_char] @ '' .. new_qs) or '' @ [quote_char] @ [quote_char] @ '')'',
     ''                response_handle:headers():replace('' @ [quote_char] @ ''location'' @ [quote_char] @ '', new_url)'',
     ''            end'',
     [],
     ''            if string.sub(loc, 1, #end_session_endpoint) == end_session_endpoint then'',
     ''                local base, qs = loc:match('' @ [quote_char] @ ''^([^?]+)%%??(.*)$'' @ [quote_char] @ '')'',
     ''                local filtered = {}'',
     ''                if qs ~= '' @ [quote_char] @ [quote_char] @ '' then'',
     ''                    local params = {}'',
     ''                    for key, val in string.gmatch(qs, '' @ [quote_char] @ ''([^&=?]+)=([^&=?]+)'' @ [quote_char] @ '') do'',
     ''                        params[key] = val'',
     ''                    end'',
     ''                    if post_logout_redirect_uri == '' @ [quote_char] @ [quote_char] @ '' then'',
     ''                        params['' @ [quote_char] @ ''post_logout_redirect_uri'' @ [quote_char] @ ''] = nil'',
     ''                    else'',
     ''                        params['' @ [quote_char] @ ''post_logout_redirect_uri'' @ [quote_char] @ ''] = post_logout_redirect_uri'',
     ''                    end'',
     ''                    for k, v in pairs(params) do'',
     ''                        table.insert(filtered, k .. '' @ [quote_char] @ ''='' @ [quote_char] @ '' .. v)'',
     ''                    end'',
     ''                end'',
     [],
     ''                local new_qs = table.concat(filtered, '' @ [quote_char] @ ''&'' @ [quote_char] @ '')'',
     ''                local new_url = base .. (new_qs ~= '' @ [quote_char] @ [quote_char] @ '' and ('' @ [quote_char] @ ''?'' @ [quote_char] @ '' .. new_qs) or '' @ [quote_char] @ [quote_char] @ '')'',
     ''                response_handle:headers():replace('' @ [quote_char] @ ''location'' @ [quote_char] @ '', new_url)'',
     ''            end'',
     ''        end'',
     ''    end'',
     ''end'']"

definition luaScriptTemplate :: string where
  "luaScriptTemplate = JoinByte (CHR 0x0A) (template_globals @ template_functions)"

definition GenerateLuaScript ::
  "authPolicy \<Rightarrow> autoLoginConfig \<Rightarrow> identityProviderUris \<Rightarrow> string option" where
  "GenerateLuaScript ap cfg uris =
     Option.bind (ConvertRequestMatchersToLuaTableString
       (IgnoreAuthMatchers (spec_ignoreAuthRules (ap_spec ap)))) (\<lambda>ignoreRulesLua.
     Option.bind (ConvertRequestMatchersToLuaTableString
       (RequireAuthMatchers (spec_authRules (ap_spec ap)) cfg)) (\<lambda>requireRulesLua.
     Option.bind (ConvertRequestMatchersToLuaTableString
       (DenyRedirectMatchers (spec_authRules (ap_spec ap)))) (\<lambda>denyRedirectRulesLua.
     let loginParamsAsLua = ConvertLoginParamsToLuaParams (alc_loginParams cfg);
         postLogout = (case alc_postLogoutRedirectURI cfg of None \<Rightarrow> [] | Some u \<Rightarrow> QueryEscape u);
         endSessionURI = (case idp_endSessionURI uris of None \<Rightarrow> [] | Some u \<Rightarrow> u)
     in Some (Sprintf luaScriptTemplate
          [ignoreRulesLua, requireRulesLua, denyRedirectRulesLua,
           EscapeLuaString (idp_authorizationURI uris), loginParamsAsLua,
           EscapeLuaString endSessionURI, EscapeLuaString postLogout,
           BypassOauthLoginHeaderName, DenyRedirectHeaderName]))))"

section \<open>The script\<close>

text \<open>The global variables and the reader of their definitions.\<close>

record lua_globals =
  g_ignore_rules :: "(string \<times> string list) list"
  g_require_rules :: "(string \<times> string list) list"
  g_deny_redirect_rules :: "(string \<times> string list) list"
  g_authorize_endpoint :: string
  g_login_params :: labels
  g_end_session_endpoint :: string
  g_post_logout_redirect_uri :: string

definition read_global :: "string \<Rightarrow> (string \<Rightarrow> ('a \<times> string) option) \<Rightarrow> string \<Rightarrow> ('a \<times> string) option" where
  "read_global name reader s =
     Option.bind (expect (''local '' @ name @ '' = '') s) (\<lambda>r1.
     Option.bind (reader r1) (\<lambda>(v, r2).
     Option.bind (expect [CHR 0x0A] r2) (\<lambda>r3. Some (v, r3))))"

definition read_literal :: "string \<Rightarrow> (string \<times> string) option" where
  "read_literal s = Option.bind (expect [quote_char] s) lua_read_string"

definition read_globals :: "string \<Rightarrow> lua_globals option" where
  "read_globals s =
     Option.bind (read_global ''ignore_rules'' read_table s) (\<lambda>(ir, s1).
     Option.bind (read_global ''require_rules'' read_table s1) (\<lambda>(rr, s2).
     Option.bind (read_global ''deny_redirect_rules'' read_table s2) (\<lambda>(dr, s3).
     Option.bind (read_global ''authorize_endpoint'' read_literal s3) (\<lambda>(ae, s4).
     Option.bind (read_global ''login_params'' read_param_table s4) (\<lambda>(lp, s5).
     Option.bind (read_global ''end_session_endpoint'' read_literal s5) (\<lambda>(es, s6).
     Option.bind (read_global ''post_logout_redirect_uri'' read_literal s6) (\<lambda>(pl, _).
       Some \<lparr>g_ignore_rules = ir, g_require_rules = rr, g_deny_redirect_rules = dr,
             g_authorize_endpoint = ae, g_login_params = lp, g_end_session_endpoint = es,
             g_post_logout_redirect_uri = pl\<rparr>)))))))"

text \<open>
  The request functions. A rule whose pattern is outside the modelled part of Lua patterns gives
  \<open>None\<close>; the rule table maps methods to true, so that an empty list allows every method.
\<close>

fun lua_match :: "(string \<times> string list) list \<Rightarrow> string \<Rightarrow> string \<Rightarrow> bool option" where
  "lua_match [] p m = Some False"
| "lua_match ((regex, methods) # rules) p m =
     Option.bind (lua_string_match p regex) (\<lambda>hit.
       if hit \<and> (methods = [] \<or> m \<in> set methods) then Some True else lua_match rules p m)"

definition should_bypass :: "lua_globals \<Rightarrow> string \<Rightarrow> string \<Rightarrow> bool option" where
  "should_bypass g p m =
     (if p \<noteq> [] \<and> m \<noteq> []
      then Option.bind (lua_match (g_ignore_rules g) p m) (\<lambda>ignored.
             if ignored then map_option Not (lua_match (g_require_rules g) p m) else Some False)
      else Some False)"

definition should_deny_redirect :: "lua_globals \<Rightarrow> string \<Rightarrow> string \<Rightarrow> bool option" where
  "should_deny_redirect g p m =
     (if p \<noteq> [] \<and> m \<noteq> [] then lua_match (g_deny_redirect_rules g) p m else Some False)"

definition tostring :: "bool \<Rightarrow> string" where
  "tostring b = (if b then ''true'' else ''false'')"

text \<open>The headers the request handler adds, given the pseudo headers of the request.\<close>

definition strip_query :: "string \<Rightarrow> string" where
  "strip_query raw_p = takeWhile (\<lambda>c. c \<noteq> CHR ''?'') raw_p"

definition envoy_on_request :: "lua_globals \<Rightarrow> string option \<Rightarrow> string option \<Rightarrow> labels option" where
  "envoy_on_request g path_header method_header =
     (let raw_p = (case path_header of None \<Rightarrow> [] | Some x \<Rightarrow> x);
          m = (case method_header of None \<Rightarrow> [] | Some x \<Rightarrow> x);
          p = strip_query raw_p
      in Option.bind (should_bypass g p m) (\<lambda>bypass.
         Option.bind (should_deny_redirect g p m) (\<lambda>deny_redirect.
           Some [(BypassOauthLoginHeaderName, tostring bypass),
                 (DenyRedirectHeaderName, tostring deny_redirect)])))"

section \<open>What the script decides\<close>

definition table_of :: "requestMatcher list \<Rightarrow> (string \<times> string list) list" where
  "table_of ms = map (\<lambda>(p, mths). (path_pattern p, map no_nul mths)) (matcher_entries ms)"

definition matchers_accepted :: "requestMatcher list \<Rightarrow> bool" where
  "matchers_accepted ms \<longleftrightarrow> (\<forall>m \<in> set ms. \<forall>p \<in> set (rm_paths m). accepted_path p)"

lemma matchers_acceptedD:
  "matchers_accepted ms \<Longrightarrow> m \<in> set ms \<Longrightarrow> p \<in> set (rm_paths m) \<Longrightarrow> accepted_path p"
  by (auto simp: matchers_accepted_def)

definition methods_clean :: "requestMatcher list \<Rightarrow> bool" where
  "methods_clean ms \<longleftrightarrow> list_all (\<lambda>m. list_all (\<lambda>x. CHR 0x00 \<notin> set x) (rm_methods m)) ms"

lemma crd_matcher_clean: "list_all crd_matcher_ok ms \<Longrightarrow> methods_clean ms"
proof -
  have "list_all (\<lambda>x. CHR 0x00 \<notin> set x) GetAcceptedHTTPMethods" by (simp add: GetAcceptedHTTPMethods_def)
  then show "list_all crd_matcher_ok ms \<Longrightarrow> methods_clean ms"
    unfolding methods_clean_def crd_matcher_ok_def list_all_iff by blast
qed

lemma lua_match_rules:
  "(\<And>path mths. (path, mths) \<in> set es \<Longrightarrow> accepted_path path) \<Longrightarrow>
   lua_match (map (\<lambda>(path, mths). (path_pattern path, f mths)) es) p m =
     Some (list_ex (\<lambda>(path, mths). path_denotes path p \<and> (f mths = [] \<or> m \<in> set (f mths))) es)"
proof (induction es)
  case (Cons e es)
  then show ?case by (cases e) (fastforce simp: path_pattern_accepted(2))
qed simp

lemma lua_match_table:
  assumes "matchers_accepted ms" and "methods_clean ms"
  shows "lua_match (table_of ms) p m = Some (any_hits ms p m)"
proof -
  have "no_nul x = x" if "r \<in> set ms" "x \<in> set (rm_methods r)" for r x
    using assms(2) that by (intro no_nul_id) (auto simp: methods_clean_def list_all_iff)
  then have clean: "map no_nul (rm_methods r) = rm_methods r" if "r \<in> set ms" for r
    using that by (simp add: map_idI)
  have "lua_match (table_of ms) p m = Some (list_ex (\<lambda>(path, mths). path_denotes path p \<and>
      (map no_nul mths = [] \<or> m \<in> set (map no_nul mths))) (matcher_entries ms))"
    unfolding table_of_def using matchers_acceptedD [OF assms(1)]
    by (intro lua_match_rules) (auto simp: matcher_entries_def)
  also have "list_ex (\<lambda>(path, mths). path_denotes path p \<and>
      (map no_nul mths = [] \<or> m \<in> set (map no_nul mths))) (matcher_entries ms) \<longleftrightarrow>
      (\<exists>r \<in> set ms. \<exists>path \<in> set (rm_paths r). path_denotes path p \<and>
        (map no_nul (rm_methods r) = [] \<or> m \<in> set (map no_nul (rm_methods r))))"
    by (fastforce simp: list_ex_iff matcher_entries_def)
  also have "\<dots> \<longleftrightarrow> any_hits ms p m"
    by (simp add: any_hits_def matcher_hits_def list_ex_iff clean del: set_map cong: bex_cong)
  finally show ?thesis .
qed

section \<open>Reading the generated script\<close>

lemma Sprintf_plain: "CHR ''%'' \<notin> set s \<Longrightarrow> Sprintf (s @ t) args = s @ Sprintf t args"
proof (induction s)
  case (Cons c s)
  then show ?case by (cases "s @ t") auto
qed simp

lemma Sprintf_char: "c \<noteq> CHR ''%'' \<Longrightarrow> Sprintf (c # s) args = c # Sprintf s args"
  using Sprintf_plain [of "[c]" s args] by simp

lemma Sprintf_s: "Sprintf (CHR ''%'' # CHR ''s'' # t) (a # as) = a @ Sprintf t as"
  by simp

lemma read_global_text:
  assumes "reader (v_text @ CHR 0x0A # r) = Some (v, CHR 0x0A # r)"
  shows "read_global name reader (''local '' @ name @ '' = '' @ v_text @ CHR 0x0A # r) = Some (v, r)"
proof -
  have "expect (''local '' @ name @ '' = '') ((''local '' @ name @ '' = '') @ v_text @ CHR 0x0A # r) =
      Some (v_text @ CHR 0x0A # r)" by (rule expect_append)
  then show ?thesis using assms by (simp add: read_global_def)
qed

lemma read_literal_text:
  "read_literal (quote_char # EscapeLuaString s @ quote_char # r) = Some (no_nul s, r)"
  by (simp add: read_literal_def lua_read_escaped del: lua_read_string.simps)

lemma template_functions_not_Nil: "template_functions \<noteq> []"
  by (simp add: template_functions_def)

text \<open>The head of the script, with its arguments in place.\<close>

definition global_line :: "string \<Rightarrow> string \<Rightarrow> string" where
  "global_line name v = ''local '' @ name @ '' = '' @ v @ [CHR 0x0A]"

definition literal :: "string \<Rightarrow> string" where
  "literal s = [quote_char] @ EscapeLuaString s @ [quote_char]"

lemma Sprintf_template:
  "Sprintf luaScriptTemplate [a1, a2, a3, EscapeLuaString a4, a5, EscapeLuaString a6, EscapeLuaString a7, a8, a9] =
     global_line ''ignore_rules'' a1 @ global_line ''require_rules'' a2 @
     global_line ''deny_redirect_rules'' a3 @ global_line ''authorize_endpoint'' (literal a4) @
     global_line ''login_params'' a5 @ global_line ''end_session_endpoint'' (literal a6) @
     global_line ''post_logout_redirect_uri'' (literal a7) @
     Sprintf (JoinByte (CHR 0x0A) template_functions) [a8, a9]"
proof -
  let ?F = "JoinByte (CHR 0x0A) template_functions"
  have template: "luaScriptTemplate =
      ''local ignore_rules = '' @ ''%s'' @ [CHR 0x0A] @
      ''local require_rules = '' @ ''%s'' @ [CHR 0x0A] @
      ''local deny_redirect_rules = '' @ ''%s'' @ [CHR 0x0A] @
      (''local authorize_endpoint = '' @ [quote_char]) @ ''%s'' @ [quote_char, CHR 0x0A] @
      ''local login_params = '' @ ''%s'' @ [CHR 0x0A] @
      (''local end_session_endpoint = '' @ [quote_char]) @ ''%s'' @ [quote_char, CHR 0x0A] @
      (''local post_logout_redirect_uri = '' @ [quote_char]) @ ''%s'' @ [quote_char, CHR 0x0A] @ ?F"
    using template_functions_not_Nil
    by (simp add: luaScriptTemplate_def template_globals_def JoinByte_Cons)
  show ?thesis
    unfolding template by (simp add: global_line_def literal_def quote_char_def Sprintf_char)
qed

lemma read_global_line:
  assumes "\<And>r. reader (v_text @ r) = Some (v, r)"
  shows "read_global name reader (global_line name v_text @ s) = Some (v, s)"
  using read_global_text [of reader v_text s v name] assms [of "CHR 0x0A # s"]
  by (simp add: global_line_def)

lemma read_global_none:
  assumes "reader (v_text @ [CHR 0x0A] @ s) = None"
  shows "read_global name reader (global_line name v_text @ s) = None"
proof -
  have "global_line name v_text @ s = (''local '' @ name @ '' = '') @ v_text @ [CHR 0x0A] @ s"
    by (simp add: global_line_def)
  then have "expect (''local '' @ name @ '' = '') (global_line name v_text @ s) = Some (v_text @ [CHR 0x0A] @ s)"
    by (simp only: expect_append)
  then show ?thesis unfolding read_global_def using assms by (simp only: bind.bind_lunit bind.bind_lzero)
qed

lemma read_literal_line: "read_literal (literal s @ r) = Some (no_nul s, r)"
  using read_literal_text [of s r] by (simp add: literal_def)

text \<open>The matchers of a policy whose paths all passed the validator.\<close>

definition login_paths :: "autoLoginConfig \<Rightarrow> string list" where
  "login_paths cfg = [alc_redirectPath cfg, alc_logoutPath cfg] @
     (case alc_loginPath cfg of None \<Rightarrow> [] | Some p \<Rightarrow> [p])"

lemma policy_matchers_accepted:
  assumes "\<forall>p \<in> set (GetPaths ap). accepted_path p"
  shows "matchers_accepted (IgnoreAuthMatchers (spec_ignoreAuthRules (ap_spec ap)))"
    and "matchers_accepted (DenyRedirectMatchers (spec_authRules (ap_spec ap)))"
    and "(\<forall>p \<in> set (login_paths cfg). accepted_path p) \<Longrightarrow>
      matchers_accepted (RequireAuthMatchers (spec_authRules (ap_spec ap)) cfg)"
  using assms
  by (cases "spec_authRules (ap_spec ap)"; cases "spec_ignoreAuthRules (ap_spec ap)"; cases "alc_loginPath cfg";
      auto simp: matchers_accepted_def set_GetPaths IgnoreAuthMatchers_def DenyRedirectMatchers_def
      RequireAuthMatchers_def login_paths_def GetRequestMatchers_def GetIgnoreAuthRequestMatchers_def
      auth_rules_def)+

definition script_globals :: "authPolicy \<Rightarrow> autoLoginConfig \<Rightarrow> identityProviderUris \<Rightarrow> lua_globals" where
  "script_globals ap cfg uris =
     \<lparr>g_ignore_rules = table_of (IgnoreAuthMatchers (spec_ignoreAuthRules (ap_spec ap))),
      g_require_rules = table_of (RequireAuthMatchers (spec_authRules (ap_spec ap)) cfg),
      g_deny_redirect_rules = table_of (DenyRedirectMatchers (spec_authRules (ap_spec ap))),
      g_authorize_endpoint = no_nul (idp_authorizationURI uris),
      g_login_params = map (\<lambda>k. (no_nul k, QueryEscape (map_index (alc_loginParams cfg) k)))
        (sort (map fst (alc_loginParams cfg))),
      g_end_session_endpoint = no_nul (case idp_endSessionURI uris of None \<Rightarrow> [] | Some u \<Rightarrow> u),
      g_post_logout_redirect_uri =
        (case alc_postLogoutRedirectURI cfg of None \<Rightarrow> [] | Some u \<Rightarrow> QueryEscape u)\<rparr>"

text \<open>Login paths without backslash and line break: only a double quote can break the script.\<close>

definition login_paths_safe :: "autoLoginConfig \<Rightarrow> bool" where
  "login_paths_safe cfg \<longleftrightarrow> list_all (\<lambda>p. list_all (\<lambda>c. \<not> literal_breaking c) p) (login_paths cfg)"

definition login_path_quoted :: "autoLoginConfig \<Rightarrow> bool" where
  "login_path_quoted cfg \<longleftrightarrow> list_ex (\<lambda>p. quote_char \<in> set p) (login_paths cfg)"

lemma accepted_table_reads:
  assumes "matchers_accepted ms"
  shows "\<exists>t. ConvertRequestMatchersToLuaTableString ms = Some t \<and> (\<forall>r. read_table (t @ r) = Some (table_of ms, r))"
proof -
  have bare: "bare_char c" if "m \<in> set ms" "p \<in> set (rm_paths m)" "c \<in> set p" for m p c
    using accepted_path_bare [OF matchers_acceptedD [OF assms that(1, 2)] that(3)] .
  then have "\<not> breaks_out (matcher_entries ms)"
    by (fastforce simp: breaks_out_def list_ex_iff matcher_entries_def bare_char_iff)
  moreover have "\<exists>t. ConvertRequestMatchersToLuaTableString ms = Some t \<and>
      (\<forall>r. read_table (t @ r) = (if breaks_out (matcher_entries ms) then None
        else Some (map (\<lambda>(p, mths). (path_pattern p, map no_nul mths)) (matcher_entries ms), r)))"
    by (rule table_text_reads) (use bare in \<open>auto simp: bare_char_iff\<close>)
  ultimately show ?thesis by (simp add: table_of_def)
qed

lemma require_table_reads:
  assumes "\<forall>p \<in> set (GetPaths ap). accepted_path p" and "login_paths_safe cfg"
  defines "ms \<equiv> RequireAuthMatchers (spec_authRules (ap_spec ap)) cfg"
  shows "\<exists>t. ConvertRequestMatchersToLuaTableString ms = Some t \<and>
    (\<forall>r. read_table (t @ r) = (if login_path_quoted cfg then None else Some (table_of ms, r)))"
proof -
  have rules: "bare_char c" if "m \<in> set (GetRequestMatchers (spec_authRules (ap_spec ap)))" "p \<in> set (rm_paths m)" "c \<in> set p" for m p c
  proof -
    have "p \<in> set (GetPaths ap)"
      using that(1, 2) by (auto simp: set_GetPaths GetRequestMatchers_def auth_rules_def split: option.splits)
    then show ?thesis using accepted_path_bare assms(1) that(3) by blast
  qed
  have entries: "matcher_entries ms = matcher_entries (GetRequestMatchers (spec_authRules (ap_spec ap))) @
      map (\<lambda>p. (p, [])) (login_paths cfg)"
    by (simp add: ms_def RequireAuthMatchers_def matcher_entries_def login_paths_def split: option.splits)
  have "\<not> breaks_out (matcher_entries (GetRequestMatchers (spec_authRules (ap_spec ap))))"
    using rules by (fastforce simp: breaks_out_def list_ex_iff matcher_entries_def bare_char_iff)
  then have quoted: "breaks_out (matcher_entries ms) \<longleftrightarrow> login_path_quoted cfg"
    unfolding entries breaks_out_def login_path_quoted_def list_ex_iff set_append by force
  have safe: "\<not> literal_breaking c" if "m \<in> set ms" "p \<in> set (rm_paths m)" "c \<in> set p" for m p c
  proof (cases "m \<in> set (GetRequestMatchers (spec_authRules (ap_spec ap)))")
    case True
    then show ?thesis using rules [OF True that(2, 3)] by (simp add: bare_char_iff)
  next
    case False
    then have "p \<in> set (login_paths cfg)"
      using that(1, 2) by (auto simp: ms_def RequireAuthMatchers_def login_paths_def)
    then show ?thesis using assms(2) that(3) by (auto simp: login_paths_safe_def list_all_iff)
  qed
  show ?thesis unfolding table_of_def quoted [symmetric] by (rule table_text_reads) (rule safe)
qed

lemma any_script_reads:
  assumes "\<forall>p \<in> set (GetPaths ap). accepted_path p" and "login_paths_safe cfg"
  shows "\<exists>t. GenerateLuaScript ap cfg uris = Some t \<and>
    read_globals t = (if login_path_quoted cfg then None else Some (script_globals ap cfg uris))"
proof -
  note acc = policy_matchers_accepted [OF assms(1)]
  obtain ti where ti: "ConvertRequestMatchersToLuaTableString
      (IgnoreAuthMatchers (spec_ignoreAuthRules (ap_spec ap))) = Some ti"
    "\<And>r. read_table (ti @ r) = Some (table_of (IgnoreAuthMatchers (spec_ignoreAuthRules (ap_spec ap))), r)"
    using accepted_table_reads [OF acc(1)] by blast
  obtain tr where tr: "ConvertRequestMatchersToLuaTableString
      (RequireAuthMatchers (spec_authRules (ap_spec ap)) cfg) = Some tr"
    "\<And>r. read_table (tr @ r) = (if login_path_quoted cfg then None
       else Some (table_of (RequireAuthMatchers (spec_authRules (ap_spec ap)) cfg), r))"
    using require_table_reads [OF assms] by blast
  obtain td where td: "ConvertRequestMatchersToLuaTableString
      (DenyRedirectMatchers (spec_authRules (ap_spec ap))) = Some td"
    "\<And>r. read_table (td @ r) = Some (table_of (DenyRedirectMatchers (spec_authRules (ap_spec ap))), r)"
    using accepted_table_reads [OF acc(2)] by blast
  have nul: "no_nul (case alc_postLogoutRedirectURI cfg of None \<Rightarrow> [] | Some u \<Rightarrow> QueryEscape u) =
      (case alc_postLogoutRedirectURI cfg of None \<Rightarrow> [] | Some u \<Rightarrow> QueryEscape u)"
    by (simp add: no_nul_def [of "[]"] split: option.splits)
  note lines = read_global_line [of read_table ti, OF ti(2)] read_global_line [of read_table td, OF td(2)]
    read_global_line [of read_literal, OF read_literal_line]
    read_global_line [of read_param_table, OF login_params_read]
  show ?thesis
  proof (cases "login_path_quoted cfg")
    case True
    then have "read_global name read_table (global_line name tr @ s) = None" for name s
      using tr(2) by (intro read_global_none) simp
    then show ?thesis
      unfolding GenerateLuaScript_def ti(1) tr(1) td(1) Let_def bind.bind_lunit Sprintf_template
      using True by (simp add: read_globals_def lines)
  next
    case False
    then have "read_table (tr @ r) = Some (table_of (RequireAuthMatchers (spec_authRules (ap_spec ap)) cfg), r)" for r
      using tr(2) by simp
    note line = read_global_line [of read_table tr, OF this]
    show ?thesis
      unfolding GenerateLuaScript_def ti(1) tr(1) td(1) Let_def bind.bind_lunit Sprintf_template
      using False by (simp add: read_globals_def lines line script_globals_def nul)
  qed
qed

lemma generated_script_reads:
  assumes "\<forall>p \<in> set (GetPaths ap). accepted_path p" and "\<forall>p \<in> set (login_paths cfg). accepted_path p"
  shows "\<exists>t. GenerateLuaScript ap cfg uris = Some t \<and> read_globals t = Some (script_globals ap cfg uris)"
proof -
  have "\<forall>p \<in> set (login_paths cfg). \<forall>c \<in> set p. bare_char c" using accepted_path_bare assms(2) by blast
  then have "login_paths_safe cfg" "\<not> login_path_quoted cfg"
    by (auto simp: login_paths_safe_def login_path_quoted_def list_all_iff list_ex_iff bare_char_iff)
  then show ?thesis using any_script_reads [OF assms(1), of cfg uris] by simp
qed

text \<open>The decisions of the script that was read.\<close>

lemma script_matches:
  assumes paths: "\<forall>p \<in> set (GetPaths ap). accepted_path p"
    and login: "\<forall>p \<in> set (login_paths cfg). accepted_path p"
    and crd: "crd_admitted (ap_spec ap)"
    and g: "g = script_globals ap cfg uris"
  shows "lua_match (g_ignore_rules g) p m =
      Some (any_hits (IgnoreAuthMatchers (spec_ignoreAuthRules (ap_spec ap))) p m)"
    and "lua_match (g_require_rules g) p m =
      Some (any_hits (RequireAuthMatchers (spec_authRules (ap_spec ap)) cfg) p m)"
    and "lua_match (g_deny_redirect_rules g) p m =
      Some (any_hits (DenyRedirectMatchers (spec_authRules (ap_spec ap))) p m)"
proof -
  let ?ig = "IgnoreAuthMatchers (spec_ignoreAuthRules (ap_spec ap))"
  let ?rq = "RequireAuthMatchers (spec_authRules (ap_spec ap)) cfg"
  let ?dr = "DenyRedirectMatchers (spec_authRules (ap_spec ap))"
  note acc = policy_matchers_accepted [OF paths]
  have rules: "list_all crd_matcher_ok ?ig" "list_all crd_matcher_ok ?dr"
    "list_all crd_matcher_ok (GetRequestMatchers (spec_authRules (ap_spec ap)))"
    using crd
    by (auto simp: crd_admitted_def IgnoreAuthMatchers_def DenyRedirectMatchers_def GetRequestMatchers_def
        list_all_iff split: option.splits)
  have clean_rq: "methods_clean ?rq"
    using crd_matcher_clean [OF rules(3)] by (simp add: methods_clean_def RequireAuthMatchers_def)
  have globals: "g_ignore_rules g = table_of ?ig" "g_require_rules g = table_of ?rq"
    "g_deny_redirect_rules g = table_of ?dr"
    by (simp_all add: g script_globals_def)
  show "lua_match (g_ignore_rules g) p m = Some (any_hits ?ig p m)"
    using lua_match_table [OF acc(1) crd_matcher_clean [OF rules(1)]] by (simp add: globals)
  show "lua_match (g_require_rules g) p m = Some (any_hits ?rq p m)"
    using lua_match_table [OF acc(3) [OF login] clean_rq] by (simp add: globals)
  show "lua_match (g_deny_redirect_rules g) p m = Some (any_hits ?dr p m)"
    using lua_match_table [OF acc(2) crd_matcher_clean [OF rules(2)]] by (simp add: globals)
qed

lemma ignore_hits:
  "any_hits (IgnoreAuthMatchers (spec_ignoreAuthRules (ap_spec ap))) p m \<longleftrightarrow>
     any_hits (GetIgnoreAuthRequestMatchers ap) p m"
  by (simp add: IgnoreAuthMatchers_def GetIgnoreAuthRequestMatchers_def)

lemma require_hits:
  "any_hits (RequireAuthMatchers (spec_authRules (ap_spec ap)) cfg) p m \<longleftrightarrow>
     any_hits (GetRequireAuthRequestMatchers ap) p m \<or> list_ex (\<lambda>path. path_denotes path p) (login_paths cfg)"
  by (auto simp: any_hits_def RequireAuthMatchers_def matcher_hits_def login_paths_def
      GetRequireAuthRequestMatchers_def GetRequestMatchers_def split: option.splits)

lemma deny_redirect_hits:
  "any_hits (DenyRedirectMatchers (spec_authRules (ap_spec ap))) p m \<longleftrightarrow>
     list_ex (\<lambda>r. rar_denyRedirect r = Some True \<and> matcher_hits (requestMatcher.truncate r) p m) (auth_rules ap)"
  by (auto simp: any_hits_def DenyRedirectMatchers_def auth_rules_def list_ex_iff split: option.splits)

lemma script_decisions:
  assumes "\<forall>p \<in> set (GetPaths ap). accepted_path p" and "\<forall>p \<in> set (login_paths cfg). accepted_path p"
    and "crd_admitted (ap_spec ap)" and "g = script_globals ap cfg uris"
  shows "should_bypass g p m = Some (p \<noteq> [] \<and> m \<noteq> [] \<and>
           any_hits (GetIgnoreAuthRequestMatchers ap) p m \<and>
           \<not> any_hits (GetRequireAuthRequestMatchers ap) p m \<and>
           \<not> list_ex (\<lambda>path. path_denotes path p) (login_paths cfg))"
    and "should_deny_redirect g p m = Some (p \<noteq> [] \<and> m \<noteq> [] \<and>
           list_ex (\<lambda>r. rar_denyRedirect r = Some True \<and> matcher_hits (requestMatcher.truncate r) p m)
             (auth_rules ap))"
  by (simp_all add: should_bypass_def should_deny_redirect_def script_matches [OF assms]
      ignore_hits require_hits deny_redirect_hits)

section \<open>Properties\<close>

lemma table_total: "\<exists>t. ConvertRequestMatchersToLuaTableString ms = Some t"
proof -
  have "\<exists>t. entries_loop b es = Some t" for b es
  proof (induction es arbitrary: b)
    case (Cons e es)
    obtain p ms where e: "e = (p, ms)" by (cases e)
    obtain t where "entries_loop False es = Some t" using Cons.IH by blast
    moreover obtain x where "entry_text p ms = Some x"
      using ConvertRequestMatcherPathToLuaPattern_total [of p] by (auto simp: entry_text_def)
    ultimately show ?case by (simp add: e)
  qed simp
  then show ?thesis by (simp add: ConvertRequestMatchersToLuaTableString_def)
qed

lemma generate_script_some: "\<exists>t. GenerateLuaScript ap cfg uris = Some t"
  using table_total by (auto simp: GenerateLuaScript_def Let_def bind_eq_Some_conv) metis

text \<open>C27: when the paths of the policy pass the validator and its login paths, which the operator does
  not validate, have no backslash and no line break, the global variables at the head of the generated
  script read back as the rule tables, login parameters and endpoints they were made from, unless one
  of the login paths has a double quote; then the head cannot be read back: the quote ends the literal
  of its pattern.\<close>

theorem generated_script_globals:
  assumes "ValidatePaths (GetPaths ap) = Inr ()" and "login_paths_safe cfg"
  shows "\<exists>t. GenerateLuaScript ap cfg uris = Some t \<and>
    read_globals t = (if login_path_quoted cfg then None else Some (script_globals ap cfg uris))"
  using assms by (intro any_script_reads) (auto simp: ValidatePaths_Inr_iff validatePath_Inr_iff)

theorem generated_script_globals_witness:
  "(\<exists>t. GenerateLuaScript example_policy example_cfg example_uris = Some t \<and>
     read_globals t = Some (script_globals example_policy example_cfg example_uris)) \<and>
   (\<exists>t. GenerateLuaScript example_policy (example_cfg\<lparr>alc_logoutPath := ''/out'' @ [quote_char]\<rparr>) example_uris = Some t \<and>
     read_globals t = None)"
proof (intro conjI)
  have valid: "ValidatePaths (GetPaths example_policy) = Inr ()" by code_simp
  have "login_paths_safe example_cfg" "\<not> login_path_quoted example_cfg" by code_simp+
  with generated_script_globals [OF valid] show "\<exists>t. GenerateLuaScript example_policy example_cfg example_uris = Some t \<and>
      read_globals t = Some (script_globals example_policy example_cfg example_uris)" by metis
  let ?cfg = "example_cfg\<lparr>alc_logoutPath := ''/out'' @ [quote_char]\<rparr>"
  have "login_paths_safe ?cfg" "login_path_quoted ?cfg" by code_simp+
  with generated_script_globals [OF valid] show "\<exists>t. GenerateLuaScript example_policy ?cfg example_uris = Some t \<and>
      read_globals t = None" by metis
qed



end
