(* ===== verification/LuaResponse.thy ===== *)
theory LuaResponse
  imports LuaFilter
begin

text \<open>
  The response handler of \<open>pkg/luascript/ztoperator.lua\<close>: in a redirect to the authorization
  endpoint the login parameters are put into the query, and in one to the end session endpoint the
  address after the logout is set or taken out.  Lua's tables are association lists, and the order in
  which \<open>pairs\<close> visits one is a parameter.  A run-time error of Lua is \<open>None\<close>.
\<close>

section \<open>Queries\<close>

definition query_char :: "char \<Rightarrow> bool" where
  "query_char c \<longleftrightarrow> c \<noteq> CHR ''&'' \<and> c \<noteq> CHR ''='' \<and> c \<noteq> CHR ''?''"

text \<open>
  The matches of the pattern for a pair, \<open>([^&=?]+)=([^&=?]+)\<close>, from left to right: at each position
  the longest key is tried, since a shorter one is not followed by an equals sign.
\<close>

function query_pairs :: "string \<Rightarrow> labels" where
  "query_pairs [] = []"
| "query_pairs (c # cs) =
     (let key = takeWhile query_char (c # cs);
          rest = drop (length key) (c # cs);
          val = takeWhile query_char (tl rest)
      in if key \<noteq> [] \<and> HasPrefix rest ''='' \<and> val \<noteq> []
         then (key, val) # query_pairs (drop (length val) (tl rest))
         else query_pairs cs)"
  by pat_completeness auto
termination
proof (relation "measure length")
  fix c :: char and cs key rest val
  assume "key = takeWhile query_char (c # cs)" "rest = drop (length key) (c # cs)"
    "key \<noteq> [] \<and> HasPrefix rest ''='' \<and> val \<noteq> []"
  then show "(drop (length val) (tl rest), c # cs) \<in> measure length" by (cases key) auto
qed simp_all

text \<open>\<open>loc:match("^([^?]+)%??(.*)$")\<close>.\<close>

definition split_location :: "string \<Rightarrow> (string \<times> string) option" where
  "split_location loc =
     (let base = takeWhile (\<lambda>c. c \<noteq> CHR ''?'') loc
      in if base = [] then None else Some (base, drop (Suc (length base)) loc))"

definition set_params :: "labels \<Rightarrow> labels \<Rightarrow> labels" where
  "set_params new params = fold (\<lambda>(k, v). AList.update k v) new params"

definition pair_text :: "string \<times> string \<Rightarrow> string" where
  "pair_text = (\<lambda>(k, v). k @ ''='' @ v)"

definition query_text :: "labels \<Rightarrow> string" where
  "query_text params = JoinByte (CHR ''&'') (map pair_text params)"

definition with_query :: "string \<Rightarrow> string \<Rightarrow> string" where
  "with_query base new_qs = base @ (if new_qs \<noteq> [] then ''?'' @ new_qs else [])"

section \<open>The handler\<close>

text \<open>A rewriting of the parameters, for a location with a query.\<close>

definition rewrite_location :: "(labels \<Rightarrow> labels) \<Rightarrow> (labels \<Rightarrow> labels) \<Rightarrow> string \<Rightarrow> string option" where
  "rewrite_location visit change loc =
     map_option (\<lambda>(base, qs).
         with_query base (if qs \<noteq> [] then query_text (visit (change (set_params (query_pairs qs) []))) else []))
       (split_location loc)"

definition add_login_params :: "(labels \<Rightarrow> labels) \<Rightarrow> lua_globals \<Rightarrow> labels \<Rightarrow> labels" where
  "add_login_params visit g params = set_params (visit (g_login_params g)) params"

definition set_post_logout :: "lua_globals \<Rightarrow> labels \<Rightarrow> labels" where
  "set_post_logout g params =
     (if g_post_logout_redirect_uri g = [] then AList.delete ''post_logout_redirect_uri'' params
      else AList.update ''post_logout_redirect_uri'' (g_post_logout_redirect_uri g) params)"

text \<open>The location header after the handler; both rewritings start from the one received.\<close>

definition envoy_on_response ::
  "(labels \<Rightarrow> labels) \<Rightarrow> lua_globals \<Rightarrow> string option \<Rightarrow> string option \<Rightarrow> string option option" where
  "envoy_on_response visit g status_header location_header =
     (let status = (case status_header of None \<Rightarrow> [] | Some x \<Rightarrow> x);
          loc = (case location_header of None \<Rightarrow> [] | Some x \<Rightarrow> x)
      in if status \<noteq> ''302'' \<or> loc = [] then Some location_header
         else Option.bind
           (if HasPrefix loc (g_authorize_endpoint g) \<and> g_login_params g \<noteq> []
            then map_option Some (rewrite_location visit (add_login_params visit g) loc)
            else Some location_header) (\<lambda>h.
           if HasPrefix loc (g_end_session_endpoint g)
           then map_option Some (rewrite_location visit (set_post_logout g) loc)
           else Some h))"

section \<open>Facts\<close>

definition query_word :: "string \<Rightarrow> bool" where
  "query_word w \<longleftrightarrow> w \<noteq> [] \<and> list_all query_char w"

definition query_ok :: "labels \<Rightarrow> bool" where
  "query_ok params \<longleftrightarrow> list_all (\<lambda>(k, v). query_word k \<and> query_word v) params"

lemma query_chars [simp]: "\<not> query_char (CHR ''&'')" "\<not> query_char (CHR ''='')" "\<not> query_char (CHR ''?'')"
  by (simp_all add: query_char_def)

lemma takeWhile_word: "list_all P w \<Longrightarrow> \<not> P c \<Longrightarrow> takeWhile P (w @ c # s) = w"
  by (induction w) auto

lemma takeWhile_all: "list_all P w \<Longrightarrow> takeWhile P w = w"
  by (simp add: list_all_iff)

lemma query_pairs_word:
  assumes "query_word k" and "query_word v" and "s = [] \<or> (\<exists>s'. s = CHR ''&'' # s')"
  shows "query_pairs (k @ CHR ''='' # v @ s) = (k, v) # query_pairs s"
proof -
  obtain c cs where k: "k = c # cs" using assms(1) by (cases k) (auto simp: query_word_def)
  have key: "takeWhile query_char (c # cs @ CHR ''='' # v @ s) = c # cs"
    using takeWhile_word [of query_char k "CHR ''=''" "v @ s"] assms(1) k by (simp add: query_word_def)
  have val: "takeWhile query_char (v @ s) = v"
    using assms(2, 3) takeWhile_word [of query_char v "CHR ''&''"] takeWhile_all [of query_char v]
    by (auto simp: query_word_def)
  show ?thesis
    using assms(2) by (simp add: k key val Let_def HasPrefix_def query_word_def del: takeWhile.simps)
qed

lemma query_pairs_amp: "query_pairs (CHR ''&'' # s) = query_pairs s"
  by simp

lemma query_roundtrip: "query_ok params \<Longrightarrow> query_pairs (query_text params) = params"
proof (induction params rule: induct_list012)
  case (2 p)
  then show ?case
    using query_pairs_word [of "fst p" "snd p" "[]"] by (simp add: query_text_def pair_text_def query_ok_def split_beta)
next
  case (3 p q ps)
  have "query_text (p # q # ps) = fst p @ CHR ''='' # snd p @ CHR ''&'' # query_text (q # ps)"
    by (simp add: query_text_def pair_text_def split_beta)
  with 3 show ?case
    using query_pairs_word [of "fst p" "snd p" "CHR ''&'' # query_text (q # ps)"]
    by (simp add: query_ok_def split_beta query_pairs_amp del: query_pairs.simps)
qed (simp add: query_text_def)

text \<open>Tables as maps: what a parameter is bound to does not depend on the order of the table.\<close>

lemma set_params_distinct: "distinct (map fst params) \<Longrightarrow> distinct (map fst (set_params new params))"
  unfolding set_params_def by (induction new arbitrary: params) (auto simp: distinct_update)

lemma map_of_set_params: "map_of (set_params new params) = map_of params ++ map_of (rev new)"
  unfolding set_params_def
  by (induction new arbitrary: params) (auto simp: update_conv' map_add_upd_left)

lemma map_of_rev: "distinct (map fst xs) \<Longrightarrow> map_of (rev xs) = map_of xs"
  by (metis map_of_eqI map_of_inject_set distinct_rev rev_map set_rev)

lemma visit_map:
  assumes "mset ys = mset xs" and "distinct (map fst xs)"
  shows "distinct (map fst ys)" and "map_of ys = map_of xs"
proof -
  have keys: "mset (map fst ys) = mset (map fst xs)" using assms(1) by simp
  show "distinct (map fst ys)" using assms(2) mset_eq_imp_distinct_iff [OF keys] by simp
  with assms show "map_of ys = map_of xs" by (metis map_of_inject_set mset_eq_setD)
qed

lemma query_okI: "(\<And>k v. (k, v) \<in> set ps \<Longrightarrow> query_word k \<and> query_word v) \<Longrightarrow> query_ok ps"
  by (auto simp: query_ok_def list_all_iff)

lemma query_ok_Nil [simp]: "query_ok []"
  by (simp add: query_ok_def)

lemma query_ok_Cons [simp]: "query_ok ((k, v) # ps) \<longleftrightarrow> query_word k \<and> query_word v \<and> query_ok ps"
  by (auto simp: query_ok_def)

lemma query_ok_subset: "query_ok ps \<Longrightarrow> set qs \<subseteq> set ps \<Longrightarrow> query_ok qs"
  by (auto simp: query_ok_def list_all_iff)

lemma takeWhile_list_all: "list_all P (takeWhile P s)"
  by (induction s) auto

lemma query_pairs_ok: "query_ok (query_pairs s)"
proof (induction s rule: query_pairs.induct)
  case (2 c cs)
  then show ?case
    by (auto simp: Let_def query_word_def takeWhile_list_all simp del: takeWhile.simps)
qed simp

lemma query_ok_update: "query_ok ps \<Longrightarrow> query_word k \<Longrightarrow> query_word v \<Longrightarrow> query_ok (AList.update k v ps)"
  by (induction ps) auto

lemma query_ok_set_params: "query_ok new \<Longrightarrow> query_ok ps \<Longrightarrow> query_ok (set_params new ps)"
  unfolding set_params_def by (induction new arbitrary: ps) (auto simp: query_ok_update)

lemma query_ok_delete: "query_ok ps \<Longrightarrow> query_ok (AList.delete k ps)"
  by (auto simp: query_ok_def list_all_iff AList.delete_eq)

lemma query_text_Nil_iff: "query_text ps = [] \<longleftrightarrow> ps = []"
  by (induction ps rule: induct_list012) (auto simp: query_text_def pair_text_def split_beta)

lemma split_location_with_query:
  assumes "base \<noteq> []" and "CHR ''?'' \<notin> set base"
  shows "split_location (with_query base qs) = Some (base, qs)"
proof -
  have "takeWhile (\<lambda>c. c \<noteq> CHR ''?'') base = base" using assms(2) by auto
  moreover have "takeWhile (\<lambda>c. c \<noteq> CHR ''?'') (base @ CHR ''?'' # qs) = base"
    using assms(2) by (intro takeWhile_word) (auto simp: list_all_iff)
  ultimately show ?thesis using assms(1) by (simp add: split_location_def with_query_def Let_def)
qed

text \<open>A rewriting that keeps tables well formed is a rewriting of the query's meaning.\<close>

lemma rewrite_location_query:
  assumes visit: "\<And>ps. mset (visit ps) = mset ps"
    and base: "base \<noteq> []" "CHR ''?'' \<notin> set base" and "qs \<noteq> []"
    and change: "\<And>ps. query_ok ps \<Longrightarrow> distinct (map fst ps) \<Longrightarrow>
      query_ok (change ps) \<and> distinct (map fst (change ps)) \<and> map_of (change ps) = spec (map_of ps)"
  shows "\<exists>loc' qs'. rewrite_location visit change (base @ ''?'' @ qs) = Some loc' \<and>
    split_location loc' = Some (base, qs') \<and> distinct (map fst (query_pairs qs')) \<and>
    map_of (query_pairs qs') = spec (map_of (rev (query_pairs qs)))"
proof -
  define ps where "ps = set_params (query_pairs qs) []"
  have ps: "query_ok ps" "distinct (map fst ps)" "map_of ps = map_of (rev (query_pairs qs))"
    by (simp_all add: ps_def query_ok_set_params query_pairs_ok set_params_distinct map_of_set_params)
  note changed = change [OF ps(1, 2)]
  have ok: "query_ok (visit (change ps))"
    using changed visit [THEN mset_eq_setD] by (blast intro: query_ok_subset)
  note visited = visit_map [OF visit, of "change ps"]
  have "split_location (base @ ''?'' @ qs) = Some (base, qs)"
    using split_location_with_query [OF base, of qs] assms(4) by (simp add: with_query_def)
  then have "rewrite_location visit change (base @ ''?'' @ qs) =
      Some (with_query base (query_text (visit (change ps))))"
    using assms(4) by (simp add: rewrite_location_def ps_def)
  then show ?thesis
    using split_location_with_query [OF base] query_roundtrip [OF ok] visited changed ps(3) by auto
qed

text \<open>The parameters that a generated script writes.\<close>

lemma QueryEscape_word: "u \<noteq> [] \<Longrightarrow> query_word (QueryEscape u)"
proof -
  assume u: "u \<noteq> []"
  have "query_byte c \<noteq> []" for c by (simp add: query_byte_def Let_def)
  then have "QueryEscape u \<noteq> []" using u by (cases u) (simp_all add: QueryEscape_def)
  moreover have "query_char c" if "c \<in> set (QueryEscape u)" for c
    using set_QueryEscape [OF that] by (auto simp: query_char_def query_unreserved_def ascii_alnum_def)
  ultimately show ?thesis by (simp add: query_word_def list_all_iff)
qed

lemma QueryEscape_Nil_iff: "QueryEscape u = [] \<longleftrightarrow> u = []"
  using QueryEscape_word [of u] by (auto simp: query_word_def QueryEscape_def)

definition login_params_ok :: "labels \<Rightarrow> bool" where
  "login_params_ok ps \<longleftrightarrow> wf_map ps \<and>
     list_all (\<lambda>(k, v). query_word k \<and> CHR 0x00 \<notin> set k \<and> v \<noteq> []) ps"

lemma sort_Nil: "sort xs = [] \<Longrightarrow> xs = []"
  by (metis set_empty set_sort)

lemma map_of_keys: "map_of (map (\<lambda>k. (k, f k)) ks) = (\<lambda>k. if k \<in> set ks then Some (f k) else None)"
  by (induction ks) auto

lemma script_login_params:
  fixes ap :: authPolicy and uris :: identityProviderUris
  assumes "login_params_ok (alc_loginParams cfg)"
  defines "lp \<equiv> g_login_params (script_globals ap cfg uris)"
  shows "query_ok lp" and "distinct (map fst lp)"
    and "map_of lp = map_option QueryEscape \<circ> map_of (alc_loginParams cfg)"
proof -
  let ?ps = "alc_loginParams cfg"
  have wf: "distinct (map fst ?ps)" using assms(1) by (simp add: login_params_ok_def wf_map_def)
  have val: "query_word k \<and> no_nul k = k \<and> map_index ?ps k \<noteq> []" if "k \<in> set (map fst ?ps)" for k
  proof -
    from that obtain v where v: "(k, v) \<in> set ?ps" by auto
    then have "query_word k \<and> CHR 0x00 \<notin> set k \<and> v \<noteq> []"
      using assms(1) by (auto simp: login_params_ok_def list_all_iff)
    then show ?thesis using map_of_is_SomeI [OF wf v] by (simp add: map_index_def no_nul_id)
  qed
  have lp: "lp = map (\<lambda>k. (k, QueryEscape (map_index ?ps k))) (sort (map fst ?ps))"
    using val by (simp add: lp_def script_globals_def)
  show "query_ok lp" unfolding lp using val by (intro query_okI) (force intro: QueryEscape_word)
  show "distinct (map fst lp)" using wf by (simp add: lp comp_def)
  show "map_of lp = map_option QueryEscape \<circ> map_of ?ps"
    by (rule ext) (auto simp: lp map_of_keys map_index_def map_of_eq_None_iff split: option.splits)
qed

text \<open>What the two rewritings mean: the login parameters override, and the address after the logout
  is set, or removed when there is none.\<close>

definition login_query :: "autoLoginConfig \<Rightarrow> (string \<rightharpoonup> string) \<Rightarrow> (string \<rightharpoonup> string)" where
  "login_query cfg q = q ++ (map_option QueryEscape \<circ> map_of (alc_loginParams cfg))"

definition logout_query :: "autoLoginConfig \<Rightarrow> (string \<rightharpoonup> string) \<Rightarrow> (string \<rightharpoonup> string)" where
  "logout_query cfg q = q(''post_logout_redirect_uri'' :=
     (case alc_postLogoutRedirectURI cfg of None \<Rightarrow> None
      | Some u \<Rightarrow> if u = [] then None else Some (QueryEscape u)))"

lemma add_login_params_spec:
  fixes ap :: authPolicy and cfg :: autoLoginConfig and uris :: identityProviderUris
  assumes "\<And>ps. mset (visit ps) = mset ps" and "login_params_ok (alc_loginParams cfg)"
    and "query_ok ps" and "distinct (map fst ps)"
  defines "g \<equiv> script_globals ap cfg uris"
  shows "query_ok (add_login_params visit g ps) \<and> distinct (map fst (add_login_params visit g ps)) \<and>
    map_of (add_login_params visit g ps) = login_query cfg (map_of ps)"
proof -
  note lp = script_login_params [OF assms(2), of ap uris, folded g_def]
  note visited = visit_map [OF assms(1) lp(2)]
  have "query_ok (visit (g_login_params g))"
    using lp(1) assms(1) [THEN mset_eq_setD] by (blast intro: query_ok_subset)
  then show ?thesis
    using assms(3, 4) visited lp(3)
    by (simp add: add_login_params_def query_ok_set_params set_params_distinct map_of_set_params
        map_of_rev login_query_def)
qed

lemma set_post_logout_spec:
  fixes ap :: authPolicy and cfg :: autoLoginConfig and uris :: identityProviderUris
  assumes "query_ok ps" and "distinct (map fst ps)"
  defines "g \<equiv> script_globals ap cfg uris"
  shows "query_ok (set_post_logout g ps) \<and> distinct (map fst (set_post_logout g ps)) \<and>
    map_of (set_post_logout g ps) = logout_query cfg (map_of ps)"
proof -
  have "query_word ''post_logout_redirect_uri''" by (simp add: query_word_def query_char_def)
  then show ?thesis
    using assms(1, 2)
    by (auto simp: set_post_logout_def g_def script_globals_def logout_query_def QueryEscape_Nil_iff
        query_ok_delete query_ok_update QueryEscape_word distinct_delete distinct_update delete_conv'
        update_conv' split: option.splits)
qed

section \<open>Properties\<close>



end
