(* ===== verification/IstioTypes.thy ===== *)
theory IstioTypes
  imports Scope
begin

text \<open>
  The Kubernetes and Istio objects the operator writes, with the fields it sets: object metadata,
  \<open>AuthorizationPolicy\<close>, \<open>RequestAuthentication\<close>, \<open>Secret\<close> and \<open>EnvoyFilter\<close>; and the
  labels every object carries (\<open>pkg/labels/labels.go\<close>).
\<close>

section \<open>Metadata\<close>

record ownerReference =
  or_apiVersion :: string
  or_kind :: string
  or_name :: string
  or_uid :: string
  or_controller :: bool

record objectMeta =
  om_name :: string
  om_namespace :: string
  om_labels :: labels
  om_owners :: "ownerReference list"

definition ManagedByLabelKey :: string where
  "ManagedByLabelKey = ''app.kubernetes.io/managed-by''"

definition ControllerLabelKey :: string where
  "ControllerLabelKey = ''ztoperator.kartverket.no/controller''"

definition TypeLabelKey :: string where
  "TypeLabelKey = ''type''"

definition AuthPolicyStandardLabels :: labels where
  "AuthPolicyStandardLabels =
     [(ManagedByLabelKey, ''ztoperator''), (ControllerLabelKey, ''authpolicy''),
      (TypeLabelKey, ''ztoperator.kartverket.no'')]"

definition buildObjectMeta :: "string \<Rightarrow> string \<Rightarrow> objectMeta" where
  "buildObjectMeta name namespace =
     \<lparr>om_name = name, om_namespace = namespace, om_labels = AuthPolicyStandardLabels, om_owners = []\<rparr>"

section \<open>AuthorizationPolicy\<close>

datatype action = ALLOW | DENY

record istioCondition =
  ic_key :: string
  ic_values :: "string list"
  ic_notValues :: "string list"

record operation =
  op_paths :: "string list"
  op_notPaths :: "string list"
  op_methods :: "string list"
  op_notMethods :: "string list"

record rule =
  r_to :: "operation list"
  r_when :: "istioCondition list"

record authorizationPolicy =
  azp_meta :: objectMeta
  azp_action :: action
  azp_selector :: labels
  azp_rules :: "rule list"

section \<open>RequestAuthentication\<close>

record jwtRule =
  jr_issuer :: string
  jr_audiences :: "string list"
  jr_jwksUri :: string
  jr_forwardOriginalToken :: bool
  jr_outputClaimToHeaders :: "claimToHeader list"

record requestAuthentication =
  ra_meta :: objectMeta
  ra_selector :: labels
  ra_jwtRules :: "jwtRule list"

section \<open>Secret\<close>

record secret =
  sec_meta :: objectMeta
  sec_type :: string
  sec_data :: labels

section \<open>EnvoyFilter\<close>

text \<open>The nested maps of a patch value, as the protobuf struct holds them.\<close>

datatype pb_value =
    PbString string
  | PbNumber int
  | PbBool bool
  | PbList "pb_value list"
  | PbStruct "(string \<times> pb_value) list"

datatype patch_target = HttpFilter | Cluster

datatype patch_operation = InsertBefore | AddOp

datatype patch_match =
    MatchListener string "string option"
  | MatchCluster string

record configPatch =
  cp_applyTo :: patch_target
  cp_inbound :: bool
  cp_match :: patch_match
  cp_operation :: patch_operation
  cp_value :: pb_value

record envoyFilter =
  ef_meta :: objectMeta
  ef_selector :: labels
  ef_configPatches :: "configPatch list"

end
