(* ===== verification/GoSlices.thy ===== *)
theory GoSlices
  imports Prelude
begin

text \<open>
  Go slices over an explicit heap of backing arrays, for the one place where the operator appends
  to a slice that several slices share.  \<open>append\<close> writes in place when the capacity allows it and
  else copies to a new array, whose capacity is the run-time system's choice; the choice is the
  parameter \<open>newcap\<close>, of which the language only promises that it is large enough.
\<close>

section \<open>The heap\<close>

type_synonym 'a heap = "'a option list list"

record slice =
  sl_array :: nat
  sl_len :: nat

definition slice_elems :: "'a heap \<Rightarrow> slice \<Rightarrow> 'a list" where
  "slice_elems h s = List.map_filter (\<lambda>x. x) (take (sl_len s) (h ! sl_array s))"

text \<open>A fresh array that holds the given elements, and has room for more.\<close>

definition new_array :: "nat \<Rightarrow> 'a list \<Rightarrow> 'a option list" where
  "new_array cap xs = map Some xs @ replicate (cap - length xs) None"

text \<open>\<open>slices.Concat\<close>: one growth of a nil slice to the total length, then the copies.\<close>

definition slice_make :: "(nat \<Rightarrow> nat \<Rightarrow> nat) \<Rightarrow> 'a heap \<Rightarrow> 'a list \<Rightarrow> 'a heap \<times> slice" where
  "slice_make newcap h xs =
     (h @ [new_array (newcap 0 (length xs)) xs], \<lparr>sl_array = length h, sl_len = length xs\<rparr>)"

definition slice_append :: "(nat \<Rightarrow> nat \<Rightarrow> nat) \<Rightarrow> 'a heap \<Rightarrow> slice \<Rightarrow> 'a \<Rightarrow> 'a heap \<times> slice" where
  "slice_append newcap h s x =
     (let arr = h ! sl_array s; n = sl_len s
      in if n < length arr
         then (h[sl_array s := arr[n := Some x]], s\<lparr>sl_len := Suc n\<rparr>)
         else (h @ [take n arr @ [Some x] @ replicate (newcap (length arr) (Suc n) - Suc n) None],
               \<lparr>sl_array = length h, sl_len = Suc n\<rparr>))"

fun slice_appends :: "(nat \<Rightarrow> nat \<Rightarrow> nat) \<Rightarrow> 'a heap \<Rightarrow> slice \<Rightarrow> 'a list \<Rightarrow> 'a heap \<times> slice" where
  "slice_appends newcap h s [] = (h, s)"
| "slice_appends newcap h s (x # xs) =
     (let (h', s') = slice_append newcap h s x in slice_appends newcap h' s' xs)"

text \<open>
  The growth of the Go run-time system for slices of pointers (8 bytes): twice the old capacity
  when that is enough and small, else what is needed, rounded up to an allocation size. Above the
  listed sizes nothing is rounded, an approximation that no slice of the operator reaches.
\<close>

definition pointer_size_classes :: "nat list" where
  "pointer_size_classes =
     [1, 2, 3, 4, 6, 8, 10, 12, 14, 16, 18, 20, 22, 24, 26, 28, 30, 32, 36, 40, 44, 48, 52, 56, 60, 64,
      72, 80, 88, 96, 112, 128]"

definition round_up :: "nat \<Rightarrow> nat" where
  "round_up n = (case find (\<lambda>c. n \<le> c) pointer_size_classes of None \<Rightarrow> n | Some c \<Rightarrow> c)"

definition go_newcap :: "nat \<Rightarrow> nat \<Rightarrow> nat" where
  "go_newcap oldcap needed =
     round_up (if 2 * oldcap < needed then needed else if oldcap < 256 then 2 * oldcap else needed)"

section \<open>Contents\<close>

definition holds :: "'a heap \<Rightarrow> slice \<Rightarrow> 'a list \<Rightarrow> bool" where
  "holds h s xs \<longleftrightarrow>
     sl_array s < length h \<and> sl_len s = length xs \<and> length xs \<le> length (h ! sl_array s) \<and>
     take (length xs) (h ! sl_array s) = map Some xs"

lemma map_filter_Some [simp]: "List.map_filter (\<lambda>x. x) (map Some xs) = xs"
  by (induction xs) (simp_all add: List.map_filter_simps)

lemma map_filter_append: "List.map_filter f (xs @ ys) = List.map_filter f xs @ List.map_filter f ys"
  by (simp add: List.map_filter_def)

lemma holds_elems: "holds h s xs \<Longrightarrow> slice_elems h s = xs"
  by (simp add: holds_def slice_elems_def)

text \<open>
  What an operation on a slice leaves alone: every other array, and the first \<open>n\<close> elements of
  its own.
\<close>

definition frame :: "nat \<Rightarrow> nat \<Rightarrow> 'a heap \<Rightarrow> 'a heap \<Rightarrow> bool" where
  "frame a n h h' \<longleftrightarrow>
     length h \<le> length h' \<and>
     (\<forall>b < length h. length (h' ! b) = length (h ! b)) \<and>
     (\<forall>b < length h. b \<noteq> a \<longrightarrow> h' ! b = h ! b) \<and>
     (a < length h \<longrightarrow> take n (h' ! a) = take n (h ! a))"

lemma frame_refl [simp]: "frame a n h h"
  by (simp add: frame_def)

lemma take_prefix_eq: "m \<le> n \<Longrightarrow> take n xs = take n ys \<Longrightarrow> take m xs = take m ys"
  by (metis min.absorb1 take_take)

lemma frame_trans:
  assumes "frame a n h h'" and "frame a m h' h''" and "n \<le> m"
  shows "frame a n h h''"
  using assms take_prefix_eq [of n m "h'' ! a" "h' ! a"] unfolding frame_def by auto

text \<open>After an operation inside a fresh array nothing old has changed.\<close>

lemma frame_fresh:
  assumes "frame a n h h'" and "frame b m h' h''" and "length h \<le> b"
  shows "frame a n h h''"
  using assms unfolding frame_def by auto

lemma holds_frame_own:
  assumes "holds h s xs" and "frame (sl_array s) n h h'" and "length xs \<le> n"
  shows "holds h' s xs"
  using assms take_prefix_eq [of "length xs" n "h' ! sl_array s" "h ! sl_array s"]
  by (auto simp: holds_def frame_def)

lemma holds_frame_other:
  "holds h s xs \<Longrightarrow> frame a n h h' \<Longrightarrow> sl_array s \<noteq> a \<Longrightarrow> holds h' s xs"
  by (auto simp: holds_def frame_def)

lemma prefix_kept:
  assumes "holds h s (xs @ ys)" and "frame (sl_array s) (length xs) h h'"
  shows "\<exists>own. slice_elems h' s = xs @ own"
proof -
  let ?arr = "h' ! sl_array s"
  have "take (length xs) (h ! sl_array s) = take (length xs) (take (length (xs @ ys)) (h ! sl_array s))"
    by simp
  also have "\<dots> = map Some xs" using assms(1) by (simp add: holds_def)
  finally have "take (length xs) ?arr = map Some xs"
    using assms by (simp add: holds_def frame_def)
  moreover have "take (length (xs @ ys)) ?arr = take (length xs) ?arr @ take (length ys) (drop (length xs) ?arr)"
    by (simp add: take_add)
  ultimately show ?thesis
    using assms(1) by (simp add: slice_elems_def holds_def map_filter_append)
qed

locale growth =
  fixes newcap :: "nat \<Rightarrow> nat \<Rightarrow> nat"
  assumes enough: "needed \<le> newcap oldcap needed"
begin

lemma make_holds:
  assumes "slice_make newcap h xs = (h', s)"
  shows "holds h' s xs" and "frame a n h h'" and "sl_array s = length h"
    and "length (h' ! sl_array s) = newcap 0 (length xs)"
  using assms enough [of "length xs" 0]
  by (auto simp: slice_make_def new_array_def holds_def frame_def nth_append)

lemma append_holds:
  assumes "holds h s xs" and "slice_append newcap h s x = (h', s')"
  shows "holds h' s' (xs @ [x])" and "frame (sl_array s) (length xs) h h'"
    and "sl_array s' = sl_array s \<or> length h \<le> sl_array s'"
    and "length (h ! sl_array s) = length xs \<Longrightarrow> length h \<le> sl_array s'"
proof -
  let ?a = "sl_array s" and ?n = "length xs" and ?arr = "h ! sl_array s"
  have s: "sl_len s = ?n" "?a < length h" "?n \<le> length ?arr" "take ?n ?arr = map Some xs"
    using assms(1) by (simp_all add: holds_def)
  have "holds h' s' (xs @ [x]) \<and> frame ?a ?n h h' \<and> (sl_array s' = ?a \<or> length h \<le> sl_array s') \<and>
      (length ?arr = ?n \<longrightarrow> length h \<le> sl_array s')"
  proof (cases "?n < length ?arr")
    case True
    then have r: "h' = h[?a := ?arr[?n := Some x]]" "s' = s\<lparr>sl_len := Suc ?n\<rparr>"
      using assms(2) s(1) by (simp_all add: slice_append_def Let_def)
    have "take (Suc ?n) (?arr[?n := Some x]) = map Some xs @ [Some x]"
      using True s(4) by (simp add: take_Suc_conv_app_nth)
    then show ?thesis using r s True by (simp add: holds_def frame_def nth_list_update)
  next
    case False
    then have r: "h' = h @ [map Some xs @ [Some x] @ replicate (newcap (length ?arr) (Suc ?n) - Suc ?n) None]"
      "s' = \<lparr>sl_array = length h, sl_len = Suc ?n\<rparr>"
      using assms(2) s by (simp_all add: slice_append_def Let_def)
    then show ?thesis using s by (simp add: holds_def frame_def nth_append)
  qed
  then show "holds h' s' (xs @ [x])" and "frame ?a ?n h h'" and "sl_array s' = ?a \<or> length h \<le> sl_array s'"
    and "length ?arr = ?n \<Longrightarrow> length h \<le> sl_array s'"
    by simp_all
qed

lemma appends_holds:
  "holds h s xs \<Longrightarrow> slice_appends newcap h s ys = (h', s') \<Longrightarrow>
     holds h' s' (xs @ ys) \<and> frame (sl_array s) (length xs) h h' \<and>
     (sl_array s' = sl_array s \<or> length h \<le> sl_array s') \<and>
     (ys \<noteq> [] \<longrightarrow> length (h ! sl_array s) = length xs \<longrightarrow> length h \<le> sl_array s')"
proof (induction ys arbitrary: h s xs)
  case (Cons y ys)
  obtain h1 s1 where step: "slice_append newcap h s y = (h1, s1)" by fastforce
  note one = append_holds [OF Cons.prems(1) step]
  have rest: "slice_appends newcap h1 s1 ys = (h', s')" using Cons.prems(2) step by simp
  note many = Cons.IH [OF one(1) rest]
  have len: "length h \<le> length h1" using one(2) by (simp add: frame_def)
  have "frame (sl_array s) (length xs) h h'"
  proof (cases "sl_array s1 = sl_array s")
    case True
    then show ?thesis using one(2) many by (auto intro: frame_trans)
  next
    case False
    then have "length h \<le> sl_array s1" using one(3) by blast
    then show ?thesis using one(2) many by (blast intro: frame_fresh)
  qed
  then show ?case using one many len by auto
qed simp

end

interpretation go_growth: growth go_newcap
proof
  have round: "n \<le> round_up n" for n
    by (auto simp: round_up_def find_Some_iff split: option.splits)
  show "needed \<le> go_newcap oldcap needed" for oldcap needed
    using round [of needed] round [of "2 * oldcap"] by (auto simp: go_newcap_def)
qed

end
