(* ===== verification/AuthorizationPolicies.thy ===== *)
theory AuthorizationPolicies
  imports IstioTypes PathValidation GoSlices
begin

text \<open>
  \<open>pkg/resourcegenerators/authorizationpolicy\<close>: the three Istio authorization policies made
  from a scope. DENY rules, one for each condition of an auth rule, reject what fails a condition;
  ALLOW rules admit the ignored requests without conditions and the others with theirs.
\<close>

section \<open>Conditions (common.go)\<close>

definition claim_key :: "string \<Rightarrow> string" where
  "claim_key claim = ''request.auth.claims['' @ claim @ '']''"

definition allowCondition :: "string \<Rightarrow> string list \<Rightarrow> istioCondition" where
  "allowCondition key values = \<lparr>ic_key = key, ic_values = values, ic_notValues = []\<rparr>"

definition denyCondition :: "string \<Rightarrow> string list \<Rightarrow> istioCondition" where
  "denyCondition key values = \<lparr>ic_key = key, ic_values = [], ic_notValues = values\<rparr>"

definition getBaselineAuthConditions ::
  "baselineAuth option \<Rightarrow> (string \<Rightarrow> string list \<Rightarrow> istioCondition) \<Rightarrow> istioCondition list" where
  "getBaselineAuthConditions baseline mk =
     (case baseline of None \<Rightarrow> []
      | Some b \<Rightarrow> map (\<lambda>c. mk (claim_key (cond_claim c)) (cond_values c)) (ba_claims b))"

definition GetBaselineAuthConditionsForAllowPolicy :: "baselineAuth option \<Rightarrow> istioCondition list" where
  "GetBaselineAuthConditionsForAllowPolicy baseline = getBaselineAuthConditions baseline allowCondition"

definition GetBaselineAuthConditionsForDenyPolicy :: "baselineAuth option \<Rightarrow> istioCondition list" where
  "GetBaselineAuthConditionsForDenyPolicy baseline = getBaselineAuthConditions baseline denyCondition"

definition getAudienceAndIssuerConditions ::
  "string list \<Rightarrow> string \<Rightarrow> (string \<Rightarrow> string list \<Rightarrow> istioCondition) \<Rightarrow> istioCondition list" where
  "getAudienceAndIssuerConditions acceptedResources issuer mk =
     [mk ''request.auth.claims[iss]'' [issuer]] @
     (if length acceptedResources > 0 then [mk ''request.auth.claims[aud]'' acceptedResources] else [])"

definition GetAudienceAndIssuerConditionsForAllowPolicy :: "string list \<Rightarrow> string \<Rightarrow> istioCondition list" where
  "GetAudienceAndIssuerConditionsForAllowPolicy acceptedResources issuer =
     getAudienceAndIssuerConditions acceptedResources issuer allowCondition"

definition GetAudienceAndIssuerConditionsForDenyPolicy :: "string list \<Rightarrow> string \<Rightarrow> istioCondition list" where
  "GetAudienceAndIssuerConditionsForDenyPolicy acceptedResources issuer =
     getAudienceAndIssuerConditions acceptedResources issuer denyCondition"

definition ConstructAcceptedResources :: "'o scope \<Rightarrow> string list" where
  "ConstructAcceptedResources s =
     s_audiences s @
     (case spec_acceptedResources (ap_spec (s_authPolicy s)) of None \<Rightarrow> [] | Some rs \<Rightarrow> rs)"

definition mkAuthorizationPolicy :: "'o scope \<Rightarrow> objectMeta \<Rightarrow> action \<Rightarrow> rule list \<Rightarrow> authorizationPolicy" where
  "mkAuthorizationPolicy s meta act rules =
     \<lparr>azp_meta = meta, azp_action = act,
      azp_selector = ws_matchLabels (spec_selector (ap_spec (s_authPolicy s))), azp_rules = rules\<rparr>"

definition AllowAuthorizationPolicy :: "'o scope \<Rightarrow> objectMeta \<Rightarrow> rule list \<Rightarrow> authorizationPolicy" where
  "AllowAuthorizationPolicy s meta rules = mkAuthorizationPolicy s meta ALLOW rules"

definition DenyAuthorizationPolicy :: "'o scope \<Rightarrow> objectMeta \<Rightarrow> rule list \<Rightarrow> authorizationPolicy" where
  "DenyAuthorizationPolicy s meta rules = mkAuthorizationPolicy s meta DENY rules"

section \<open>The DENY policy (deny/authorization_policy.go)\<close>

definition pathsOperation :: "string list \<Rightarrow> string list \<Rightarrow> operation" where
  "pathsOperation paths methods = \<lparr>op_paths = paths, op_notPaths = [], op_methods = methods, op_notMethods = []\<rparr>"

definition constructBaseConditionsForDenyPolicy :: "'o scope \<Rightarrow> istioCondition list" where
  "constructBaseConditionsForDenyPolicy s =
     GetAudienceAndIssuerConditionsForDenyPolicy (ConstructAcceptedResources s)
       (idp_issuerURI (s_identityProviderUris s)) @
     GetBaselineAuthConditionsForDenyPolicy (spec_baselineAuth (ap_spec (s_authPolicy s)))"

text \<open>
  The slice a rule's conditions are appended to is read before the next rule appends to it, so
  the sharing of its array stays without effect here.
\<close>

definition denyRulesOf :: "istioCondition list \<Rightarrow> requestAuthRule \<Rightarrow> rule list" where
  "denyRulesOf baseConditions r =
     map (\<lambda>c. \<lparr>r_to = [pathsOperation (TransformPathsForIstio (rm_paths r)) (rm_methods r)], r_when = [c]\<rparr>)
       (baseConditions @
        (case rar_when r of None \<Rightarrow> []
         | Some cs \<Rightarrow> map (\<lambda>c. denyCondition (claim_key (cond_claim c)) (cond_values c)) cs))"

definition deny_GetDesired :: "'o scope \<Rightarrow> objectMeta \<Rightarrow> authorizationPolicy option" where
  "deny_GetDesired s meta =
     (if \<not> spec_enabled (ap_spec (s_authPolicy s)) then None
      else if s_invalidConfig s then
        Some (DenyAuthorizationPolicy s meta [\<lparr>r_to = [pathsOperation [''*''] []], r_when = []\<rparr>])
      else case spec_authRules (ap_spec (s_authPolicy s)) of
             None \<Rightarrow> None
           | Some rules \<Rightarrow>
               if length rules = 0 then None
               else Some (DenyAuthorizationPolicy s meta
                 (concat (map (denyRulesOf (constructBaseConditionsForDenyPolicy s)) rules))))"

section \<open>The ALLOW policy of the ignore rules (ignore/authorization_policy.go)\<close>

definition ignore_GetDesired :: "'o scope \<Rightarrow> objectMeta \<Rightarrow> authorizationPolicy option" where
  "ignore_GetDesired s meta =
     (if \<not> spec_enabled (ap_spec (s_authPolicy s)) then None
      else if s_invalidConfig s then None
      else let matchers = GetIgnoreAuthRequestMatchers (s_authPolicy s)
           in if length matchers = 0 then None
              else Some (AllowAuthorizationPolicy s meta
                [\<lparr>r_to = map (\<lambda>m. pathsOperation (TransformPathsForIstio (rm_paths m)) (rm_methods m)) matchers,
                  r_when = []\<rparr>]))"

section \<open>The ALLOW policy of the auth rules (require/authorization_policy.go)\<close>

definition constructBaseConditions :: "'o scope \<Rightarrow> istioCondition list" where
  "constructBaseConditions s =
     GetAudienceAndIssuerConditionsForAllowPolicy (ConstructAcceptedResources s)
       (idp_issuerURI (s_identityProviderUris s)) @
     GetBaselineAuthConditionsForAllowPolicy (spec_baselineAuth (ap_spec (s_authPolicy s)))"

definition whenConditions :: "requestAuthRule \<Rightarrow> istioCondition list" where
  "whenConditions r =
     (case rar_when r of None \<Rightarrow> []
      | Some cs \<Rightarrow> map (\<lambda>c. allowCondition (claim_key (cond_claim c)) (cond_values c)) cs)"

text \<open>
  The loop over the auth rules: each rule starts from the shared slice of the base conditions and
  keeps a reference to the slice it ends with.
\<close>

fun constructSpecifiedPathsAllowRules_loop ::
  "(nat \<Rightarrow> nat \<Rightarrow> nat) \<Rightarrow> istioCondition heap \<Rightarrow> slice \<Rightarrow> requestAuthRule list \<Rightarrow>
   istioCondition heap \<times> (operation \<times> slice) list" where
  "constructSpecifiedPathsAllowRules_loop newcap h base [] = (h, [])"
| "constructSpecifiedPathsAllowRules_loop newcap h base (r # rs) =
     (let (h1, conditions) = slice_appends newcap h base (whenConditions r);
          (h2, rest) = constructSpecifiedPathsAllowRules_loop newcap h1 base rs
      in (h2, (pathsOperation (TransformPathsForIstio (rm_paths r)) (rm_methods r), conditions) # rest))"

definition constructSpecifiedPathsAllowRules ::
  "(nat \<Rightarrow> nat \<Rightarrow> nat) \<Rightarrow> 'o scope \<Rightarrow> istioCondition heap \<Rightarrow> slice \<Rightarrow>
   istioCondition heap \<times> (operation \<times> slice) list" where
  "constructSpecifiedPathsAllowRules newcap s h base =
     (case spec_authRules (ap_spec (s_authPolicy s)) of
        None \<Rightarrow> (h, [])
      | Some rules \<Rightarrow> constructSpecifiedPathsAllowRules_loop newcap h base rules)"

definition unspecifiedOperations :: "requestMatcher list \<Rightarrow> operation list" where
  "unspecifiedOperations matchers =
     map (\<lambda>m. \<lparr>op_paths = TransformPathsForIstio (rm_paths m), op_notPaths = [], op_methods = [],
               op_notMethods = (if length (rm_methods m) = 0 then GetAcceptedHTTPMethods else rm_methods m)\<rparr>)
       matchers @
     [\<lparr>op_paths = [''*''],
       op_notPaths = concat (map (\<lambda>m. TransformPathsForIstio (rm_paths m)) matchers),
       op_methods = [], op_notMethods = []\<rparr>]"

definition constructUnspecifiedPathsAllowRule :: "'o scope \<Rightarrow> slice \<Rightarrow> operation list \<times> slice" where
  "constructUnspecifiedPathsAllowRule s base =
     (unspecifiedOperations (GetRequireAuthRequestMatchers (s_authPolicy s) @
        GetIgnoreAuthRequestMatchers (s_authPolicy s)), base)"

text \<open>The rules as the client sends them: the slices are read when all of them are built.\<close>

definition readRule :: "istioCondition heap \<Rightarrow> operation list \<times> slice \<Rightarrow> rule" where
  "readRule h = (\<lambda>(ops, conditions). \<lparr>r_to = ops, r_when = slice_elems h conditions\<rparr>)"

definition hasRules :: "'a list option \<Rightarrow> bool" where
  "hasRules rules = (case rules of None \<Rightarrow> False | Some rs \<Rightarrow> length rs > 0)"

definition require_GetDesired ::
  "(nat \<Rightarrow> nat \<Rightarrow> nat) \<Rightarrow> 'o scope \<Rightarrow> objectMeta \<Rightarrow> authorizationPolicy option" where
  "require_GetDesired newcap s meta =
     (if \<not> spec_enabled (ap_spec (s_authPolicy s)) then None
      else if s_invalidConfig s then None
      else let (h, base) = slice_make newcap [] (constructBaseConditions s);
               spec = ap_spec (s_authPolicy s)
           in if \<not> hasRules (spec_authRules spec) \<and> \<not> hasRules (spec_ignoreAuthRules spec)
              then Some (AllowAuthorizationPolicy s meta
                [readRule h ([pathsOperation [''*''] []], base)])
              else let (h', specified) = constructSpecifiedPathsAllowRules newcap s h base;
                       unspecified = constructUnspecifiedPathsAllowRule s base
                   in Some (AllowAuthorizationPolicy s meta
                     (readRule h' unspecified # map (\<lambda>(operation, conditions). readRule h' ([operation], conditions)) specified)))"

section \<open>The rules of the ALLOW policy\<close>

text \<open>What the loop is meant to build: each rule with the base conditions and its own.\<close>

definition intendedRule :: "istioCondition list \<Rightarrow> requestAuthRule \<Rightarrow> rule" where
  "intendedRule base r =
     \<lparr>r_to = [pathsOperation (TransformPathsForIstio (rm_paths r)) (rm_methods r)],
      r_when = base @ whenConditions r\<rparr>"

text \<open>What the loop builds: the same, except that own conditions may be others' conditions.\<close>

definition builtRule :: "istioCondition list \<Rightarrow> requestAuthRule \<Rightarrow> rule \<Rightarrow> bool" where
  "builtRule base r rule \<longleftrightarrow>
     r_to rule = r_to (intendedRule base r) \<and> (\<exists>own. r_when rule = base @ own)"

definition specifiedRules :: "istioCondition heap \<Rightarrow> (operation \<times> slice) list \<Rightarrow> rule list" where
  "specifiedRules h specified = map (\<lambda>(operation, conditions). readRule h ([operation], conditions)) specified"

lemma list_all2_map_specified:
  "specifiedRules h ((operation, conditions) # rest) =
     \<lparr>r_to = [operation], r_when = slice_elems h conditions\<rparr> # specifiedRules h rest"
  by (simp add: specifiedRules_def readRule_def)

lemma kept_or_prefix:
  assumes "holds h1 s (xs @ ys)" and "frame b (length xs) h1 h'"
  shows "\<exists>own. slice_elems h' s = xs @ own"
    and "sl_array s \<noteq> b \<or> ys = [] \<Longrightarrow> slice_elems h' s = xs @ ys"
proof -
  have other: "slice_elems h' s = xs @ ys" if "sl_array s \<noteq> b"
    using holds_elems [OF holds_frame_other [OF assms that]] .
  then show "\<exists>own. slice_elems h' s = xs @ own"
    using prefix_kept [OF assms(1)] assms(2) by (cases "sl_array s = b") auto
  show "sl_array s \<noteq> b \<or> ys = [] \<Longrightarrow> slice_elems h' s = xs @ ys"
    using other holds_elems [OF holds_frame_own [OF assms(1)]] assms(2)
    by (cases "sl_array s = b") auto
qed

context growth
begin

lemma specified_rules_built:
  "holds h b xs \<Longrightarrow> constructSpecifiedPathsAllowRules_loop newcap h b rs = (h', out) \<Longrightarrow>
     frame (sl_array b) (length xs) h h' \<and>
     list_all2 (builtRule xs) rs (specifiedRules h' out) \<and>
     (length (h ! sl_array b) = length xs \<longrightarrow> specifiedRules h' out = map (intendedRule xs) rs)"
proof (induction rs arbitrary: h out)
  case (Cons r rs)
  obtain h1 s1 where step: "slice_appends newcap h b (whenConditions r) = (h1, s1)" by fastforce
  obtain out' where rest: "constructSpecifiedPathsAllowRules_loop newcap h1 b rs = (h', out')"
    and out: "out = (pathsOperation (TransformPathsForIstio (rm_paths r)) (rm_methods r), s1) # out'"
    using Cons.prems(2) step by (auto split: prod.splits)
  have one: "holds h1 s1 (xs @ whenConditions r)" "frame (sl_array b) (length xs) h h1"
    and fresh: "whenConditions r \<noteq> [] \<Longrightarrow> length (h ! sl_array b) = length xs \<Longrightarrow> length h \<le> sl_array s1"
    using appends_holds [OF Cons.prems(1) step] by auto
  have b: "holds h1 b xs" using holds_frame_own [OF Cons.prems(1) one(2)] by simp
  have same: "length (h1 ! sl_array b) = length (h ! sl_array b)" "sl_array b < length h"
    using one(2) Cons.prems(1) by (auto simp: frame_def holds_def)
  note more = Cons.IH [OF b rest]
  have last: "frame (sl_array b) (length xs) h1 h'" using more by blast
  have "frame (sl_array b) (length xs) h h'" using frame_trans [OF one(2) last] by simp
  moreover have "specifiedRules h' out =
      \<lparr>r_to = [pathsOperation (TransformPathsForIstio (rm_paths r)) (rm_methods r)],
       r_when = slice_elems h' s1\<rparr> # specifiedRules h' out'"
    by (simp add: out list_all2_map_specified)
  moreover have "length (h ! sl_array b) = length xs \<Longrightarrow> sl_array s1 \<noteq> sl_array b \<or> whenConditions r = []"
    using fresh same(2) by fastforce
  ultimately show ?case
    using more kept_or_prefix [OF one(1) last] same(1)
    by (simp add: builtRule_def intendedRule_def)
qed (simp add: specifiedRules_def)

text \<open>
  With spare capacity in the array of the base conditions, rules that have one condition each write
  it to the same place, so that all of them end up with the condition of the last rule.
\<close>

lemma shared_loop:
  assumes "rs \<noteq> []" and "sl_len b < length (h ! sl_array b)" and "sl_array b < length h"
    and "\<And>r. r \<in> set rs \<Longrightarrow> length (whenConditions r) = 1"
  shows "constructSpecifiedPathsAllowRules_loop newcap h b rs =
    (h[sl_array b := (h ! sl_array b)[sl_len b := Some (hd (whenConditions (last rs)))]],
     map (\<lambda>r. (pathsOperation (TransformPathsForIstio (rm_paths r)) (rm_methods r), b\<lparr>sl_len := Suc (sl_len b)\<rparr>)) rs)"
  using assms
proof (induction rs arbitrary: h)
  case (Cons r rs)
  obtain c where c: "whenConditions r = [c]" using Cons.prems(4) [of r] by (auto simp: length_Suc_conv)
  show ?case using Cons by (cases "rs = []") (simp_all add: c slice_append_def Let_def)
qed simp

lemma shared_require_rules:
  assumes "spec_enabled (ap_spec (s_authPolicy s))" and "\<not> s_invalidConfig s"
    and "auth_rules (s_authPolicy s) \<noteq> []"
    and "\<And>r. r \<in> set (auth_rules (s_authPolicy s)) \<Longrightarrow> length (whenConditions r) = 1"
    and "length (constructBaseConditions s) < newcap 0 (length (constructBaseConditions s))"
  shows "require_GetDesired newcap s meta = Some (AllowAuthorizationPolicy s meta
      (\<lparr>r_to = unspecifiedOperations (GetRequireAuthRequestMatchers (s_authPolicy s) @
          GetIgnoreAuthRequestMatchers (s_authPolicy s)), r_when = constructBaseConditions s\<rparr> #
       map (\<lambda>r. \<lparr>r_to = r_to (intendedRule [] r),
         r_when = constructBaseConditions s @ whenConditions (last (auth_rules (s_authPolicy s)))\<rparr>)
         (auth_rules (s_authPolicy s))))"
proof -
  let ?base = "constructBaseConditions s" and ?rules = "auth_rules (s_authPolicy s)"
  let ?arr = "new_array (newcap 0 (length ?base)) ?base" and ?c = "hd (whenConditions (last ?rules))"
  have last: "whenConditions (last ?rules) = [?c]"
    using assms(4) [of "last ?rules"] assms(3) by (cases "whenConditions (last ?rules)") auto
  have arr: "take (length ?base) (?arr[length ?base := Some ?c]) = map Some ?base"
    "take (Suc (length ?base)) (?arr[length ?base := Some ?c]) = map Some (?base @ [?c])"
    using assms(5) Suc_diff_Suc [OF assms(5)]
    by (auto simp: new_array_def list_update_append elim!: subst)
  have spec: "spec_authRules (ap_spec (s_authPolicy s)) = Some ?rules"
    using assms(3) by (auto simp: auth_rules_def split: option.splits)
  have "slice_make newcap [] ?base = ([?arr], \<lparr>sl_array = 0, sl_len = length ?base\<rparr>)"
    by (simp add: slice_make_def)
  moreover have "constructSpecifiedPathsAllowRules newcap s [?arr] \<lparr>sl_array = 0, sl_len = length ?base\<rparr> =
      ([?arr[length ?base := Some ?c]],
       map (\<lambda>r. (pathsOperation (TransformPathsForIstio (rm_paths r)) (rm_methods r),
         \<lparr>sl_array = 0, sl_len = Suc (length ?base)\<rparr>)) ?rules)"
    using shared_loop [of ?rules "\<lparr>sl_array = 0, sl_len = length ?base\<rparr>" "[?arr]"] assms(3-5)
    by (simp add: constructSpecifiedPathsAllowRules_def spec new_array_def)
  ultimately show ?thesis
    using assms(1-3) last arr map_filter_Some [of "?base @ [?c]"] map_filter_Some [of ?base]
    by (simp add: require_GetDesired_def hasRules_def spec constructUnspecifiedPathsAllowRule_def readRule_def
        slice_elems_def intendedRule_def comp_def del: map_append)
qed

lemma require_all_paths:
  assumes "spec_enabled (ap_spec (s_authPolicy s))" and "\<not> s_invalidConfig s"
    and "auth_rules (s_authPolicy s) = []" and "GetIgnoreAuthRequestMatchers (s_authPolicy s) = []"
  shows "require_GetDesired newcap s meta = Some (AllowAuthorizationPolicy s meta
    [\<lparr>r_to = [pathsOperation [''*''] []], r_when = constructBaseConditions s\<rparr>])"
proof -
  obtain h b where hb: "slice_make newcap [] (constructBaseConditions s) = (h, b)" by fastforce
  have "slice_elems h b = constructBaseConditions s" by (rule holds_elems [OF make_holds(1) [OF hb]])
  moreover have "\<not> hasRules (spec_authRules (ap_spec (s_authPolicy s)))"
    "\<not> hasRules (spec_ignoreAuthRules (ap_spec (s_authPolicy s)))"
    using assms(3, 4)
    by (auto simp: hasRules_def auth_rules_def GetIgnoreAuthRequestMatchers_def split: option.splits)
  ultimately show ?thesis
    using assms(1, 2) by (simp add: require_GetDesired_def hb readRule_def)
qed

lemma require_rules:
  assumes "spec_enabled (ap_spec (s_authPolicy s))" and "\<not> s_invalidConfig s"
    and "auth_rules (s_authPolicy s) \<noteq> [] \<or> GetIgnoreAuthRequestMatchers (s_authPolicy s) \<noteq> []"
  shows "\<exists>specified. require_GetDesired newcap s meta = Some (AllowAuthorizationPolicy s meta
      (\<lparr>r_to = unspecifiedOperations (GetRequireAuthRequestMatchers (s_authPolicy s) @
          GetIgnoreAuthRequestMatchers (s_authPolicy s)), r_when = constructBaseConditions s\<rparr> # specified)) \<and>
    list_all2 (builtRule (constructBaseConditions s)) (auth_rules (s_authPolicy s)) specified \<and>
    (newcap 0 (length (constructBaseConditions s)) = length (constructBaseConditions s) \<longrightarrow>
       specified = map (intendedRule (constructBaseConditions s)) (auth_rules (s_authPolicy s)))"
proof -
  let ?base = "constructBaseConditions s"
  obtain h b where hb: "slice_make newcap [] ?base = (h, b)" by fastforce
  note made = make_holds [OF hb]
  obtain h' out where loop:
    "constructSpecifiedPathsAllowRules_loop newcap h b (auth_rules (s_authPolicy s)) = (h', out)" by fastforce
  have spec: "constructSpecifiedPathsAllowRules newcap s h b = (h', out)"
    using loop by (auto simp: constructSpecifiedPathsAllowRules_def auth_rules_def split: option.splits)
  note built = specified_rules_built [OF made(1) loop]
  have "slice_elems h' b = ?base"
    using built holds_elems [OF holds_frame_own [OF made(1)]] by blast
  moreover have "hasRules (spec_authRules (ap_spec (s_authPolicy s))) \<or>
      hasRules (spec_ignoreAuthRules (ap_spec (s_authPolicy s)))"
    using assms(3)
    by (auto simp: hasRules_def auth_rules_def GetIgnoreAuthRequestMatchers_def split: option.splits)
  ultimately have "require_GetDesired newcap s meta = Some (AllowAuthorizationPolicy s meta
      (\<lparr>r_to = unspecifiedOperations (GetRequireAuthRequestMatchers (s_authPolicy s) @
          GetIgnoreAuthRequestMatchers (s_authPolicy s)), r_when = ?base\<rparr> # specifiedRules h' out))"
    using assms(1, 2)
    by (auto simp: require_GetDesired_def hb spec constructUnspecifiedPathsAllowRule_def readRule_def
        specifiedRules_def Let_def)
  then show ?thesis using built made(4) by auto
qed

end

end
