(* ===== verification/AccessControl.thy ===== *)
theory AccessControl
  imports AuthorizationPolicies LuaFilter
begin

text \<open>
  What the three authorization policies of a scope let through.  The policies are evaluated by
  Istio, whose documented rules are the locale \<open>istio_engine\<close>: a matching DENY policy rejects
  a request, else a matching ALLOW policy admits it, and without any ALLOW policy it is admitted.
  How a claim value is compared with a pattern is a parameter.
\<close>

section \<open>Requests and matching\<close>

text \<open>The claims are those of a validated token, by name; no token, no claims.\<close>

record request =
  rq_path :: string
  rq_method :: string
  rq_claims :: "(string, string list) gomap"

type_synonym value_match = "string \<Rightarrow> string \<Rightarrow> bool"

definition claim_among :: "value_match \<Rightarrow> request \<Rightarrow> string \<Rightarrow> string list \<Rightarrow> bool" where
  "claim_among vm q claim patterns =
     (case map_of (rq_claims q) claim of None \<Rightarrow> False
      | Some vs \<Rightarrow> list_ex (\<lambda>v. list_ex (\<lambda>p. vm p v) patterns) vs)"

text \<open>Istio's condition keys for claims are \<open>request.auth.claims[name]\<close>; no other key has a value here.\<close>

definition claim_of_key :: "string \<Rightarrow> string option" where
  "claim_of_key key =
     (let n = length ''request.auth.claims['' in
      if take n key = ''request.auth.claims['' \<and> drop n key \<noteq> [] \<and> last key = CHR '']''
      then Some (butlast (drop n key)) else None)"

definition claim_hit :: "value_match \<Rightarrow> request \<Rightarrow> string \<Rightarrow> string list \<Rightarrow> bool" where
  "claim_hit vm q key patterns =
     (case claim_of_key key of None \<Rightarrow> False | Some claim \<Rightarrow> claim_among vm q claim patterns)"

definition condition_holds :: "value_match \<Rightarrow> request \<Rightarrow> istioCondition \<Rightarrow> bool" where
  "condition_holds vm q c \<longleftrightarrow>
     (ic_values c = [] \<or> claim_hit vm q (ic_key c) (ic_values c)) \<and>
     (ic_notValues c = [] \<or> \<not> claim_hit vm q (ic_key c) (ic_notValues c))"

definition operation_matches :: "request \<Rightarrow> operation \<Rightarrow> bool" where
  "operation_matches q op \<longleftrightarrow>
     (op_paths op = [] \<or> list_ex (\<lambda>p. path_denotes p (rq_path q)) (op_paths op)) \<and>
     \<not> list_ex (\<lambda>p. path_denotes p (rq_path q)) (op_notPaths op) \<and>
     (op_methods op = [] \<or> rq_method q \<in> set (op_methods op)) \<and>
     rq_method q \<notin> set (op_notMethods op)"

definition rule_matches :: "value_match \<Rightarrow> request \<Rightarrow> rule \<Rightarrow> bool" where
  "rule_matches vm q r \<longleftrightarrow>
     (r_to r = [] \<or> list_ex (operation_matches q) (r_to r)) \<and> list_all (condition_holds vm q) (r_when r)"

definition policy_matches :: "value_match \<Rightarrow> request \<Rightarrow> authorizationPolicy \<Rightarrow> bool" where
  "policy_matches vm q p \<longleftrightarrow> list_ex (rule_matches vm q) (azp_rules p)"

section \<open>The engine\<close>

locale istio_engine =
  fixes allows :: "authorizationPolicy list \<Rightarrow> request \<Rightarrow> bool" and vm :: value_match
  assumes denied: "\<lbrakk>p \<in> set ps; azp_action p = DENY; policy_matches vm q p\<rbrakk> \<Longrightarrow> \<not> allows ps q"
    and allowed: "\<lbrakk>p \<in> set ps; azp_action p = ALLOW; policy_matches vm q p;
      \<And>d. \<lbrakk>d \<in> set ps; azp_action d = DENY\<rbrakk> \<Longrightarrow> \<not> policy_matches vm q d\<rbrakk> \<Longrightarrow> allows ps q"
    and unmatched: "\<lbrakk>p \<in> set ps; azp_action p = ALLOW;
      \<And>d. \<lbrakk>d \<in> set ps; azp_action d = ALLOW\<rbrakk> \<Longrightarrow> \<not> policy_matches vm q d\<rbrakk> \<Longrightarrow> \<not> allows ps q"
    and unguarded: "\<lbrakk>\<And>p. p \<in> set ps \<Longrightarrow> azp_action p \<noteq> ALLOW;
      \<And>d. d \<in> set ps \<Longrightarrow> \<not> policy_matches vm q d\<rbrakk> \<Longrightarrow> allows ps q"
begin

text \<open>The decision when there is an ALLOW policy.\<close>

lemma allows_iff:
  assumes "\<exists>p \<in> set ps. azp_action p = ALLOW"
  shows "allows ps q \<longleftrightarrow>
    (\<exists>p \<in> set ps. azp_action p = ALLOW \<and> policy_matches vm q p) \<and>
    \<not> (\<exists>d \<in> set ps. azp_action d = DENY \<and> policy_matches vm q d)"
  using assms denied allowed unmatched by (metis)

end

text \<open>An evaluator with these rules, to run the model on concrete requests.\<close>

definition istio_reference :: "value_match \<Rightarrow> authorizationPolicy list \<Rightarrow> request \<Rightarrow> bool" where
  "istio_reference vm ps q \<longleftrightarrow>
     \<not> list_ex (\<lambda>p. azp_action p = DENY \<and> policy_matches vm q p) ps \<and>
     (list_all (\<lambda>p. azp_action p \<noteq> ALLOW) ps \<or>
      list_ex (\<lambda>p. azp_action p = ALLOW \<and> policy_matches vm q p) ps)"

interpretation reference: istio_engine "istio_reference vm" vm for vm
  by unfold_locales (auto simp: istio_reference_def list_ex_iff list_all_iff)

section \<open>The policies of a scope, and what they should mean\<close>

definition access_policies :: "(nat \<Rightarrow> nat \<Rightarrow> nat) \<Rightarrow> 'o scope \<Rightarrow> authorizationPolicy list" where
  "access_policies newcap s =
     (let name = ap_name (s_authPolicy s); ns = ap_namespace (s_authPolicy s)
      in List.map_filter (\<lambda>x. x)
        [deny_GetDesired s (buildObjectMeta (DenyPolicyName name) ns),
         ignore_GetDesired s (buildObjectMeta (IgnorePolicyName name) ns),
         require_GetDesired newcap s (buildObjectMeta (RequirePolicyName name) ns)])"

text \<open>
  The meaning of the AuthPolicy, read off its spec and what was resolved for it, without the
  generators: the token's issuer is the provider's, its audience is one of the allowed audiences
  and accepted resources (if there are any), and each claim the baseline names has one of the
  values given for it.
\<close>

definition claims_given :: "value_match \<Rightarrow> request \<Rightarrow> condition list \<Rightarrow> bool" where
  "claims_given vm q cs \<longleftrightarrow> list_all (\<lambda>c. claim_among vm q (cond_claim c) (cond_values c)) cs"

definition base_holds :: "value_match \<Rightarrow> 'o scope \<Rightarrow> request \<Rightarrow> bool" where
  "base_holds vm s q \<longleftrightarrow>
     (let sp = ap_spec (s_authPolicy s);
          audiences = s_audiences s @ (case spec_acceptedResources sp of None \<Rightarrow> [] | Some rs \<Rightarrow> rs)
      in claim_among vm q ''iss'' [idp_issuerURI (s_identityProviderUris s)] \<and>
         (audiences = [] \<or> claim_among vm q ''aud'' audiences) \<and>
         claims_given vm q (case spec_baselineAuth sp of None \<Rightarrow> [] | Some b \<Rightarrow> ba_claims b))"

definition own_holds :: "value_match \<Rightarrow> requestAuthRule \<Rightarrow> request \<Rightarrow> bool" where
  "own_holds vm r q \<longleftrightarrow> claims_given vm q (case rar_when r of None \<Rightarrow> [] | Some cs \<Rightarrow> cs)"

definition rule_hits :: "requestAuthRule \<Rightarrow> request \<Rightarrow> bool" where
  "rule_hits r q \<longleftrightarrow> matcher_hits (requestMatcher.truncate r) (rq_path q) (rq_method q)"

definition ignored :: "'o scope \<Rightarrow> request \<Rightarrow> bool" where
  "ignored s q \<longleftrightarrow>
     (case spec_ignoreAuthRules (ap_spec (s_authPolicy s)) of None \<Rightarrow> False
      | Some rs \<Rightarrow> list_ex (\<lambda>m. matcher_hits m (rq_path q) (rq_method q)) rs)"

text \<open>
  A request that an auth rule applies to needs the base conditions and the rule's own; any other
  request needs the base conditions unless it is ignored.
\<close>

definition intended_access :: "value_match \<Rightarrow> 'o scope \<Rightarrow> request \<Rightarrow> bool" where
  "intended_access vm s q \<longleftrightarrow>
     list_all (\<lambda>r. rule_hits r q \<longrightarrow> base_holds vm s q \<and> own_holds vm r q) (auth_rules (s_authPolicy s)) \<and>
     (ignored s q \<or> base_holds vm s q)"

text \<open>A policy whose matchers name paths and whose conditions name values.\<close>

definition paths_given :: "authPolicy \<Rightarrow> bool" where
  "paths_given ap \<longleftrightarrow>
     list_all (\<lambda>m. rm_paths m \<noteq> []) (GetRequireAuthRequestMatchers ap @ GetIgnoreAuthRequestMatchers ap)"

definition values_given :: "authPolicy \<Rightarrow> bool" where
  "values_given ap \<longleftrightarrow>
     list_all (\<lambda>r. case rar_when r of None \<Rightarrow> True | Some cs \<Rightarrow> list_all (\<lambda>c. cond_values c \<noteq> []) cs)
       (auth_rules ap) \<and>
     (case spec_baselineAuth (ap_spec ap) of None \<Rightarrow> True
      | Some b \<Rightarrow> list_all (\<lambda>c. cond_values c \<noteq> []) (ba_claims b))"

definition well_formed_scope :: "'o scope \<Rightarrow> bool" where
  "well_formed_scope s \<longleftrightarrow>
     spec_enabled (ap_spec (s_authPolicy s)) \<and> \<not> s_invalidConfig s \<and>
     ValidatePaths (GetPaths (s_authPolicy s)) = Inr () \<and>
     paths_given (s_authPolicy s) \<and> values_given (s_authPolicy s)"

section \<open>Matching the generated rules\<close>

lemma denotes_star [simp]: "path_denotes ''*'' p"
proof -
  have "path_tokens ''*'' = [AnyStr]" by code_simp
  then show ?thesis by (simp add: path_denotes_def tok_match_AnyStr del: tok_match.simps(4))
qed

lemma transformed_denotes:
  assumes "list_all accepted_path ps"
  shows "list_ex (\<lambda>p. path_denotes p x) (TransformPathsForIstio ps) \<longleftrightarrow> list_ex (\<lambda>p. path_denotes p x) ps"
  using assms path_tokens_transform
  by (induction ps) (auto simp: TransformPathsForIstio_def path_denotes_def)

lemma transform_empty [simp]: "TransformPathsForIstio ps = [] \<longleftrightarrow> ps = []"
  by (simp add: TransformPathsForIstio_def)

lemma pathsOperation_matches:
  assumes "list_all accepted_path (rm_paths m)" and "rm_paths m \<noteq> []"
  shows "operation_matches q (pathsOperation (TransformPathsForIstio (rm_paths m)) (rm_methods m)) \<longleftrightarrow>
    matcher_hits m (rq_path q) (rq_method q)"
  using assms by (simp add: operation_matches_def pathsOperation_def transformed_denotes matcher_hits_def)

lemma deny_iff_not_allow:
  "vs \<noteq> [] \<Longrightarrow> condition_holds vm q (denyCondition key vs) \<longleftrightarrow> \<not> condition_holds vm q (allowCondition key vs)"
  by (simp add: condition_holds_def denyCondition_def allowCondition_def)

text \<open>The deny conditions are the allow conditions, negated.\<close>

definition negated :: "istioCondition \<Rightarrow> istioCondition" where
  "negated c = denyCondition (ic_key c) (ic_values c)"

lemma negated_allow [simp]: "negated (allowCondition key vs) = denyCondition key vs"
  by (simp add: negated_def allowCondition_def)

lemma deny_base_negated:
  "constructBaseConditionsForDenyPolicy s = map negated (constructBaseConditions s)"
  by (simp add: constructBaseConditionsForDenyPolicy_def constructBaseConditions_def
      GetAudienceAndIssuerConditionsForDenyPolicy_def GetAudienceAndIssuerConditionsForAllowPolicy_def
      GetBaselineAuthConditionsForDenyPolicy_def GetBaselineAuthConditionsForAllowPolicy_def
      getAudienceAndIssuerConditions_def getBaselineAuthConditions_def comp_def split: option.splits)

lemma denyRulesOf_negated:
  "denyRulesOf (map negated base) r =
     map (\<lambda>c. \<lparr>r_to = [pathsOperation (TransformPathsForIstio (rm_paths r)) (rm_methods r)], r_when = [c]\<rparr>)
       (map negated (base @ whenConditions r))"
  by (simp add: denyRulesOf_def whenConditions_def comp_def split: option.splits)

definition allow_shaped :: "istioCondition \<Rightarrow> bool" where
  "allow_shaped c \<longleftrightarrow> ic_values c \<noteq> [] \<and> ic_notValues c = []"

lemma negated_holds:
  "allow_shaped c \<Longrightarrow> condition_holds vm q (negated c) \<longleftrightarrow> \<not> condition_holds vm q c"
  by (simp add: allow_shaped_def negated_def condition_holds_def denyCondition_def)

lemma base_allow_shaped: "values_given (s_authPolicy s) \<Longrightarrow> list_all allow_shaped (constructBaseConditions s)"
  by (auto simp: values_given_def constructBaseConditions_def allow_shaped_def allowCondition_def list_all_iff
      GetAudienceAndIssuerConditionsForAllowPolicy_def GetBaselineAuthConditionsForAllowPolicy_def
      getAudienceAndIssuerConditions_def getBaselineAuthConditions_def split: option.splits)

lemma when_allow_shaped:
  "values_given ap \<Longrightarrow> r \<in> set (auth_rules ap) \<Longrightarrow> list_all allow_shaped (whenConditions r)"
  by (cases "rar_when r")
    (auto simp: values_given_def whenConditions_def allow_shaped_def allowCondition_def list_all_iff)

text \<open>The generated conditions say what the spec asks for.\<close>

lemma claim_of_claim_key [simp]: "claim_of_key (claim_key claim) = Some claim"
  by (simp add: claim_of_key_def claim_key_def numeral_eq_Suc)

lemma allowCondition_holds:
  "vs \<noteq> [] \<Longrightarrow> condition_holds vm q (allowCondition (claim_key claim) vs) \<longleftrightarrow> claim_among vm q claim vs"
  by (simp add: condition_holds_def allowCondition_def claim_hit_def)

lemma claims_conditions:
  "list_all (\<lambda>c. cond_values c \<noteq> []) cs \<Longrightarrow>
     list_all (condition_holds vm q) (map (\<lambda>c. allowCondition (claim_key (cond_claim c)) (cond_values c)) cs) \<longleftrightarrow>
     claims_given vm q cs"
  unfolding claims_given_def list_all_iff by (auto simp: allowCondition_holds)

lemma base_conditions:
  assumes "values_given (s_authPolicy s)"
  shows "list_all (condition_holds vm q) (constructBaseConditions s) \<longleftrightarrow> base_holds vm s q"
proof -
  let ?b = "spec_baselineAuth (ap_spec (s_authPolicy s))"
  have keys: "''request.auth.claims[iss]'' = claim_key ''iss''" "''request.auth.claims[aud]'' = claim_key ''aud''"
    by (simp_all add: claim_key_def)
  have "list_all (condition_holds vm q) (getBaselineAuthConditions ?b allowCondition) \<longleftrightarrow>
      claims_given vm q (case ?b of None \<Rightarrow> [] | Some b \<Rightarrow> ba_claims b)"
    using assms by (cases ?b) (simp_all add: values_given_def getBaselineAuthConditions_def
        claims_conditions claims_given_def)
  moreover have "list_all (condition_holds vm q) (getAudienceAndIssuerConditions rs iss allowCondition) \<longleftrightarrow>
      claim_among vm q ''iss'' [iss] \<and> (rs = [] \<or> claim_among vm q ''aud'' rs)" for rs iss
    unfolding getAudienceAndIssuerConditions_def keys by (simp add: allowCondition_holds)
  ultimately show ?thesis
    by (simp add: constructBaseConditions_def base_holds_def GetAudienceAndIssuerConditionsForAllowPolicy_def
        GetBaselineAuthConditionsForAllowPolicy_def ConstructAcceptedResources_def Let_def conj_assoc)
qed

lemma own_conditions:
  assumes "values_given ap" and "r \<in> set (auth_rules ap)"
  shows "list_all (condition_holds vm q) (whenConditions r) \<longleftrightarrow> own_holds vm r q"
  using assms unfolding values_given_def list_all_iff [of _ "auth_rules ap"]
  by (cases "rar_when r") (auto simp: whenConditions_def own_holds_def claims_conditions claims_given_def)

lemma ignored_iff:
  "ignored s q \<longleftrightarrow> any_hits (GetIgnoreAuthRequestMatchers (s_authPolicy s)) (rq_path q) (rq_method q)"
  by (auto simp: ignored_def any_hits_iff GetIgnoreAuthRequestMatchers_def list_ex_iff split: option.splits)

section \<open>Which policies match\<close>

text \<open>The facts about a well-formed scope the proofs use.\<close>

lemma scope_facts:
  assumes "well_formed_scope s"
  shows "spec_enabled (ap_spec (s_authPolicy s))" and "\<not> s_invalidConfig s"
    and "m \<in> set (GetRequireAuthRequestMatchers (s_authPolicy s) @ GetIgnoreAuthRequestMatchers (s_authPolicy s)) \<Longrightarrow>
      list_all accepted_path (rm_paths m) \<and> rm_paths m \<noteq> []"
    and "list_all allow_shaped (constructBaseConditions s)"
    and "r \<in> set (auth_rules (s_authPolicy s)) \<Longrightarrow> list_all allow_shaped (whenConditions r)"
    and "list_all (condition_holds vm q) (constructBaseConditions s) \<longleftrightarrow> base_holds vm s q"
    and "r \<in> set (auth_rules (s_authPolicy s)) \<Longrightarrow>
      list_all (condition_holds vm q) (whenConditions r) \<longleftrightarrow> own_holds vm r q"
proof -
  have paths: "\<forall>p \<in> set (GetPaths (s_authPolicy s)). accepted_path p" and given: "paths_given (s_authPolicy s)"
    using assms by (auto simp: well_formed_scope_def ValidatePaths_Inr_iff validatePath_Inr_iff)
  have in_paths: "p \<in> set (GetPaths (s_authPolicy s))"
    if "m \<in> set (GetRequireAuthRequestMatchers (s_authPolicy s) @ GetIgnoreAuthRequestMatchers (s_authPolicy s))"
      "p \<in> set (rm_paths m)" for p
    using that by (auto simp: GetPaths_eq GetAuthorizedPaths_def)
  then show "m \<in> set (GetRequireAuthRequestMatchers (s_authPolicy s) @ GetIgnoreAuthRequestMatchers (s_authPolicy s)) \<Longrightarrow>
      list_all accepted_path (rm_paths m) \<and> rm_paths m \<noteq> []"
    using paths given unfolding paths_given_def list_all_iff by blast
  have given: "values_given (s_authPolicy s)" using assms by (simp add: well_formed_scope_def)
  show "list_all allow_shaped (constructBaseConditions s)"
    "list_all (condition_holds vm q) (constructBaseConditions s) \<longleftrightarrow> base_holds vm s q"
    using base_allow_shaped [OF given] base_conditions [OF given] by simp_all
  show "r \<in> set (auth_rules (s_authPolicy s)) \<Longrightarrow> list_all allow_shaped (whenConditions r)"
    "r \<in> set (auth_rules (s_authPolicy s)) \<Longrightarrow>
      list_all (condition_holds vm q) (whenConditions r) \<longleftrightarrow> own_holds vm r q"
    using when_allow_shaped [OF given] own_conditions [OF given] by simp_all
qed (use assms in \<open>simp_all add: well_formed_scope_def\<close>)

text \<open>An auth rule's own DENY rules match when it applies and one of its conditions fails.\<close>

lemma deny_rule_matches:
  assumes "list_all accepted_path (rm_paths r)" and "rm_paths r \<noteq> []"
    and "list_all allow_shaped (base @ whenConditions r)"
  shows "list_ex (rule_matches vm q) (denyRulesOf (map negated base) r) \<longleftrightarrow>
    rule_hits r q \<and> \<not> list_all (condition_holds vm q) (base @ whenConditions r)"
proof -
  have op: "operation_matches q (pathsOperation (TransformPathsForIstio (rm_paths r)) (rm_methods r)) \<longleftrightarrow> rule_hits r q"
    using pathsOperation_matches [of "requestMatcher.truncate r" q] assms(1, 2) by (simp add: rule_hits_def)
  have "list_ex (rule_matches vm q) (map (\<lambda>c. \<lparr>r_to = [pathsOperation (TransformPathsForIstio (rm_paths r))
      (rm_methods r)], r_when = [c]\<rparr>) (map negated cs)) \<longleftrightarrow>
      (\<exists>c \<in> set cs. rule_hits r q \<and> condition_holds vm q (negated c))" for cs
    by (induction cs) (auto simp: rule_matches_def op)
  from this [of "base @ whenConditions r"]
  have "list_ex (rule_matches vm q) (denyRulesOf (map negated base) r) \<longleftrightarrow>
      (\<exists>c \<in> set (base @ whenConditions r). rule_hits r q \<and> condition_holds vm q (negated c))"
    unfolding denyRulesOf_negated .
  also have "\<dots> \<longleftrightarrow> rule_hits r q \<and> \<not> list_all (condition_holds vm q) (base @ whenConditions r)"
    using assms(3) negated_holds unfolding list_all_iff by blast
  finally show ?thesis .
qed

definition some_rule_fails :: "value_match \<Rightarrow> 'o scope \<Rightarrow> request \<Rightarrow> bool" where
  "some_rule_fails vm s q \<longleftrightarrow>
     (\<exists>r \<in> set (auth_rules (s_authPolicy s)). rule_hits r q \<and>
       \<not> (base_holds vm s q \<and> own_holds vm r q))"

lemma deny_policy:
  assumes "well_formed_scope s"
  shows "(case deny_GetDesired s meta of None \<Rightarrow> False | Some p \<Rightarrow> policy_matches vm q p) \<longleftrightarrow> some_rule_fails vm s q"
proof -
  let ?base = "constructBaseConditions s" and ?rules = "auth_rules (s_authPolicy s)"
  note facts = scope_facts [OF assms]
  have "list_ex (rule_matches vm q) (denyRulesOf (map negated ?base) r) \<longleftrightarrow>
      rule_hits r q \<and> \<not> list_all (condition_holds vm q) (?base @ whenConditions r)" if "r \<in> set ?rules" for r
  proof (rule deny_rule_matches)
    have m: "requestMatcher.truncate r \<in> set (GetRequireAuthRequestMatchers (s_authPolicy s) @
        GetIgnoreAuthRequestMatchers (s_authPolicy s))"
      using that by (simp add: GetRequireAuthRequestMatchers_eq)
    show "list_all accepted_path (rm_paths r)" "rm_paths r \<noteq> []" using facts(3) [OF m] by simp_all
    show "list_all allow_shaped (?base @ whenConditions r)" using facts(4) facts(5) [OF that] by simp
  qed
  then have "(\<exists>r \<in> set ?rules. list_ex (rule_matches vm q) (denyRulesOf (map negated ?base) r)) \<longleftrightarrow>
      some_rule_fails vm s q"
    unfolding some_rule_fails_def by (simp add: facts(6, 7))
  moreover have "(case deny_GetDesired s meta of None \<Rightarrow> False | Some p \<Rightarrow> policy_matches vm q p) \<longleftrightarrow>
      (\<exists>r \<in> set ?rules. list_ex (rule_matches vm q) (denyRulesOf (map negated ?base) r))"
    using facts(1, 2)
    by (auto simp: deny_GetDesired_def auth_rules_def policy_matches_def DenyAuthorizationPolicy_def
        mkAuthorizationPolicy_def deny_base_negated list_ex_iff split: option.splits)
  ultimately show ?thesis by simp
qed

lemma ignore_policy:
  assumes "well_formed_scope s"
  shows "(case ignore_GetDesired s meta of None \<Rightarrow> False | Some p \<Rightarrow> policy_matches vm q p) \<longleftrightarrow> ignored s q"
proof -
  let ?ms = "GetIgnoreAuthRequestMatchers (s_authPolicy s)"
  note facts = scope_facts [OF assms]
  have "operation_matches q (pathsOperation (TransformPathsForIstio (rm_paths m)) (rm_methods m)) \<longleftrightarrow>
      matcher_hits m (rq_path q) (rq_method q)" if "m \<in> set ?ms" for m
    using pathsOperation_matches [of m q] facts(3) [of m] that by simp
  then have "list_ex (operation_matches q)
      (map (\<lambda>m. pathsOperation (TransformPathsForIstio (rm_paths m)) (rm_methods m)) ?ms) \<longleftrightarrow> ignored s q"
    by (auto simp: list_ex_iff ignored_iff any_hits_iff)
  then show ?thesis
    using facts(1, 2)
    by (auto simp: ignore_GetDesired_def policy_matches_def AllowAuthorizationPolicy_def
        mkAuthorizationPolicy_def rule_matches_def ignored_iff any_hits_iff Let_def)
qed

text \<open>The operations for what no matcher mentions.\<close>

lemma unspecified_matches:
  assumes "\<And>m. m \<in> set ms \<Longrightarrow> list_all accepted_path (rm_paths m) \<and> rm_paths m \<noteq> []"
    and "\<not> any_hits ms (rq_path q) (rq_method q)"
  shows "list_ex (operation_matches q) (unspecifiedOperations ms)"
proof (cases "\<exists>m \<in> set ms. list_ex (\<lambda>p. path_denotes p (rq_path q)) (rm_paths m)")
  case True
  then obtain m where m: "m \<in> set ms" "list_ex (\<lambda>p. path_denotes p (rq_path q)) (rm_paths m)" by blast
  with assms(2) have "rm_methods m \<noteq> []" "rq_method q \<notin> set (rm_methods m)"
    by (auto simp: any_hits_iff matcher_hits_def)
  with m assms(1) have "operation_matches q \<lparr>op_paths = TransformPathsForIstio (rm_paths m), op_notPaths = [],
      op_methods = [], op_notMethods = rm_methods m\<rparr>"
    by (simp add: operation_matches_def transformed_denotes)
  with m(1) \<open>rm_methods m \<noteq> []\<close> show ?thesis
    by (auto simp: unspecifiedOperations_def list_ex_iff intro!: bexI [of _ m])
next
  case False
  have "\<not> list_ex (\<lambda>p. path_denotes p (rq_path q)) (TransformPathsForIstio (rm_paths m))" if "m \<in> set ms" for m
    using False that assms(1) by (simp add: transformed_denotes)
  then have "\<not> list_ex (\<lambda>p. path_denotes p (rq_path q)) (concat (map (\<lambda>m. TransformPathsForIstio (rm_paths m)) ms))"
    by (auto simp: list_ex_iff)
  then show ?thesis by (simp add: unspecifiedOperations_def operation_matches_def)
qed

lemma unspecified_unmatched:
  assumes "\<And>m. m \<in> set ms \<Longrightarrow> list_all accepted_path (rm_paths m) \<and> rm_paths m \<noteq> []"
    and "\<exists>m \<in> set ms. matcher_hits m (rq_path q) (rq_method q)"
    and "\<And>m. m \<in> set ms \<Longrightarrow> list_ex (\<lambda>p. path_denotes p (rq_path q)) (rm_paths m) \<Longrightarrow>
      matcher_hits m (rq_path q) (rq_method q)"
    and "rq_method q \<in> set GetAcceptedHTTPMethods"
  shows "\<not> list_ex (operation_matches q) (unspecifiedOperations ms)"
proof -
  have "\<not> operation_matches q \<lparr>op_paths = TransformPathsForIstio (rm_paths m), op_notPaths = [], op_methods = [],
      op_notMethods = (if length (rm_methods m) = 0 then GetAcceptedHTTPMethods else rm_methods m)\<rparr>" if "m \<in> set ms" for m
    using assms(1) [OF that] assms(3) [OF that] assms(4)
    by (auto simp: operation_matches_def transformed_denotes matcher_hits_def)
  moreover obtain m where "m \<in> set ms" "list_ex (\<lambda>p. path_denotes p (rq_path q)) (rm_paths m)"
    using assms(2) by (auto simp: matcher_hits_def)
  then have "list_ex (\<lambda>p. path_denotes p (rq_path q)) (concat (map (\<lambda>m. TransformPathsForIstio (rm_paths m)) ms))"
    using assms(1) transformed_denotes by (fastforce simp: list_ex_iff)
  ultimately show ?thesis
    by (auto simp: unspecifiedOperations_def list_ex_iff operation_matches_def [of q "\<lparr>op_paths = [''*''], op_notPaths = _,
        op_methods = [], op_notMethods = []\<rparr>"])
qed

lemma builtRules_hold_base:
  assumes "list_all2 (builtRule base) rs specified"
    and "list_ex (rule_matches vm q) specified"
  shows "list_all (condition_holds vm q) base"
proof -
  from assms(2) obtain rule where rule: "rule \<in> set specified" "rule_matches vm q rule" by (auto simp: list_ex_iff)
  then obtain r where "builtRule base r rule"
    using assms(1) by (auto simp: list_all2_conv_all_nth in_set_conv_nth)
  with rule(2) show ?thesis by (auto simp: builtRule_def rule_matches_def)
qed

context growth
begin

lemma require_exists:
  assumes "well_formed_scope s"
  shows "\<exists>rules. require_GetDesired newcap s meta = Some (AllowAuthorizationPolicy s meta rules)"
  using require_all_paths [OF scope_facts(1, 2) [OF assms]] require_rules [OF scope_facts(1, 2) [OF assms]]
  by blast

lemma require_sound:
  assumes "well_formed_scope s" and "require_GetDesired newcap s meta = Some p" and "policy_matches vm q p"
  shows "base_holds vm s q"
proof -
  note base = scope_facts(6) [OF assms(1), of vm q]
  show ?thesis
  proof (cases "auth_rules (s_authPolicy s) = [] \<and> GetIgnoreAuthRequestMatchers (s_authPolicy s) = []")
    case True
    then show ?thesis
      using require_all_paths [OF scope_facts(1, 2) [OF assms(1)]] assms(2, 3)
      by (auto simp: policy_matches_def AllowAuthorizationPolicy_def mkAuthorizationPolicy_def rule_matches_def
          base [symmetric])
  next
    case False
    then show ?thesis
      using require_rules [OF scope_facts(1, 2) [OF assms(1)], of meta] assms(2, 3) builtRules_hold_base
      by (auto simp: policy_matches_def AllowAuthorizationPolicy_def mkAuthorizationPolicy_def
          base [symmetric] rule_matches_def [of vm q "\<lparr>r_to = _, r_when = _\<rparr>"])
  qed
qed

lemma require_complete:
  assumes "well_formed_scope s" and "require_GetDesired newcap s meta = Some p"
    and "newcap 0 (length (constructBaseConditions s)) = length (constructBaseConditions s)"
    and "base_holds vm s q" and "\<not> some_rule_fails vm s q" and "\<not> ignored s q"
  shows "policy_matches vm q p"
proof (cases "auth_rules (s_authPolicy s) = [] \<and> GetIgnoreAuthRequestMatchers (s_authPolicy s) = []")
  case True
  have "operation_matches q (pathsOperation [''*''] [])" by (simp add: operation_matches_def pathsOperation_def)
  then show ?thesis
    using True require_all_paths [OF scope_facts(1, 2) [OF assms(1)]] assms(2, 4)
    by (auto simp: policy_matches_def AllowAuthorizationPolicy_def mkAuthorizationPolicy_def rule_matches_def
        scope_facts(6) [OF assms(1)])
next
  case False
  let ?base = "constructBaseConditions s" and ?ap = "s_authPolicy s"
  let ?ms = "GetRequireAuthRequestMatchers ?ap @ GetIgnoreAuthRequestMatchers ?ap"
  have p: "azp_rules p = \<lparr>r_to = unspecifiedOperations ?ms, r_when = ?base\<rparr> # map (intendedRule ?base) (auth_rules ?ap)"
    using require_rules [OF scope_facts(1, 2) [OF assms(1)], of meta] False assms(2, 3)
    by (auto simp: AllowAuthorizationPolicy_def mkAuthorizationPolicy_def)
  have "list_ex (rule_matches vm q) (azp_rules p)"
  proof (cases "any_hits (GetRequireAuthRequestMatchers ?ap) (rq_path q) (rq_method q)")
    case True
    then obtain r where r: "r \<in> set (auth_rules ?ap)" "rule_hits r q"
      by (auto simp: any_hits_iff GetRequireAuthRequestMatchers_eq rule_hits_def)
    have m: "requestMatcher.truncate r \<in> set ?ms" using r(1) by (simp add: GetRequireAuthRequestMatchers_eq)
    then have "operation_matches q (pathsOperation (TransformPathsForIstio (rm_paths r)) (rm_methods r))"
      using scope_facts(3) [OF assms(1) m] pathsOperation_matches [of "requestMatcher.truncate r" q] r(2)
      by (simp add: rule_hits_def)
    moreover have "list_all (condition_holds vm q) (?base @ whenConditions r)"
      using assms(5) r scope_facts(6, 7) [OF assms(1)] by (auto simp: some_rule_fails_def)
    ultimately have "rule_matches vm q (intendedRule ?base r)"
      by (simp add: rule_matches_def intendedRule_def)
    then show ?thesis using r(1) by (auto simp: p list_ex_iff)
  next
    case False
    then have "\<not> any_hits ?ms (rq_path q) (rq_method q)" using assms(6) by (simp add: ignored_iff)
    with scope_facts(3) [OF assms(1)] have "list_ex (operation_matches q) (unspecifiedOperations ?ms)"
      by (rule unspecified_matches)
    then have "rule_matches vm q \<lparr>r_to = unspecifiedOperations ?ms, r_when = ?base\<rparr>"
      using assms(4) by (simp add: rule_matches_def scope_facts(6) [OF assms(1)])
    then show ?thesis by (simp add: p)
  qed
  then show ?thesis by (simp add: policy_matches_def)
qed

end

section \<open>The decision\<close>

lemma deny_action: "deny_GetDesired s meta = Some p \<Longrightarrow> azp_action p = DENY"
  by (auto simp: deny_GetDesired_def DenyAuthorizationPolicy_def mkAuthorizationPolicy_def
      split: if_splits option.splits)

lemma ignore_action: "ignore_GetDesired s meta = Some p \<Longrightarrow> azp_action p = ALLOW"
  by (auto simp: ignore_GetDesired_def AllowAuthorizationPolicy_def mkAuthorizationPolicy_def Let_def
      split: if_splits)

lemma require_action: "require_GetDesired newcap s meta = Some p \<Longrightarrow> azp_action p = ALLOW"
  by (auto simp: require_GetDesired_def AllowAuthorizationPolicy_def mkAuthorizationPolicy_def Let_def
      split: if_splits prod.splits)

lemma set_map_filter_opts: "set (List.map_filter (\<lambda>x. x) xs) = {x. Some x \<in> set xs}"
  by (induction xs) (auto simp: List.map_filter_simps split: option.splits)

lemma intended_access_iff:
  "intended_access vm s q \<longleftrightarrow> \<not> some_rule_fails vm s q \<and> (ignored s q \<or> base_holds vm s q)"
  by (auto simp: intended_access_def some_rule_fails_def list_all_iff)

text \<open>The decision of an engine on the policies of a scope, in terms of the three policies.\<close>

lemma decision:
  assumes "istio_engine allows vm" and "growth newcap" and "well_formed_scope s"
  shows "allows (access_policies newcap s) q \<longleftrightarrow>
    \<not> some_rule_fails vm s q \<and>
    (ignored s q \<or> (\<exists>p. require_GetDesired newcap s (buildObjectMeta (RequirePolicyName (ap_name (s_authPolicy s)))
        (ap_namespace (s_authPolicy s))) = Some p \<and> policy_matches vm q p))"
proof -
  let ?meta = "\<lambda>n. buildObjectMeta n (ap_namespace (s_authPolicy s))"
  let ?n = "ap_name (s_authPolicy s)"
  let ?d = "deny_GetDesired s (?meta (DenyPolicyName ?n))"
  let ?i = "ignore_GetDesired s (?meta (IgnorePolicyName ?n))"
  let ?r = "require_GetDesired newcap s (?meta (RequirePolicyName ?n))"
  have mem: "p \<in> set (access_policies newcap s) \<longleftrightarrow> ?d = Some p \<or> ?i = Some p \<or> ?r = Some p" for p
    unfolding access_policies_def Let_def set_map_filter_opts by auto
  obtain pr where pr: "?r = Some pr" using growth.require_exists [OF assms(2, 3)] by blast
  have "\<exists>p \<in> set (access_policies newcap s). azp_action p = ALLOW"
    using pr require_action mem by blast
  note eq = istio_engine.allows_iff [OF assms(1) this]
  have deny: "(\<exists>d \<in> set (access_policies newcap s). azp_action d = DENY \<and> policy_matches vm q d) \<longleftrightarrow>
      (case ?d of None \<Rightarrow> False | Some p \<Rightarrow> policy_matches vm q p)"
    using deny_action ignore_action require_action by (fastforce simp: mem split: option.splits)
  have allow: "(\<exists>d \<in> set (access_policies newcap s). azp_action d = ALLOW \<and> policy_matches vm q d) \<longleftrightarrow>
      (case ?i of None \<Rightarrow> False | Some p \<Rightarrow> policy_matches vm q p) \<or> policy_matches vm q pr"
    using deny_action ignore_action require_action pr by (fastforce simp: mem split: option.splits)
  show ?thesis
    unfolding eq deny allow deny_policy [OF assms(3)] ignore_policy [OF assms(3)] using pr by auto
qed

section \<open>Examples\<close>

lemma access_sound:
  assumes "istio_engine allows vm" and "growth newcap" and "well_formed_scope s"
    and "allows (access_policies newcap s) q"
  shows "intended_access vm s q"
  using decision [OF assms(1-3), of q] assms(4) growth.require_sound [OF assms(2, 3)]
  by (auto simp: intended_access_iff)

text \<open>A scope with five base conditions and two auth rules that have conditions, and requests.\<close>

definition aliased_rule :: "string \<Rightarrow> string \<Rightarrow> requestAuthRule" where
  "aliased_rule path claim = \<lparr>rm_paths = [path], rm_methods = [],
     rar_when = Some [\<lparr>cond_claim = claim, cond_values = [''1'']\<rparr>], rar_denyRedirect = None\<rparr>"

definition aliased_scope :: "unit scope" where
  "aliased_scope = example_scope\<lparr>s_authPolicy := example_policy\<lparr>ap_spec := example_spec
     \<lparr>spec_baselineAuth := Some \<lparr>ba_claims = map (\<lambda>c. \<lparr>cond_claim = c, cond_values = [''1'']\<rparr>) [''a'', ''b'', ''c'']\<rparr>,
      spec_authRules := Some [aliased_rule ''/x'' ''x'', aliased_rule ''/y'' ''y'']\<rparr>\<rparr>\<rparr>"

definition aliased_request :: request where
  "aliased_request = \<lparr>rq_path = ''/x'', rq_method = ''GET'',
     rq_claims = map (\<lambda>(c, v). (c, [v]))
       [(''iss'', ''https://idp''), (''aud'', ''aud''), (''a'', ''1''), (''b'', ''1''), (''c'', ''1''), (''x'', ''1'')]\<rparr>"

definition public_request :: request where
  "public_request = \<lparr>rq_path = ''/public/x'', rq_method = ''GET'', rq_claims = []\<rparr>"

section \<open>Properties\<close>

text \<open>C1: for an enabled, valid AuthPolicy whose matchers name paths and whose conditions name values, and
  with any growth of slices, a request that Istio admits under the generated policies has what the
  AuthPolicy asks for, read off its spec without the generators.  Unless an ignore rule applies to it
  and no auth rule does, it carries the provider's issuer, an audience among the allowed audiences and accepted
  resources (if there are any), and for each baseline claim one of its values; and for each auth rule
  that applies, one of the values of each claim that the rule names.\<close>

theorem access_never_exceeds_policy:
  assumes "istio_engine allows vm" and "growth newcap" and "well_formed_scope s"
    and "allows (access_policies newcap s) q"
  shows "intended_access vm s q"
  using assms by (rule access_sound)

theorem access_never_exceeds_policy_witness: "intended_access (=) example_scope public_request"
proof (rule access_never_exceeds_policy)
  show "istio_engine (istio_reference (=)) (=)" by (rule reference.istio_engine_axioms)
  show "growth go_newcap" by (rule go_growth.growth_axioms)
  show "well_formed_scope example_scope" by code_simp
  show "istio_reference (=) (access_policies go_newcap example_scope) public_request" by code_simp
qed



text \<open>C35: with spare capacity they do not, when every auth rule has exactly one condition: the
  conditions of all rules are written to the same place of the shared array, so that a request on
  the paths of one rule is rejected unless it satisfies the condition of the last rule.\<close>

theorem shared_array_rejects:
  assumes "istio_engine allows vm" and "growth newcap" and "well_formed_scope s"
    and "length (constructBaseConditions s) < newcap 0 (length (constructBaseConditions s))"
    and "list_all (\<lambda>r. \<exists>c. rar_when r = Some [c]) (auth_rules (s_authPolicy s))"
    and "r \<in> set (auth_rules (s_authPolicy s))" and "rule_hits r q" and "\<not> ignored s q"
    and "rq_method q \<in> set GetAcceptedHTTPMethods"
    and "list_all (\<lambda>m. list_ex (\<lambda>p. path_denotes p (rq_path q)) (rm_paths m) \<longrightarrow>
        matcher_hits m (rq_path q) (rq_method q))
      (GetRequireAuthRequestMatchers (s_authPolicy s) @ GetIgnoreAuthRequestMatchers (s_authPolicy s))"
    and "\<not> own_holds vm (last (auth_rules (s_authPolicy s))) q"
  shows "\<not> allows (access_policies newcap s) q"
proof -
  let ?rules = "auth_rules (s_authPolicy s)" and ?base = "constructBaseConditions s"
  let ?ms = "GetRequireAuthRequestMatchers (s_authPolicy s) @ GetIgnoreAuthRequestMatchers (s_authPolicy s)"
  note facts = scope_facts [OF assms(3)]
  have one: "length (whenConditions r) = 1" if "r \<in> set ?rules" for r
    using assms(5) that by (auto simp: list_all_iff whenConditions_def)
  have rules: "?rules \<noteq> []" using assms(6) by auto
  have "requestMatcher.truncate r \<in> set ?ms" using assms(6) by (simp add: GetRequireAuthRequestMatchers_eq)
  then have "\<not> list_ex (operation_matches q) (unspecifiedOperations ?ms)"
    using unspecified_unmatched [OF facts(3), of ?ms] assms(7, 9, 10) by (auto simp: rule_hits_def list_all_iff)
  moreover have "\<not> list_all (condition_holds vm q) (whenConditions (last ?rules))"
    using facts(7) [of "last ?rules" vm q] assms(11) rules by simp
  ultimately have "\<not> list_ex (rule_matches vm q) (\<lparr>r_to = unspecifiedOperations ?ms, r_when = ?base\<rparr> #
      map (\<lambda>r. \<lparr>r_to = r_to (intendedRule [] r), r_when = ?base @ whenConditions (last ?rules)\<rparr>) ?rules)"
    by (auto simp: rule_matches_def list_ex_iff intendedRule_def unspecifiedOperations_def)
  then show ?thesis
    unfolding decision [OF assms(1-3)]
    using assms(8) growth.shared_require_rules [OF assms(2) facts(1, 2) rules one assms(4)]
    by (simp add: policy_matches_def AllowAuthorizationPolicy_def mkAuthorizationPolicy_def)
qed

theorem shared_array_rejects_witness:
  "well_formed_scope aliased_scope \<and> intended_access (=) aliased_scope aliased_request \<and>
   \<not> istio_reference (=) (access_policies go_newcap aliased_scope) aliased_request"
proof (intro conjI)
  show "\<not> istio_reference (=) (access_policies go_newcap aliased_scope) aliased_request"
  proof (rule shared_array_rejects [OF reference.istio_engine_axioms go_growth.growth_axioms])
    show "aliased_rule ''/x'' ''x'' \<in> set (auth_rules (s_authPolicy aliased_scope))" by code_simp
    show "list_all (\<lambda>r. \<exists>c. rar_when r = Some [c]) (auth_rules (s_authPolicy aliased_scope))"
      by (simp add: auth_rules_def aliased_scope_def aliased_rule_def)
  qed code_simp+
qed code_simp+

text \<open>C20: an enabled AuthPolicy with an invalid configuration denies every request.\<close>

theorem invalid_config_denies_all:
  assumes "istio_engine allows vm" and "spec_enabled (ap_spec (s_authPolicy s))" and "s_invalidConfig s"
  shows "\<not> allows (access_policies newcap s) q"
proof -
  let ?p = "DenyAuthorizationPolicy s (buildObjectMeta (DenyPolicyName (ap_name (s_authPolicy s)))
    (ap_namespace (s_authPolicy s))) [\<lparr>r_to = [pathsOperation [''*''] []], r_when = []\<rparr>]"
  have "?p \<in> set (access_policies newcap s)"
    using assms(2, 3) unfolding access_policies_def Let_def set_map_filter_opts
    by (simp add: deny_GetDesired_def)
  moreover have "azp_action ?p = DENY" "policy_matches vm q ?p"
    by (simp_all add: DenyAuthorizationPolicy_def mkAuthorizationPolicy_def policy_matches_def
        rule_matches_def operation_matches_def pathsOperation_def)
  ultimately show ?thesis by (rule istio_engine.denied [OF assms(1)])
qed

theorem invalid_config_denies_all_witness:
  "\<not> istio_reference (=) (access_policies go_newcap (example_scope\<lparr>s_invalidConfig := True\<rparr>)) public_request"
  by (rule invalid_config_denies_all [OF reference.istio_engine_axioms]; code_simp)



end
