(* ===== verification/Utf8.thy ===== *)
theory Utf8
  imports Prelude
begin

text \<open>
  Valid UTF-8 texts, as \<open>unicode/utf8\<close> defines them: the width of the character at the head of a text,
  the texts that are sequences of characters, and the operations on strings that keep a text valid
  because they look for and insert whole characters only.
\<close>

section \<open>Characters\<close>

text \<open>A character has one to four bytes; the width is 0 where a text is malformed.\<close>

definition in_range :: "nat \<Rightarrow> nat \<Rightarrow> string \<Rightarrow> nat \<Rightarrow> bool" where
  "in_range lo hi s i \<longleftrightarrow> i < length s \<and> lo \<le> of_char (s ! i) \<and> of_char (s ! i) \<le> hi"

definition one_byte :: "string \<Rightarrow> bool" where
  "one_byte s \<longleftrightarrow> in_range 0 127 s 0"

definition two_bytes :: "string \<Rightarrow> bool" where
  "two_bytes s \<longleftrightarrow> in_range 194 223 s 0 \<and> in_range 128 191 s 1"

definition three_bytes :: "string \<Rightarrow> bool" where
  "three_bytes s \<longleftrightarrow>
     (in_range 224 224 s 0 \<and> in_range 160 191 s 1 \<or> in_range 225 236 s 0 \<and> in_range 128 191 s 1 \<or>
      in_range 237 237 s 0 \<and> in_range 128 159 s 1 \<or> in_range 238 239 s 0 \<and> in_range 128 191 s 1) \<and>
     in_range 128 191 s 2"

definition four_bytes :: "string \<Rightarrow> bool" where
  "four_bytes s \<longleftrightarrow>
     (in_range 240 240 s 0 \<and> in_range 144 191 s 1 \<or> in_range 241 243 s 0 \<and> in_range 128 191 s 1 \<or>
      in_range 244 244 s 0 \<and> in_range 128 143 s 1) \<and>
     in_range 128 191 s 2 \<and> in_range 128 191 s 3"

definition utf8_width :: "string \<Rightarrow> nat" where
  "utf8_width s =
     (if one_byte s then 1 else if two_bytes s then 2 else if three_bytes s then 3
      else if four_bytes s then 4 else 0)"

lemmas byte_counts = one_byte_def two_bytes_def three_bytes_def four_bytes_def

section \<open>Valid texts\<close>

definition ascii_text :: "string \<Rightarrow> bool" where
  "ascii_text s \<longleftrightarrow> list_all (\<lambda>c. \<not> digit7 c) s"

lemma digit7_iff: "digit7 c \<longleftrightarrow> 128 \<le> (of_char c :: nat)"
  by (cases c) (simp add: of_char_def)

function utf8_valid :: "string \<Rightarrow> bool" where
  "utf8_valid s =
     (if s = [] then True else if utf8_width s = 0 then False else utf8_valid (drop (utf8_width s) s))"
  by pat_completeness auto
termination
  by (relation "measure length") auto

declare utf8_valid.simps [simp del]

definition utf8_char :: "string \<Rightarrow> bool" where
  "utf8_char c \<longleftrightarrow> c \<noteq> [] \<and> utf8_width c = length c"

lemma in_range_take: "in_range lo hi (take w s) i \<longleftrightarrow> i < w \<and> in_range lo hi s i"
  by (auto simp: in_range_def)

lemma in_range_append: "n \<le> length c \<Longrightarrow> i < n \<Longrightarrow> in_range lo hi (c @ s) i \<longleftrightarrow> in_range lo hi c i"
  by (simp add: in_range_def nth_append)

lemma bytes_take:
  "1 \<le> w \<Longrightarrow> one_byte (take w s) \<longleftrightarrow> one_byte s"
  "2 \<le> w \<Longrightarrow> two_bytes (take w s) \<longleftrightarrow> two_bytes s"
  "3 \<le> w \<Longrightarrow> three_bytes (take w s) \<longleftrightarrow> three_bytes s"
  "4 \<le> w \<Longrightarrow> four_bytes (take w s) \<longleftrightarrow> four_bytes s"
  by (simp_all add: byte_counts in_range_take)

lemma bytes_append:
  "1 \<le> length c \<Longrightarrow> one_byte (c @ s) \<longleftrightarrow> one_byte c"
  "2 \<le> length c \<Longrightarrow> two_bytes (c @ s) \<longleftrightarrow> two_bytes c"
  "3 \<le> length c \<Longrightarrow> three_bytes (c @ s) \<longleftrightarrow> three_bytes c"
  "4 \<le> length c \<Longrightarrow> four_bytes (c @ s) \<longleftrightarrow> four_bytes c"
  by (simp_all add: byte_counts in_range_append)

lemma byte_lengths:
  "one_byte s \<Longrightarrow> 0 < length s" "two_bytes s \<Longrightarrow> 1 < length s"
  "three_bytes s \<Longrightarrow> 2 < length s" "four_bytes s \<Longrightarrow> 3 < length s"
  by (simp_all add: byte_counts in_range_def)

lemma utf8_width_length: "utf8_width s \<le> length s"
  using byte_lengths [of s] by (auto simp: utf8_width_def Suc_le_eq)

lemma utf8_char_take:
  assumes "utf8_width s \<noteq> 0"
  shows "utf8_char (take (utf8_width s) s)"
proof -
  have "utf8_width (take (utf8_width s) s) = utf8_width s"
    using assms by (auto simp: utf8_width_def bytes_take split: if_splits)
  then show ?thesis using assms utf8_width_length [of s] by (auto simp: utf8_char_def)
qed

lemma utf8_width_append:
  assumes "utf8_char c"
  shows "utf8_width (c @ s) = length c"
proof -
  have "utf8_width c = length c" "c \<noteq> []" using assms by (auto simp: utf8_char_def)
  then show ?thesis using bytes_append [of c s] by (simp add: utf8_width_def split: if_splits)
qed

lemma utf8_valid_Nil [simp]: "utf8_valid []"
  by (simp add: utf8_valid.simps)

lemma utf8_valid_char: "utf8_char c \<Longrightarrow> utf8_valid (c @ s) \<longleftrightarrow> utf8_valid s"
  by (subst utf8_valid.simps) (auto simp: utf8_width_append utf8_char_def)

lemma utf8_induct [consumes 1, case_names Nil Cons]:
  assumes "utf8_valid s" and "P []" and "\<And>c r. utf8_char c \<Longrightarrow> utf8_valid r \<Longrightarrow> P r \<Longrightarrow> P (c @ r)"
  shows "P s"
  using assms(1)
proof (induction s rule: utf8_valid.induct)
  case (1 s)
  show ?case
  proof (cases "s = []")
    case False
    then have w: "utf8_width s \<noteq> 0" "utf8_valid (drop (utf8_width s) s)"
      using 1(2) by (auto simp: utf8_valid.simps [of s] split: if_splits)
    then have "P (drop (utf8_width s) s)" using 1(1) False by blast
    from assms(3) [OF utf8_char_take [OF w(1)] w(2) this] show ?thesis by simp
  qed (simp add: assms(2))
qed

lemma utf8_valid_cases [consumes 1, case_names Nil Cons]:
  assumes "utf8_valid s"
  obtains "s = []" | c r where "s = c @ r" "utf8_char c" "utf8_valid r"
  using assms by (induction rule: utf8_induct) blast+

lemma utf8_valid_append [simp]: "utf8_valid s \<Longrightarrow> utf8_valid (s @ t) \<longleftrightarrow> utf8_valid t"
  by (induction rule: utf8_induct) (simp_all add: utf8_valid_char)

lemma ascii_char: "(of_char c :: nat) < 128 \<Longrightarrow> utf8_char [c]"
  by (simp add: utf8_char_def utf8_width_def one_byte_def in_range_def)

lemma ascii_valid: "ascii_text s \<Longrightarrow> utf8_valid s"
proof (induction s)
  case (Cons c s)
  then show ?case using utf8_valid_char [OF ascii_char, of c s] by (simp add: ascii_text_def digit7_iff)
qed simp

lemma utf8_valid_Cons [simp]: "(of_char c :: nat) < 128 \<Longrightarrow> utf8_valid (c # s) \<longleftrightarrow> utf8_valid s"
  using utf8_valid_char [OF ascii_char, of c s] by simp

lemma utf8_valid_concat: "list_all utf8_valid ss \<Longrightarrow> utf8_valid (concat ss)"
  by (induction ss) auto

lemma utf8_char_cases:
  assumes "utf8_char c"
  obtains x where "c = [x]" "(of_char x :: nat) < 128" | "\<forall>x \<in> set c. 128 \<le> (of_char x :: nat)"
proof -
  have w: "utf8_width c = length c" "c \<noteq> []" using assms by (auto simp: utf8_char_def)
  then consider "length c = 1" "one_byte c" | "length c = 2" "two_bytes c" | "length c = 3" "three_bytes c"
    | "length c = 4" "four_bytes c"
    by (simp add: utf8_width_def split: if_splits)
  then show thesis
  proof cases
    case 1
    then show thesis using that(1) by (auto simp: one_byte_def in_range_def length_Suc_conv)
  next
    case 2
    then have "\<forall>i < 2. 128 \<le> (of_char (c ! i) :: nat)"
      by (auto simp: two_bytes_def in_range_def less_Suc_eq numeral_2_eq_2)
    with 2 that(2) show thesis by (simp add: all_set_conv_all_nth)
  next
    case 3
    then have "\<forall>i < 3. 128 \<le> (of_char (c ! i) :: nat)"
      by (auto simp: three_bytes_def in_range_def less_Suc_eq numeral_eq_Suc)
    with 3 that(2) show thesis by (simp add: all_set_conv_all_nth)
  next
    case 4
    then have "\<forall>i < 4. 128 \<le> (of_char (c ! i) :: nat)"
      by (auto simp: four_bytes_def in_range_def less_Suc_eq numeral_eq_Suc)
    with 4 that(2) show thesis by (simp add: all_set_conv_all_nth)
  qed
qed


section \<open>Operations on valid texts\<close>

lemma ReplaceBytes_valid:
  assumes "utf8_valid s" and "\<forall>(k, v) \<in> set tbl. (of_char k :: nat) < 128 \<and> utf8_valid v"
  shows "utf8_valid (ReplaceBytes tbl s)"
  using assms(1)
proof (induction rule: utf8_induct)
  case (Cons c r)
  have "utf8_valid (ReplaceBytes tbl c)"
    using Cons(1)
  proof (cases rule: utf8_char_cases)
    case (1 x)
    then show ?thesis
      using assms(2) by (auto simp: ReplaceBytes_def dest: map_of_SomeD split: option.splits)
  next
    case 2
    then have "map_of tbl x = None" if "x \<in> set c" for x
      using assms(2) that by (cases "map_of tbl x") (fastforce dest: map_of_SomeD)+
    then have "ReplaceBytes tbl c = concat (map (\<lambda>x. [x]) c)"
      unfolding ReplaceBytes_def by (intro arg_cong [where f = concat] map_cong) auto
    then show ?thesis using utf8_valid_char [OF Cons(1), of "[]"] by simp
  qed
  then show ?case using Cons(3) by simp
qed (simp add: ReplaceBytes_def)

lemma ReplaceAll_valid:
  assumes "old \<noteq> []" and "ascii_text old" and "utf8_valid new"
  shows "utf8_valid s \<Longrightarrow> utf8_valid (ReplaceAll old new s)"
proof (induction "length s" arbitrary: s rule: less_induct)
  case less
  obtain o' os where old: "old = o' # os" using assms(1) by (cases old) auto
  show ?case
  proof (cases "HasPrefix s old")
    case True
    then obtain r where r: "s = old @ r" by (auto simp: HasPrefix_iff)
    with less(2) have "utf8_valid r" using ascii_valid [OF assms(2)] by simp
    with less(1) [of r] r show ?thesis using assms by (simp add: ReplaceAll_hit)
  next
    case False
    show ?thesis
      using less(2)
    proof (cases rule: utf8_valid_cases)
      case (Cons c r)
      then have IH: "utf8_valid (ReplaceAll old new r)" using less(1) [of r] by (simp add: utf8_char_def)
      from Cons(2) show ?thesis
      proof (cases rule: utf8_char_cases)
        case (1 x)
        then show ?thesis using IH False Cons(1) by (simp add: ReplaceAll_miss)
      next
        case 2
        then have "o' \<notin> set c" using assms(2) old by (auto simp: ascii_text_def digit7_iff)
        then show ?thesis using IH Cons old by (simp add: ReplaceAll_skip utf8_valid_char)
      qed
    qed (simp add: ReplaceAll.simps)
  qed
qed

end
