(* ===== verification/ScriptText.thy ===== *)
theory ScriptText
  imports LuaFilter Utf8
begin

text \<open>
  The generated script is a valid UTF-8 text when the texts of the policy and the endpoints of its
  identity provider are, whether or not the paths are valid: no step of \<open>pkg/luascript\<close> cuts a
  character in two.
\<close>

section \<open>Escaping and formatting\<close>

lemma QueryEscape_ascii: "ascii_text (QueryEscape s)"
  using set_QueryEscape [of _ s] by (fastforce simp: ascii_text_def list_all_iff query_unreserved_def ascii_alnum_def)

lemma EscapeLuaString_valid: "utf8_valid s \<Longrightarrow> utf8_valid (EscapeLuaString s)"
  unfolding EscapeLuaString_def
  by (erule ReplaceBytes_valid) (simp add: lua_string_escapes_def quote_char_def backslash_def)

lemma extra_valid: "list_all utf8_valid args \<Longrightarrow> utf8_valid (extra_text args)"
proof -
  assume a: "list_all utf8_valid args"
  have "utf8_valid (concat (map (\<lambda>x. '', string='' @ x) as))" if "list_all utf8_valid as" for as
    using that by (induction as) simp_all
  with a show ?thesis by (cases args) (simp_all add: extra_text_def utf8_valid_append del: append_Cons)
qed

lemma Sprintf_valid: "ascii_text f \<Longrightarrow> list_all utf8_valid args \<Longrightarrow> utf8_valid (Sprintf f args)"
  by (induction f args rule: Sprintf.induct) (auto simp: ascii_text_def digit7_iff extra_valid split: list.splits)

lemma JoinByte_ascii: "list_all ascii_text ws \<Longrightarrow> \<not> digit7 sep \<Longrightarrow> ascii_text (JoinByte sep ws)"
  by (induction sep ws rule: JoinByte.induct) (simp_all add: ascii_text_def)

lemma functions_ascii: "list_all ascii_text template_functions"
  by (simp only: template_functions_def list.pred_inject ascii_text_def append_Cons append_Nil quote_char_def backslash_def char.sel not_False_eq_True simp_thms)

lemma globals_ascii: "list_all ascii_text template_globals"
  by (simp add: template_globals_def ascii_text_def quote_char_def)


section \<open>The script\<close>

definition matcher_texts :: "requestMatcher list \<Rightarrow> string list" where
  "matcher_texts ms = concat (map (\<lambda>m. rm_paths m @ rm_methods m) ms)"

lemma pattern_valid:
  assumes "ConvertRequestMatcherPathToLuaPattern p = Some pat" and "utf8_valid p"
  shows "utf8_valid pat"
proof -
  have "utf8_valid (ReplaceAll old new s)"
    if "old \<in> {''}'', ''{'', ''*'', ''**'', singleStarPlaceholder, doubleStarPlaceholder}"
      "new \<in> {[], ''**'', singleStarPlaceholder, doubleStarPlaceholder, ''.*'', ''[^/]+''}" "utf8_valid s" for old new s
    using that by (intro ReplaceAll_valid) (auto simp: ascii_text_def singleStarPlaceholder_def doubleStarPlaceholder_def)
  moreover have "utf8_valid (ReplaceBytes lua_pattern_escapes s)" if "utf8_valid s" for s
    using that by (rule ReplaceBytes_valid) (simp add: lua_pattern_escapes_def)
  ultimately have "utf8_valid q" if "toLuaPattern p = Some q" for q
    using that assms(2) by (auto simp: toLuaPattern_def escapeLuaPatternChars_def Let_def split: if_splits)
  then show ?thesis using assms(1) by (auto simp: ConvertRequestMatcherPathToLuaPattern_def)
qed

lemma methods_text_valid: "list_all utf8_valid ms \<Longrightarrow> utf8_valid (methods_text ms)"
  by (induction ms rule: methods_text.induct) (simp_all add: method_text_def EscapeLuaString_valid quote_char_def)

lemma entries_valid:
  "entries_loop first es = Some t \<Longrightarrow> list_all (\<lambda>(p, ms). utf8_valid p \<and> list_all utf8_valid ms) es \<Longrightarrow> utf8_valid t"
proof (induction first es arbitrary: t rule: entries_loop.induct)
  case (2 first p ms es)
  then obtain pat rest where "ConvertRequestMatcherPathToLuaPattern p = Some pat" "entries_loop False es = Some rest"
    and t: "t = (if first then [] else '','') @ (''{regex='' @ [quote_char] @ pat @ [quote_char] @ '',methods={'' @
      methods_text ms @ ''}}'') @ rest"
    by (auto simp: entry_text_def bind_eq_Some_conv)
  with 2 have "utf8_valid pat" "utf8_valid rest" "utf8_valid (methods_text ms)"
    by (auto intro: pattern_valid methods_text_valid simp: entry_text_def)
  then show ?case by (simp add: t quote_char_def)
qed simp

lemma table_valid:
  assumes "ConvertRequestMatchersToLuaTableString ms = Some t" and "list_all utf8_valid (matcher_texts ms)"
  shows "utf8_valid t"
proof -
  have "list_all (\<lambda>(p, ms). utf8_valid p \<and> list_all utf8_valid ms) (matcher_entries ms)"
    using assms(2) by (fastforce simp: matcher_entries_def matcher_texts_def list_all_iff)
  with assms(1) show ?thesis by (auto simp: ConvertRequestMatchersToLuaTableString_def dest: entries_valid)
qed

lemma params_valid: "list_all utf8_valid (map fst params) \<Longrightarrow> utf8_valid (ConvertLoginParamsToLuaParams params)"
proof -
  assume keys: "list_all utf8_valid (map fst params)"
  have escaped: "utf8_valid (map_index (encodeLoginParams params) k)" for k
    by (simp add: map_index_def encodeLoginParams_lookup ascii_valid QueryEscape_ascii split: option.splits)
  have "utf8_valid (params_loop first (encodeLoginParams params) ks)" if "list_all utf8_valid ks" for first ks
    using that by (induction ks arbitrary: first)
      (simp_all add: param_text_def escaped EscapeLuaString_valid quote_char_def)
  moreover have "list_all utf8_valid (sort (map fst (encodeLoginParams params)))"
    using keys by (simp add: list_all_iff)
  ultimately show ?thesis by (simp add: ConvertLoginParamsToLuaParams_def Let_def)
qed

lemma template_ascii: "ascii_text luaScriptTemplate"
  unfolding luaScriptTemplate_def using functions_ascii globals_ascii by (intro JoinByte_ascii) simp_all

definition script_texts :: "authPolicy \<Rightarrow> autoLoginConfig \<Rightarrow> identityProviderUris \<Rightarrow> string list" where
  "script_texts ap cfg uris =
     matcher_texts (IgnoreAuthMatchers (spec_ignoreAuthRules (ap_spec ap))) @
     matcher_texts (RequireAuthMatchers (spec_authRules (ap_spec ap)) cfg) @
     matcher_texts (DenyRedirectMatchers (spec_authRules (ap_spec ap))) @
     map fst (alc_loginParams cfg) @
     [idp_authorizationURI uris, case idp_endSessionURI uris of None \<Rightarrow> [] | Some u \<Rightarrow> u]"

lemma script_valid:
  assumes "GenerateLuaScript ap cfg uris = Some t" and "list_all utf8_valid (script_texts ap cfg uris)"
  shows "utf8_valid t"
proof -
  have headers: "utf8_valid BypassOauthLoginHeaderName" "utf8_valid DenyRedirectHeaderName"
    by (simp_all add: BypassOauthLoginHeaderName_def DenyRedirectHeaderName_def)
  have "utf8_valid (EscapeLuaString (case alc_postLogoutRedirectURI cfg of None \<Rightarrow> [] | Some u \<Rightarrow> QueryEscape u))"
    by (intro EscapeLuaString_valid) (auto intro: ascii_valid QueryEscape_ascii split: option.splits)
  then show ?thesis
    using assms headers unfolding GenerateLuaScript_def script_texts_def
    by (auto simp: bind_eq_Some_conv Let_def intro!: Sprintf_valid template_ascii
        EscapeLuaString_valid params_valid dest: table_valid)
qed

end
