(* ===== verification/GoUrl.thy ===== *)
theory GoUrl
  imports Prelude
begin

text \<open>
  Go's \<open>net/url\<close> and \<open>strconv\<close> as far as the operator uses them: \<open>url.Parse\<close> with the scheme, the host
  and the path of its result, \<open>URL.Port\<close>, \<open>URL.Hostname\<close> and \<open>strconv.Atoi\<close>, as in the release of Go that
  \<open>go.mod\<close> asks for.  Errors carry the cause, without the quoted text of the URL.  Query, fragment
  and user information are checked and dropped, because nothing reads them.  Some releases make an
  exception for schemes of databases, whose hosts may have several colons; it is left out.
\<close>

section \<open>Bytes\<close>

definition is_digit :: "char \<Rightarrow> bool" where
  "is_digit ch \<longleftrightarrow> ch \<in> set ''0123456789''"

definition is_letter :: "char \<Rightarrow> bool" where
  "is_letter c \<longleftrightarrow> byte_between (CHR ''a'') (CHR ''z'') c \<or> byte_between (CHR ''A'') (CHR ''Z'') c"

definition hex_value :: "char \<Rightarrow> nat option" where
  "hex_value c =
     (if is_digit c then Some (of_char c - 48)
      else if byte_between (CHR ''a'') (CHR ''f'') c then Some (of_char c - 87)
      else if byte_between (CHR ''A'') (CHR ''F'') c then Some (of_char c - 55)
      else None)"

definition is_control :: "char \<Rightarrow> bool" where
  "is_control c \<longleftrightarrow> c < CHR '' '' \<or> c = CHR 0x7F"

definition lower_byte :: "char \<Rightarrow> char" where
  "lower_byte c = (if byte_between (CHR ''A'') (CHR ''Z'') c then char_of (of_char c + (32 :: nat)) else c)"

definition ToLower :: "string \<Rightarrow> string" where
  "ToLower s = map lower_byte s"

text \<open>\<open>strings.Cut\<close> at a byte, without the flag that says whether it was found.\<close>

definition cutByte :: "char \<Rightarrow> string \<Rightarrow> string \<times> string" where
  "cutByte c s =
     (takeWhile (\<lambda>x. x \<noteq> c) s, case dropWhile (\<lambda>x. x \<noteq> c) s of [] \<Rightarrow> [] | _ # rest \<Rightarrow> rest)"

definition lastIndexByte :: "char \<Rightarrow> string \<Rightarrow> nat option" where
  "lastIndexByte ch s =
     (if ch \<in> set s then Some (length s - 1 - length (takeWhile (\<lambda>x. x \<noteq> ch) (rev s))) else None)"

section \<open>Escapes\<close>

text \<open>In a path, a fragment or user information any byte may be escaped; in a host only bytes that are
  not ASCII, and the percent sign itself.\<close>

fun unescape :: "string \<Rightarrow> string + string" where
  "unescape [] = Inr []"
| "unescape (c # cs) =
     (if c \<noteq> CHR ''%'' then res_bind (unescape cs) (\<lambda>t. Inr (c # t))
      else case cs of
        a # b # rest \<Rightarrow>
          (case (hex_value a, hex_value b) of
             (Some x, Some y) \<Rightarrow> res_bind (unescape rest) (\<lambda>t. Inr (char_of (16 * x + y) # t))
           | _ \<Rightarrow> Inl ''invalid URL escape'')
      | _ \<Rightarrow> Inl ''invalid URL escape'')"

definition host_byte :: "char \<Rightarrow> bool" where
  "host_byte c \<longleftrightarrow> is_letter c \<or> is_digit c \<or> c \<in> set ''-_.~!$&()*+,;=:[]<>'' \<or> c = CHR 0x27 \<or> c = CHR 0x22 \<or> CHR 0x80 \<le> c"

text \<open>The flag stands for a zone, in which a space or a byte of a host may be escaped too.\<close>

fun unescape_host :: "bool \<Rightarrow> string \<Rightarrow> string + string" where
  "unescape_host zone [] = Inr []"
| "unescape_host zone (c # cs) =
     (if c \<noteq> CHR ''%'' then
        (if host_byte c then res_bind (unescape_host zone cs) (\<lambda>t. Inr (c # t))
         else Inl ''invalid character in host name'')
      else case cs of
        a # b # rest \<Rightarrow>
          (case (hex_value a, hex_value b) of
             (Some x, Some y) \<Rightarrow>
               (let v = char_of (16 * x + y)
                in if [a, b] = ''25'' \<or> (if zone then v = CHR '' '' \<or> v < CHR 0x80 \<and> host_byte v else 8 \<le> x)
                   then res_bind (unescape_host zone rest) (\<lambda>t. Inr (v # t))
                   else Inl ''invalid URL escape'')
           | _ \<Rightarrow> Inl ''invalid URL escape'')
      | _ \<Rightarrow> Inl ''invalid URL escape'')"

section \<open>Addresses in brackets\<close>

text \<open>\<open>netip.ParseAddr\<close> for an address of IP version 6: at most eight groups, of which the last two may
  be an address of version 4, with one ellipsis for the missing groups, and a zone.\<close>

definition digits_value :: "string \<Rightarrow> nat" where
  "digits_value s = foldl (\<lambda>n ch. n * 10 + (of_char ch - 48)) 0 s"

definition ipv4_field :: "string \<Rightarrow> bool" where
  "ipv4_field f \<longleftrightarrow> f \<noteq> [] \<and> list_all is_digit f \<and> length f \<le> 3 \<and> digits_value f \<le> 255 \<and>
     (length f = 1 \<or> hd f \<noteq> CHR ''0'')"

definition ipv4_address :: "string \<Rightarrow> bool" where
  "ipv4_address s \<longleftrightarrow> length (SplitByte (CHR ''.'') s) = 4 \<and> list_all ipv4_field (SplitByte (CHR ''.'') s)"

definition groups_done :: "nat \<Rightarrow> bool \<Rightarrow> bool" where
  "groups_done left ellipsis \<longleftrightarrow> (if left = 0 then \<not> ellipsis else ellipsis)"

primrec ipv6_groups :: "nat \<Rightarrow> bool \<Rightarrow> string \<Rightarrow> bool" where
  "ipv6_groups 0 ellipsis s = False"
| "ipv6_groups (Suc left) ellipsis s =
     (let group = takeWhile (\<lambda>c. hex_value c \<noteq> None) s; rest = drop (length group) s
      in group \<noteq> [] \<and> length group \<le> 4 \<and>
         (case rest of
            [] \<Rightarrow> groups_done left ellipsis
          | c # rest' \<Rightarrow>
              if c = CHR ''.'' then (ellipsis \<or> left = 1) \<and> 1 \<le> left \<and> ipv4_address s \<and> groups_done (left - 1) ellipsis
              else c = CHR '':'' \<and>
                (case rest' of
                   [] \<Rightarrow> False
                 | d # rest'' \<Rightarrow>
                     if d = CHR '':'' then \<not> ellipsis \<and> (if rest'' = [] then groups_done left True else ipv6_groups left True rest'')
                     else ipv6_groups left ellipsis rest')))"

definition ipv6_address :: "string \<Rightarrow> bool" where
  "ipv6_address s \<longleftrightarrow>
     (let (addr, zone) = cutByte (CHR ''%'') s
      in (CHR ''%'' \<in> set s \<longrightarrow> zone \<noteq> []) \<and>
         (if HasPrefix addr ''::'' then drop 2 addr = [] \<or> ipv6_groups 8 True (drop 2 addr) else ipv6_groups 8 False addr))"

section \<open>Parsing\<close>

record goUrl =
  u_Scheme :: string
  u_Host :: string
  u_Path :: string

definition validOptionalPort :: "string \<Rightarrow> bool" where
  "validOptionalPort port =
     (case port of [] \<Rightarrow> True | ch # rest \<Rightarrow> ch = CHR '':'' \<and> list_all is_digit rest)"

definition getScheme :: "string \<Rightarrow> string + string \<times> string" where
  "getScheme raw =
     (let scheme = takeWhile (\<lambda>c. is_letter c \<or> is_digit c \<or> c \<in> set ''+-.'') raw
      in case drop (length scheme) raw of
           c # rest \<Rightarrow>
             if c = CHR '':'' \<and> scheme = [] then Inl ''missing protocol scheme''
             else if c = CHR '':'' \<and> is_letter (hd scheme) then Inr (scheme, rest)
             else Inr ([], raw)
         | [] \<Rightarrow> Inr ([], raw))"

definition parseIPLiteral :: "string \<Rightarrow> string + string" where
  "parseIPLiteral host =
     (case lastIndexByte (CHR '']'') host of
        None \<Rightarrow> Inl (CHR 0x27 # '']'' @ CHR 0x27 # '' missing in host'')
      | Some close \<Rightarrow>
          (let port = drop (Suc close) host; name = drop 1 (take close host);
               (front, zone) = (takeWhile (\<lambda>c. c \<noteq> CHR ''%'') name, dropWhile (\<lambda>c. c \<noteq> CHR ''%'') name)
           in if \<not> validOptionalPort port then Inl ''invalid port after host''
              else res_bind (if HasPrefix zone ''%25''
                             then res_bind (unescape_host False front) (\<lambda>f. res_bind (unescape_host True zone) (\<lambda>z. Inr (f @ z)))
                             else unescape_host False name) (\<lambda>addr.
                if ipv6_address addr then Inr (CHR ''['' # addr @ '']'' @ port) else Inl ''invalid host'')))"

definition parseHost :: "string \<Rightarrow> string + string" where
  "parseHost host =
     (if CHR ''['' \<in> set host then
        (if HasPrefix host ''['' \<and> CHR ''['' \<notin> set (tl host) then parseIPLiteral host else Inl ''invalid IP-literal'')
      else if \<not> validOptionalPort (dropWhile (\<lambda>c. c \<noteq> CHR '':'') host) then Inl ''invalid port after host''
      else unescape_host False host)"

definition userinfo_byte :: "char \<Rightarrow> bool" where
  "userinfo_byte c \<longleftrightarrow> is_letter c \<or> is_digit c \<or> c \<in> set ''-._:~!$&()*+,;=%@'' \<or> c = CHR 0x27"

definition parseAuthority :: "string \<Rightarrow> string + string" where
  "parseAuthority authority =
     (case lastIndexByte (CHR ''@'') authority of
        None \<Rightarrow> parseHost authority
      | Some i \<Rightarrow> res_bind (parseHost (drop (Suc i) authority)) (\<lambda>host.
          if \<not> list_all userinfo_byte (take i authority) then Inl ''net/url: invalid userinfo''
          else res_bind (unescape (take i authority)) (\<lambda>_. Inr host)))"

definition parse_hierarchy :: "string \<Rightarrow> string \<Rightarrow> string + goUrl" where
  "parse_hierarchy scheme rest =
     (let (authority, path) =
        (if HasPrefix rest ''//'' \<and> (scheme \<noteq> [] \<or> \<not> HasPrefix rest ''///'')
         then (Some (takeWhile (\<lambda>c. c \<noteq> CHR ''/'') (drop 2 rest)), dropWhile (\<lambda>c. c \<noteq> CHR ''/'') (drop 2 rest))
         else (None, rest))
      in res_bind (case authority of None \<Rightarrow> Inr [] | Some a \<Rightarrow> parseAuthority a) (\<lambda>host.
         res_bind (unescape path) (\<lambda>p. Inr \<lparr>u_Scheme = scheme, u_Host = host, u_Path = p\<rparr>)))"

definition parse_url :: "string \<Rightarrow> string + goUrl" where
  "parse_url raw =
     (if list_ex is_control raw then Inl ''net/url: invalid control character in URL''
      else if raw = ''*'' then Inr \<lparr>u_Scheme = [], u_Host = [], u_Path = ''*''\<rparr>
      else res_bind (getScheme raw) (\<lambda>(scheme, rest).
        let scheme = ToLower scheme; rest = fst (cutByte (CHR ''?'') rest)
        in if HasPrefix rest ''/'' then parse_hierarchy scheme rest
           else if scheme \<noteq> [] then Inr \<lparr>u_Scheme = scheme, u_Host = [], u_Path = []\<rparr>
           else if CHR '':'' \<in> set (fst (cutByte (CHR ''/'') rest)) then Inl ''first path segment in URL cannot contain colon''
           else parse_hierarchy [] rest))"

definition url_Parse :: "string \<Rightarrow> string + goUrl" where
  "url_Parse raw =
     (let (u, frag) = cutByte (CHR ''#'') raw
      in res_bind (parse_url u) (\<lambda>url. res_bind (unescape frag) (\<lambda>_. Inr url)))"

section \<open>Host, port and numbers\<close>

text \<open>\<open>URL.Hostname\<close> and \<open>URL.Port\<close>.\<close>

definition splitHostPort :: "string \<Rightarrow> string \<times> string" where
  "splitHostPort hostPort =
     (let (host, port) =
        (case lastIndexByte (CHR '':'') hostPort of
           Some colon \<Rightarrow> if validOptionalPort (drop colon hostPort)
             then (take colon hostPort, drop (Suc colon) hostPort) else (hostPort, [])
         | None \<Rightarrow> (hostPort, []))
      in (if HasPrefix host ''['' \<and> HasSuffix host '']'' then butlast (tl host) else host, port))"

text \<open>\<open>strconv.Atoi\<close> on a string of digits, for a 64 bit \<open>int\<close>.\<close>

definition Atoi_digits :: "string \<Rightarrow> int option" where
  "Atoi_digits s =
     (if s \<noteq> [] \<and> list_all is_digit s \<and> digits_value s < 2 ^ 63 then Some (int (digits_value s)) else None)"

section \<open>Facts\<close>

text \<open>Hosts and paths without escapes.\<close>

definition plain_host :: "string \<Rightarrow> bool" where
  "plain_host h \<longleftrightarrow> h \<noteq> [] \<and> list_all (\<lambda>c. is_letter c \<or> is_digit c \<or> c \<in> set ''-.'') h"

definition plain_path :: "string \<Rightarrow> bool" where
  "plain_path p \<longleftrightarrow> list_all (\<lambda>c. is_letter c \<or> is_digit c \<or> c \<in> set ''/-._~'') p"

definition plain_scheme :: "string \<Rightarrow> bool" where
  "plain_scheme s \<longleftrightarrow> s \<noteq> [] \<and> list_all is_letter s"

text \<open>The bytes with a meaning in a URL are neither letters nor digits.\<close>

definition plain_byte :: "char \<Rightarrow> bool" where
  "plain_byte c \<longleftrightarrow> is_letter c \<or> is_digit c \<or> c \<in> set '':/-._~''"

lemma plain_no_control: "plain_byte c \<Longrightarrow> \<not> is_control c"
  by (auto simp: plain_byte_def is_letter_def is_control_def is_digit_def less_char_def less_eq_char_def)

lemma marks: "c \<in> set '':/?#@%['' \<Longrightarrow> \<not> is_letter c \<and> \<not> is_digit c"
  by (auto simp: is_letter_def is_digit_def)

lemma unescape_plain: "CHR ''%'' \<notin> set s \<Longrightarrow> unescape s = Inr s"
  by (induction s) auto

lemma unescape_host_plain: "CHR ''%'' \<notin> set s \<Longrightarrow> list_all host_byte s \<Longrightarrow> unescape_host zone s = Inr s"
  by (induction s) auto

lemma takeWhile_end: "list_all P xs \<Longrightarrow> \<not> P c \<Longrightarrow> takeWhile P (xs @ c # r) = xs \<and> dropWhile P (xs @ c # r) = c # r"
  by (induction xs) auto

lemma cut_absent: "c \<notin> set s \<Longrightarrow> cutByte c s = (s, [])"
proof -
  assume "c \<notin> set s"
  then have "takeWhile (\<lambda>x. x \<noteq> c) s = s" "dropWhile (\<lambda>x. x \<noteq> c) s = []" by (auto simp: takeWhile_eq_all_conv dropWhile_eq_Nil_conv)
  then show ?thesis by (simp only: cutByte_def list.case)
qed

lemma split_mark:
  assumes "c \<notin> set xs" and "p = [] \<or> HasPrefix p [c]"
  shows "takeWhile (\<lambda>x. x \<noteq> c) (xs @ p) = xs" and "dropWhile (\<lambda>x. x \<noteq> c) (xs @ p) = p"
  using assms by (induction xs) (auto simp: HasPrefix_iff)

lemma lastIndex_absent: "c \<notin> set s \<Longrightarrow> lastIndexByte c s = None"
  by (simp add: lastIndexByte_def)

lemma plain_absent: "list_all plain_byte s \<Longrightarrow> c \<in> set ''#?%@[*'' \<Longrightarrow> c \<notin> set s"
  by (auto simp: list_all_iff plain_byte_def is_letter_def is_digit_def)

lemma plain_parts:
  "plain_scheme s \<Longrightarrow> list_all plain_byte s" "plain_host h \<Longrightarrow> list_all plain_byte h"
  "validOptionalPort port \<Longrightarrow> list_all plain_byte port" "plain_path p \<Longrightarrow> list_all plain_byte p"
  by (auto simp: list_all_iff plain_scheme_def plain_host_def validOptionalPort_def plain_path_def plain_byte_def
      split: list.splits)

lemma host_bytes: "plain_host h \<Longrightarrow> validOptionalPort port \<Longrightarrow> list_all host_byte (h @ port)"
  by (auto simp: list_all_iff plain_host_def validOptionalPort_def host_byte_def split: list.splits)

lemma parse_plain_host:
  assumes "plain_host h" and "validOptionalPort port"
  shows "parseAuthority (h @ port) = Inr (h @ port)"
proof -
  have plain: "list_all plain_byte (h @ port)" using plain_parts assms by simp
  have "CHR '':'' \<notin> set h" using assms(1) by (auto simp: plain_host_def list_all_iff is_letter_def is_digit_def)
  then have "dropWhile (\<lambda>c. c \<noteq> CHR '':'') (h @ port) = port"
    using assms(2) by (auto simp: validOptionalPort_def dropWhile_append split: list.splits)
  then show ?thesis
    using plain_absent [OF plain] unescape_host_plain [OF _ host_bytes [OF assms]] assms(2)
    by (simp add: parseAuthority_def parseHost_def lastIndex_absent)
qed

text \<open>A URL with scheme, host and path is taken apart as it was put together.\<close>

lemma getScheme_plain: "plain_scheme s \<Longrightarrow> getScheme (s @ '':'' @ r) = Inr (s, r)"
  using takeWhile_end [of "\<lambda>c. is_letter c \<or> is_digit c \<or> c \<in> set ''+-.''" s "CHR '':''" r] marks [of "CHR '':''"]
  by (cases s) (auto simp: getScheme_def plain_scheme_def list_all_iff)

lemma hierarchy_plain:
  assumes "plain_host h" and "validOptionalPort port" and "plain_path p" and "p = [] \<or> HasPrefix p ''/''"
  shows "parse_hierarchy s (''//'' @ h @ port @ p) =
    Inr \<lparr>u_Scheme = s, u_Host = h @ port, u_Path = p\<rparr>"
proof -
  have slash: "CHR ''/'' \<notin> set (h @ port)"
    using assms(1, 2) marks [of "CHR ''/''"] by (auto simp: plain_host_def validOptionalPort_def list_all_iff split: list.splits)
  have "h \<noteq> []" using assms(1) by (simp add: plain_host_def)
  have "takeWhile (\<lambda>c. c \<noteq> CHR ''/'') (h @ port @ p) = h @ port" "dropWhile (\<lambda>c. c \<noteq> CHR ''/'') (h @ port @ p) = p"
    using split_mark [OF slash assms(4)] by simp_all
  moreover have "\<not> HasPrefix (''//'' @ h @ port @ p) ''///''"
  proof (cases h)
    case (Cons c cs)
    then show ?thesis using slash by auto
  qed (use \<open>h \<noteq> []\<close> in simp)
  moreover have "unescape p = Inr p"
    using unescape_plain plain_absent [OF plain_parts(4) [OF assms(3)]] by simp
  ultimately show ?thesis
    using parse_plain_host [OF assms(1, 2)] by (simp add: parse_hierarchy_def)
qed

theorem Parse_endpoint:
  assumes "plain_scheme s" and "plain_host h" and "validOptionalPort port" and "plain_path p" and "p = [] \<or> HasPrefix p ''/''"
  shows "url_Parse (s @ ''://'' @ h @ port @ p) = Inr \<lparr>u_Scheme = ToLower s, u_Host = h @ port, u_Path = p\<rparr>"
proof -
  let ?rest = "''//'' @ h @ port @ p" and ?raw = "s @ ''://'' @ h @ port @ p"
  have plain: "list_all plain_byte ?raw" "list_all plain_byte ?rest" using plain_parts assms by (simp_all add: plain_byte_def)
  have "\<not> list_ex is_control ?raw" using plain(1) plain_no_control by (auto simp: list_all_iff list_ex_iff)
  moreover have "?raw \<noteq> ''*''" using plain_absent [OF plain(1), of "CHR ''*''"] by auto
  moreover have "getScheme ?raw = Inr (s, ?rest)" using getScheme_plain [OF assms(1), of ?rest] by simp
  moreover have "fst (cutByte (CHR ''?'') ?rest) = ?rest" using cut_absent plain_absent [OF plain(2), of "CHR ''?''"] by simp
  moreover have "HasPrefix ?rest ''/''" by simp
  ultimately have "parse_url ?raw = Inr \<lparr>u_Scheme = ToLower s, u_Host = h @ port, u_Path = p\<rparr>"
    using hierarchy_plain [OF assms(2-5), of "ToLower s"] by (simp only: parse_url_def if_False if_True res_bind_simps prod.case Let_def)
  moreover have "cutByte (CHR ''#'') ?raw = (?raw, [])" using cut_absent plain_absent [OF plain(1), of "CHR ''#''"] by simp
  ultimately show ?thesis by (simp only: url_Parse_def Let_def prod.case unescape.simps res_bind_simps)
qed

text \<open>A relative reference is a URL, too, without a host.\<close>

lemma Parse_relative:
  assumes "plain_path p" and "\<not> HasPrefix p ''//''"
  shows "url_Parse p = Inr \<lparr>u_Scheme = [], u_Host = [], u_Path = p\<rparr>"
proof -
  have plain: "list_all plain_byte p" using plain_parts assms by simp
  have colon: "CHR '':'' \<notin> set p" using assms(1) by (auto simp: plain_path_def list_all_iff is_letter_def is_digit_def)
  have no_colon: "drop n p \<noteq> CHR '':'' # r" for n r
    using colon in_set_dropD [of "CHR '':''" n p] by (metis list.set_intros(1))
  have scheme: "getScheme p = Inr ([], p)"
    using no_colon colon by (auto simp: getScheme_def Let_def split: list.splits)
  have "\<not> list_ex is_control p" using plain plain_no_control by (auto simp: list_all_iff list_ex_iff)
  moreover have "p \<noteq> ''*''" using plain_absent [OF plain, of "CHR ''*''"] by auto
  moreover have "fst (cutByte (CHR ''?'') p) = p" using cut_absent plain_absent [OF plain, of "CHR ''?''"] by simp
  moreover have "CHR '':'' \<notin> set (fst (cutByte (CHR ''/'') p))" using colon by (auto simp: cutByte_def dest: set_takeWhileD)
  moreover have "parse_hierarchy [] p = Inr \<lparr>u_Scheme = [], u_Host = [], u_Path = p\<rparr>"
    using assms(2) unescape_plain plain_absent [OF plain, of "CHR ''%''"] by (simp add: parse_hierarchy_def)
  ultimately have "parse_url p = Inr \<lparr>u_Scheme = [], u_Host = [], u_Path = p\<rparr>"
    using scheme by (simp add: parse_url_def ToLower_def Let_def)
  moreover have "cutByte (CHR ''#'') p = (p, [])" using cut_absent plain_absent [OF plain, of "CHR ''#''"] by simp
  ultimately show ?thesis by (simp only: url_Parse_def Let_def prod.case unescape.simps res_bind_simps)
qed

text \<open>A host without a colon has no port, and a host with a numeric port is split at its colon.\<close>

lemma splitHostPort_no_colon:
  "CHR '':'' \<notin> set h \<Longrightarrow> \<not> HasPrefix h ''['' \<Longrightarrow> splitHostPort h = (h, [])"
  by (simp add: splitHostPort_def lastIndexByte_def)

lemma takeWhile_no_colon:
  "CHR '':'' \<notin> set p \<Longrightarrow> takeWhile (\<lambda>x. x \<noteq> CHR '':'') (rev p @ CHR '':'' # r) = rev p"
  by (subst takeWhile_append2) auto

lemma splitHostPort_port:
  assumes "list_all is_digit p" and "\<not> HasPrefix h ''[''"
  shows "splitHostPort (h @ '':'' @ p) = (h, p)"
proof -
  have "\<not> is_digit (CHR '':'')" by (simp add: is_digit_def)
  then have "CHR '':'' \<notin> set p" using assms(1) by (auto simp: list_all_iff)
  then have "lastIndexByte (CHR '':'') (h @ '':'' @ p) = Some (length h)"
    by (simp add: lastIndexByte_def takeWhile_no_colon)
  then show ?thesis using assms by (simp add: splitHostPort_def validOptionalPort_def)
qed

lemma plain_host_bracket: "plain_host h \<Longrightarrow> \<not> HasPrefix h ''[''"
  using marks [of "CHR ''[''"] by (cases h) (auto simp: plain_host_def)

lemma splitHostPort_plain: "plain_host h \<Longrightarrow> splitHostPort h = (h, [])"
  using marks [of "CHR '':''"] plain_host_bracket by (intro splitHostPort_no_colon) (auto simp: plain_host_def list_all_iff)

end
