(* ===== verification/K8sClient.thy ===== *)
theory K8sClient
  imports IstioTypes
begin

text \<open>
  The Kubernetes API as the operator uses it: the typed objects behind one interface
  (\<open>client.Object\<close>), and a client whose calls are parameters of the model.  The locale
  \<open>k8s_api\<close> holds what the calls promise about the stored objects; \<open>store_client\<close> is a client
  over a map of objects that can be told to fail.
\<close>

section \<open>Objects\<close>

datatype k8s_object =
    SecretObj secret
  | EnvoyFilterObj envoyFilter
  | RequestAuthenticationObj requestAuthentication
  | AuthorizationPolicyObj authorizationPolicy

fun obj_meta :: "k8s_object \<Rightarrow> objectMeta" where
  "obj_meta (SecretObj s) = sec_meta s"
| "obj_meta (EnvoyFilterObj e) = ef_meta e"
| "obj_meta (RequestAuthenticationObj r) = ra_meta r"
| "obj_meta (AuthorizationPolicyObj a) = azp_meta a"

fun obj_kind :: "k8s_object \<Rightarrow> string" where
  "obj_kind (SecretObj s) = ''Secret''"
| "obj_kind (EnvoyFilterObj e) = ''EnvoyFilter''"
| "obj_kind (RequestAuthenticationObj r) = ''RequestAuthentication''"
| "obj_kind (AuthorizationPolicyObj a) = ''AuthorizationPolicy''"

fun with_meta :: "objectMeta \<Rightarrow> k8s_object \<Rightarrow> k8s_object" where
  "with_meta m (SecretObj s) = SecretObj (s\<lparr>sec_meta := m\<rparr>)"
| "with_meta m (EnvoyFilterObj e) = EnvoyFilterObj (e\<lparr>ef_meta := m\<rparr>)"
| "with_meta m (RequestAuthenticationObj r) = RequestAuthenticationObj (r\<lparr>ra_meta := m\<rparr>)"
| "with_meta m (AuthorizationPolicyObj a) = AuthorizationPolicyObj (a\<lparr>azp_meta := m\<rparr>)"

record objkey =
  k_kind :: string
  k_namespace :: string
  k_name :: string

definition obj_key :: "k8s_object \<Rightarrow> objkey" where
  "obj_key o' = \<lparr>k_kind = obj_kind o', k_namespace = om_namespace (obj_meta o'), k_name = om_name (obj_meta o')\<rparr>"

lemma with_meta_simps [simp]:
  "obj_meta (with_meta m o') = m" "obj_kind (with_meta m o') = obj_kind o'"
  by (cases o'; simp)+

definition set_owners :: "ownerReference list \<Rightarrow> k8s_object \<Rightarrow> k8s_object" where
  "set_owners owners o' = with_meta ((obj_meta o')\<lparr>om_owners := owners\<rparr>) o'"

lemma set_owners_simps [simp]:
  "obj_key (set_owners owners o') = obj_key o'"
  "om_owners (obj_meta (set_owners owners o')) = owners"
  "om_labels (obj_meta (set_owners owners o')) = om_labels (obj_meta o')"
  by (simp_all add: set_owners_def obj_key_def)

section \<open>The client\<close>

datatype get_result = Found k8s_object | NotFound | GetError string

text \<open>
  The calls of \<open>client.Client\<close> on a world \<open>'w\<close>, where a returned \<open>Some\<close> is an error, and the
  two helpers for controller references: \<open>ctrl.SetControllerReference\<close>, which returns the object
  with the reference or an error, and \<open>metav1.IsControlledBy\<close>.
\<close>

record 'w client =
  c_get :: "'w \<Rightarrow> objkey \<Rightarrow> get_result"
  c_create :: "'w \<Rightarrow> k8s_object \<Rightarrow> string option \<times> 'w"
  c_patch :: "'w \<Rightarrow> k8s_object \<Rightarrow> k8s_object \<Rightarrow> string option \<times> 'w"
  c_delete :: "'w \<Rightarrow> k8s_object \<Rightarrow> string option \<times> 'w"
  c_setControllerReference :: "authPolicy \<Rightarrow> k8s_object \<Rightarrow> string + k8s_object"
  c_isControlledBy :: "k8s_object \<Rightarrow> authPolicy \<Rightarrow> bool"

text \<open>
  What the calls promise, with \<open>objects\<close> the stored objects of a world: reading tells the truth, a
  write that succeeds has its effect on the one object and a write that fails has none. An object
  is stored under its key. Setting the reference changes the owners only, and makes the object
  controlled; control depends on the owners only.
\<close>

locale k8s_api =
  fixes c :: "'w client" and objects :: "'w \<Rightarrow> objkey \<Rightarrow> k8s_object option"
  assumes get_found: "c_get c w k = Found o' \<Longrightarrow> objects w k = Some o' \<and> obj_key o' = k"
    and get_notfound: "c_get c w k = NotFound \<Longrightarrow> objects w k = None"
    and create_ok: "c_create c w o' = (None, w') \<Longrightarrow> objects w (obj_key o') = None \<Longrightarrow>
      objects w' = (objects w)(obj_key o' \<mapsto> o')"
    and create_error: "c_create c w o' = (Some e, w') \<Longrightarrow> objects w' = objects w"
    and patch_ok: "c_patch c w old new = (None, w') \<Longrightarrow> objects w (obj_key old) = Some old \<Longrightarrow>
      obj_key new = obj_key old \<Longrightarrow> objects w' = (objects w)(obj_key old \<mapsto> new)"
    and patch_error: "c_patch c w old new = (Some e, w') \<Longrightarrow> objects w' = objects w"
    and delete_ok: "c_delete c w o' = (None, w') \<Longrightarrow> objects w' = (objects w)(obj_key o' := None)"
    and delete_error: "c_delete c w o' = (Some e, w') \<Longrightarrow> objects w' = objects w"
    and set_reference: "c_setControllerReference c ap o' = Inr o'' \<Longrightarrow>
      c_isControlledBy c o'' ap \<and> (\<exists>owners. o'' = set_owners owners o')"
    and control_by_owners: "om_owners (obj_meta o') = om_owners (obj_meta o'') \<Longrightarrow>
      c_isControlledBy c o' ap = c_isControlledBy c o'' ap"

text \<open>
  A client whose calls do not fail without a reason: what is stored under its name is read, an
  absent object can be created and a stored one patched and deleted, and an object without owners
  can be given one.
\<close>

locale reliable_api = k8s_api +
  assumes get_stored: "objects w k = Some o' \<Longrightarrow> obj_key o' = k \<Longrightarrow> c_get c w k = Found o'"
    and get_absent: "objects w k = None \<Longrightarrow> c_get c w k = NotFound"
    and create_absent: "objects w (obj_key o') = None \<Longrightarrow> fst (c_create c w o') = None"
    and patch_stored: "objects w (obj_key old) = Some old \<Longrightarrow> obj_key new = obj_key old \<Longrightarrow>
      fst (c_patch c w old new) = None"
    and delete_stored: "objects w (obj_key o') = Some o' \<Longrightarrow> fst (c_delete c w o') = None"
    and reference_free: "om_owners (obj_meta o') = [] \<Longrightarrow> \<exists>o''. c_setControllerReference c ap o' = Inr o''"

section \<open>A store\<close>

text \<open>Which calls fail is given by a function of the call's verb and key.\<close>

datatype verb = VGet | VCreate | VPatch | VDelete

type_synonym faults = "verb \<Rightarrow> objkey \<Rightarrow> string option"

definition policy_owner :: "authPolicy \<Rightarrow> ownerReference" where
  "policy_owner ap = \<lparr>or_apiVersion = ''ztoperator.kartverket.no/v1alpha1'', or_kind = ''AuthPolicy'', or_name = ap_name ap, or_uid = ap_uid ap, or_controller = True\<rparr>"

text \<open>The controller of an object is the first of its owners that is marked as one.\<close>

definition controller_of :: "objectMeta \<Rightarrow> ownerReference option" where
  "controller_of m = List.find or_controller (om_owners m)"

definition store_client :: "faults \<Rightarrow> (objkey, k8s_object) gomap client" where
  "store_client f =
     \<lparr>c_get = (\<lambda>w k. case f VGet k of Some e \<Rightarrow> GetError e
        | None \<Rightarrow> (case map_of w k of None \<Rightarrow> NotFound
            | Some o' \<Rightarrow> if obj_key o' = k then Found o' else GetError ''corrupt'')),
      c_create = (\<lambda>w o'. case f VCreate (obj_key o') of Some e \<Rightarrow> (Some e, w)
        | None \<Rightarrow> if map_of w (obj_key o') = None then (None, (obj_key o', o') # w) else (Some ''already exists'', w)),
      c_patch = (\<lambda>w old new. case f VPatch (obj_key old) of Some e \<Rightarrow> (Some e, w)
        | None \<Rightarrow> (None, AList.update (obj_key old) new w)),
      c_delete = (\<lambda>w o'. case f VDelete (obj_key o') of Some e \<Rightarrow> (Some e, w)
        | None \<Rightarrow> (None, AList.delete (obj_key o') w)),
      c_setControllerReference = (\<lambda>ap o'. if controller_of (obj_meta o') = None
        then Inr (set_owners (om_owners (obj_meta o') @ [policy_owner ap]) o') else Inl ''already owned''),
      c_isControlledBy = (\<lambda>o' ap. map_option or_uid (controller_of (obj_meta o')) = Some (ap_uid ap))\<rparr>"

lemma policy_owner_fields [simp]: "or_controller (policy_owner ap)" "or_uid (policy_owner ap) = ap_uid ap"
  by (simp_all add: policy_owner_def)

lemma controller_appended:
  "List.find or_controller owners = None \<Longrightarrow>
     List.find or_controller (owners @ [policy_owner ap]) = Some (policy_owner ap)"
  by (induction owners) (auto split: if_splits)

interpretation store: k8s_api "store_client f" map_of for f
  by unfold_locales
     (auto simp: store_client_def update_conv' delete_conv' controller_appended controller_of_def
        split: option.splits if_splits)

definition no_faults :: faults where
  "no_faults v k = None"

interpretation quiet: reliable_api "store_client no_faults" map_of
  by unfold_locales (auto simp: store_client_def no_faults_def controller_of_def)

end
