(* ===== verification/ResourceGenerators.thy ===== *)
theory ResourceGenerators
  imports AuthorizationPolicies ScriptText GoUrl K8sClient
begin

text \<open>
  The other resource generators of \<open>pkg/resourcegenerators\<close>: the \<open>RequestAuthentication\<close> that
  validates tokens, the \<open>Secret\<close> and the \<open>EnvoyFilter\<close> of the automatic login with the three
  patches of \<open>configpatch\<close>, and the helper functions they use.

  What lies outside the repository is a field of \<open>generatorEnv\<close>: the YAML and protobuf encoders
  and the growth of slices, and what differs from one reconciliation to the next: the system's random
  bytes, and whether the messages under a field of a stored and of a desired object agree in what their
  values do not show (the internal state of a protobuf message, a nil slice against an empty one).
  A panic is the left summand of a result.
\<close>

section \<open>The environment\<close>

record runChoices =
  rc_randomBytes :: "nat \<Rightarrow> string option"
  rc_sameInternals :: "string \<Rightarrow> k8s_object \<Rightarrow> k8s_object \<Rightarrow> bool"

record generatorEnv =
  ge_newcap :: "nat \<Rightarrow> nat \<Rightarrow> nat"
  ge_yamlMarshal :: "pb_value \<Rightarrow> string option"
  ge_pbValid :: "pb_value \<Rightarrow> bool"
  ge_run :: runChoices

text \<open>Comparisons that see no more than the values.\<close>

definition exact_comparison :: "runChoices \<Rightarrow> bool" where
  "exact_comparison rb \<longleftrightarrow> (\<forall>field current desired. rc_sameInternals rb field current desired)"

section \<open>Helpers\<close>

text \<open>\<open>base64.StdEncoding.EncodeToString\<close>.\<close>

definition base64_alphabet :: string where
  "base64_alphabet = ''ABCDEFGHIJKLMNOPQRSTUVWXYZabcdefghijklmnopqrstuvwxyz0123456789+/''"

definition sextet :: "nat \<Rightarrow> char" where
  "sextet n = base64_alphabet ! (n mod 64)"

fun base64 :: "string \<Rightarrow> string" where
  "base64 [] = []"
| "base64 [a] = (let x = of_char a * 65536 in [sextet (x div 262144), sextet (x div 4096)] @ ''=='')"
| "base64 [a, b] =
     (let x = of_char a * 65536 + of_char b * 256
      in [sextet (x div 262144), sextet (x div 4096), sextet (x div 64)] @ ''='')"
| "base64 (a # b # c # rest) =
     (let x = of_char a * 65536 + of_char b * 256 + of_char c
      in [sextet (x div 262144), sextet (x div 4096), sextet (x div 64), sextet x] @ base64 rest)"

definition GenerateHMACSecret :: "generatorEnv \<Rightarrow> nat \<Rightarrow> string option" where
  "GenerateHMACSecret env n = map_option base64 (rc_randomBytes (ge_run env) n)"

definition GetParsedURL :: "string \<Rightarrow> string + goUrl" where
  "GetParsedURL uri = (case url_Parse uri of Inl e \<Rightarrow> Inl e | Inr parsedURL \<Rightarrow> Inr parsedURL)"

lemma GetParsedURL_parse [simp]: "GetParsedURL uri = url_Parse uri"
  by (simp add: GetParsedURL_def split: sum.splits)

section \<open>RequestAuthentication (request_authentication.go)\<close>

definition requestauthentication_GetDesired :: "'o scope \<Rightarrow> objectMeta \<Rightarrow> requestAuthentication option" where
  "requestauthentication_GetDesired s meta =
     (let spec = ap_spec (s_authPolicy s) in
      if \<not> spec_enabled spec then None
      else if s_invalidConfig s then None
      else Some
        \<lparr>ra_meta = meta, ra_selector = ws_matchLabels (spec_selector spec),
         ra_jwtRules =
           [\<lparr>jr_issuer = idp_issuerURI (s_identityProviderUris s),
             jr_audiences = (if length (s_audiences s) > 0 then s_audiences s else []),
             jr_jwksUri = idp_jwksURI (s_identityProviderUris s),
             jr_forwardOriginalToken = (case spec_forwardJwt spec of None \<Rightarrow> True | Some b \<Rightarrow> b),
             jr_outputClaimToHeaders =
               (case spec_outputClaimToHeaders spec of None \<Rightarrow> []
                | Some cs \<Rightarrow> map (\<lambda>c. \<lparr>cth_header = cth_header c, cth_claim = cth_claim c\<rparr>) cs)\<rparr>]\<rparr>)"

section \<open>Secret (auto_login_secret.go)\<close>

definition TokenSecretFileName :: string where
  "TokenSecretFileName = ''token-secret.yaml''"

definition HmacSecretFileName :: string where
  "HmacSecretFileName = ''hmac-secret.yaml''"

definition envoySecretValue :: "string \<Rightarrow> string \<Rightarrow> string \<Rightarrow> pb_value" where
  "envoySecretValue resourceName secretValue secretType =
     PbStruct [(''resources'', PbList [PbStruct
       [(''@type'', PbString ''type.googleapis.com/envoy.extensions.transport_sockets.tls.v3.Secret''),
        (''name'', PbString resourceName),
        (''generic_secret'', PbStruct [(''secret'', PbStruct [(secretType, PbString secretValue)])])]])]"

definition getEnvoySecretDataValue :: "generatorEnv \<Rightarrow> string \<Rightarrow> string \<Rightarrow> string \<Rightarrow> string option" where
  "getEnvoySecretDataValue env resourceName secretValue secretType =
     ge_yamlMarshal env (envoySecretValue resourceName secretValue secretType)"

definition getEnvoySecret :: "generatorEnv \<Rightarrow> objectMeta \<Rightarrow> string \<Rightarrow> secret option" where
  "getEnvoySecret env meta clientSecret =
     Option.bind (GenerateHMACSecret env 32) (\<lambda>hmacSecret.
     Option.bind (getEnvoySecretDataValue env ''hmac'' hmacSecret ''inline_bytes'') (\<lambda>hmacValue.
     Option.bind (getEnvoySecretDataValue env ''token'' clientSecret ''inline_string'') (\<lambda>tokenValue.
       Some \<lparr>sec_meta = meta, sec_type = ''Opaque'',
             sec_data = [(HmacSecretFileName, hmacValue), (TokenSecretFileName, tokenValue)]\<rparr>)))"

text \<open>When the automatic login is on for a valid policy: the guard of both generators.\<close>

definition autoLoginActive :: "'o scope \<Rightarrow> bool" where
  "autoLoginActive s \<longleftrightarrow>
     \<not> (\<not> spec_enabled (ap_spec (s_authPolicy s)) \<or> s_invalidConfig s \<or>
        (case spec_autoLogin (ap_spec (s_authPolicy s)) of None \<Rightarrow> True | Some al \<Rightarrow> \<not> al_enabled al))"

definition nil_dereference :: string where
  "nil_dereference = ''invalid memory address or nil pointer dereference''"

definition secret_GetDesired :: "generatorEnv \<Rightarrow> 'o scope \<Rightarrow> objectMeta \<Rightarrow> string + secret option" where
  "secret_GetDesired env s meta =
     (if \<not> autoLoginActive s then Inr None
      else case cr_clientSecret (s_oauthCredentials s) of
             None \<Rightarrow> Inl nil_dereference
           | Some clientSecret \<Rightarrow> Inr (getEnvoySecret env meta clientSecret))"

section \<open>The patches (configpatch)\<close>

definition GetLuaScriptConfigPatch :: "'o scope \<Rightarrow> pb_value" where
  "GetLuaScriptConfigPatch s =
     PbStruct [(''name'', PbString ''envoy.filters.http.lua''),
       (''typed_config'', PbStruct
         [(''@type'', PbString ''type.googleapis.com/envoy.extensions.filters.http.lua.v3.Lua''),
          (''default_source_code'', PbStruct
            [(''inline_string'', PbString (alc_luaScript (s_autoLoginConfig s)))])])]"

definition load_assignment :: "string \<Rightarrow> int \<Rightarrow> pb_value" where
  "load_assignment hostname port =
     PbStruct [(''cluster_name'', PbString ''oauth''),
       (''endpoints'', PbList [PbStruct [(''lb_endpoints'', PbList [PbStruct [(''endpoint'', PbStruct
         [(''address'', PbStruct [(''socket_address'', PbStruct
           [(''address'', PbString hostname), (''port_value'', PbNumber port)])])])]])]])]"

definition cluster_head :: "(string \<times> pb_value) list" where
  "cluster_head =
     [(''name'', PbString ''oauth''), (''dns_lookup_family'', PbString ''V4_ONLY''),
      (''type'', PbString ''LOGICAL_DNS''), (''connect_timeout'', PbString ''10s''),
      (''lb_policy'', PbString ''ROUND_ROBIN'')]"

definition GetInternalOAuthClusterConfigPatchValue :: "string \<Rightarrow> int \<Rightarrow> pb_value" where
  "GetInternalOAuthClusterConfigPatchValue idpHostname port =
     PbStruct (cluster_head @ [(''load_assignment'', load_assignment idpHostname port)])"

definition GetExternalOAuthClusterPatchValue :: "string \<Rightarrow> pb_value" where
  "GetExternalOAuthClusterPatchValue idpHostname =
     PbStruct (cluster_head @
       [(''transport_socket'', PbStruct
          [(''name'', PbString ''envoy.transport_sockets.tls''),
           (''typed_config'', PbStruct
             [(''@type'', PbString ''type.googleapis.com/envoy.extensions.transport_sockets.tls.v3.UpstreamTlsContext''),
              (''sni'', PbString idpHostname)])]),
        (''load_assignment'', load_assignment idpHostname 443)])"

definition IstioCredentialsDirectory :: string where
  "IstioCredentialsDirectory = ''/etc/istio/config''"

definition IstioTokenSecretSource :: string where
  "IstioTokenSecretSource = ''/etc/istio/config/'' @ TokenSecretFileName"

definition IstioHmacSecretSource :: string where
  "IstioHmacSecretSource = ''/etc/istio/config/'' @ HmacSecretFileName"

definition exact_path :: "string \<Rightarrow> pb_value" where
  "exact_path p = PbStruct [(''path'', PbStruct [(''exact'', PbString p)])]"

definition header_match :: "string \<Rightarrow> string \<Rightarrow> string \<Rightarrow> pb_value" where
  "header_match name how what =
     PbStruct [(''name'', PbString name), (''string_match'', PbStruct [(how, PbString what)])]"

definition sds_secret :: "string \<Rightarrow> string \<Rightarrow> pb_value" where
  "sds_secret name source =
     PbStruct [(''name'', PbString name), (''sds_config'', PbStruct [(''path_config_source'', PbStruct
       [(''path'', PbString source),
        (''watched_directory'', PbStruct [(''path'', PbString IstioCredentialsDirectory)])])])]"

definition cookie_names :: "string list" where
  "cookie_names =
     [''bearer_token_cookie_config'', ''oauth_hmac_cookie_config'', ''oauth_expires_cookie_config'',
      ''id_token_cookie_config'', ''refresh_token_cookie_config'', ''oauth_nonce_cookie_config'',
      ''code_verifier_cookie_config'']"

definition authScopes :: "autoLoginConfig \<Rightarrow> string list" where
  "authScopes cfg = (if ''openid'' \<in> set (alc_scopes cfg) then alc_scopes cfg else alc_scopes cfg @ [''openid''])"

definition oauth_config :: "'o scope \<Rightarrow> string \<Rightarrow> (string \<times> pb_value) list" where
  "oauth_config s clientID =
     (let cfg = s_autoLoginConfig s; uris = s_identityProviderUris s
      in [(''token_endpoint'', PbStruct [(''cluster'', PbString ''oauth''), (''uri'', PbString (idp_tokenURI uris)),
             (''timeout'', PbString ''5s'')]),
          (''retry_policy'', PbStruct []),
          (''authorization_endpoint'', PbString (idp_authorizationURI uris)),
          (''redirect_uri'', PbString (''https://%REQ(:authority)%'' @ alc_redirectPath cfg)),
          (''redirect_path_matcher'', exact_path (alc_redirectPath cfg)),
          (''signout_path'', exact_path (alc_logoutPath cfg)),
          (''forward_bearer_token'', PbBool True),
          (''use_refresh_token'', PbBool True),
          (''pass_through_matcher'', PbList
             [header_match ''authorization'' ''prefix'' ''Bearer '',
              header_match BypassOauthLoginHeaderName ''exact'' ''true'']),
          (''deny_redirect_matcher'', PbList [header_match DenyRedirectHeaderName ''exact'' ''true'']),
          (''credentials'', PbStruct [(''client_id'', PbString clientID),
             (''token_secret'', sds_secret ''token'' IstioTokenSecretSource),
             (''hmac_secret'', sds_secret ''hmac'' IstioHmacSecretSource)]),
          (''auth_scopes'', PbList (map PbString (authScopes cfg))),
          (''cookie_configs'', PbStruct (map (\<lambda>n. (n, PbStruct [(''same_site'', PbString ''LAX'')])) cookie_names))] @
         (case spec_acceptedResources (ap_spec (s_authPolicy s)) of None \<Rightarrow> []
          | Some rs \<Rightarrow> if length rs > 0 then [(''resources'', PbList (map PbString rs))] else []) @
         (case idp_endSessionURI uris of None \<Rightarrow> [] | Some u \<Rightarrow> [(''end_session_endpoint'', PbString u)]))"

definition GetOAuthSidecarConfigPatchValue :: "'o scope \<Rightarrow> string + pb_value" where
  "GetOAuthSidecarConfigPatchValue s =
     (case cr_clientID (s_oauthCredentials s) of
        None \<Rightarrow> Inl nil_dereference
      | Some clientID \<Rightarrow> Inr (PbStruct
          [(''name'', PbString ''envoy.filters.http.oauth2''),
           (''typed_config'', PbStruct
             [(''@type'', PbString ''type.googleapis.com/envoy.extensions.filters.http.oauth2.v3.OAuth2''),
              (''config'', PbStruct (oauth_config s clientID))])]))"

section \<open>EnvoyFilter (auto_login_envoy_filter.go)\<close>

definition http_connection_manager :: string where
  "http_connection_manager = ''envoy.filters.network.http_connection_manager''"

definition clusterPatchValue :: "'o scope \<Rightarrow> string + pb_value" where
  "clusterPatchValue s =
     (case GetParsedURL (idp_tokenURI (s_identityProviderUris s)) of
        Inl e \<Rightarrow> Inl (''failed to get issuer hostname from issuer URI '' @
          idp_issuerURI (s_identityProviderUris s) @ '' due to the following error: '' @ e)
      | Inr url \<Rightarrow>
          (let (hostname, port) = splitHostPort (u_Host url)
           in if port \<noteq> []
              then (case Atoi_digits port of
                      None \<Rightarrow> Inl (''strconv.Atoi: parsing '' @ port)
                    | Some n \<Rightarrow> Inr (GetInternalOAuthClusterConfigPatchValue hostname n))
              else Inr (GetExternalOAuthClusterPatchValue (u_Host url))))"

definition newStruct :: "generatorEnv \<Rightarrow> string \<Rightarrow> pb_value \<Rightarrow> string + pb_value" where
  "newStruct env what v =
     (if ge_pbValid env v then Inr v else Inl (''failed to serialize '' @ what))"

definition envoyfilter_GetDesired :: "generatorEnv \<Rightarrow> 'o scope \<Rightarrow> objectMeta \<Rightarrow> string + envoyFilter option" where
  "envoyfilter_GetDesired env s meta =
     (if \<not> autoLoginActive s then Inr None
      else
        res_bind (clusterPatchValue s) (\<lambda>cluster.
        res_bind (newStruct env ''Lua script config patch value'' (GetLuaScriptConfigPatch s)) (\<lambda>luaPb.
        res_bind (newStruct env ''OAuth Cluster Config Patch to protobuf struct'' cluster) (\<lambda>clusterPb.
        res_bind (GetOAuthSidecarConfigPatchValue s) (\<lambda>sidecar.
        res_bind (newStruct env ''OAuth Sidecar Config Patch to protobuf struct'' sidecar) (\<lambda>sidecarPb.
          Inr (Some
            \<lparr>ef_meta = meta, ef_selector = ws_matchLabels (spec_selector (ap_spec (s_authPolicy s))),
             ef_configPatches =
               [\<lparr>cp_applyTo = HttpFilter, cp_inbound = True, cp_match = MatchListener http_connection_manager None,
                 cp_operation = InsertBefore, cp_value = luaPb\<rparr>,
                \<lparr>cp_applyTo = Cluster, cp_inbound = False, cp_match = MatchCluster ''oauth'',
                 cp_operation = AddOp, cp_value = clusterPb\<rparr>,
                \<lparr>cp_applyTo = HttpFilter, cp_inbound = True,
                 cp_match = MatchListener http_connection_manager (Some ''envoy.filters.http.jwt_authn''),
                 cp_operation = InsertBefore, cp_value = sidecarPb\<rparr>]\<rparr>)))))))"

section \<open>Encodable patches\<close>

text \<open>\<open>structpb.NewStruct\<close> documents that it fails for keys and strings that are no valid UTF-8.\<close>

fun pb_texts :: "pb_value \<Rightarrow> string list" where
  "pb_texts (PbString s) = [s]"
| "pb_texts (PbNumber n) = []"
| "pb_texts (PbBool b) = []"
| "pb_texts (PbList vs) = concat (map pb_texts vs)"
| "pb_texts (PbStruct fs) = concat (map (\<lambda>(k, v). k # pb_texts v) fs)"

definition pb_utf8 :: "pb_value \<Rightarrow> bool" where
  "pb_utf8 v \<longleftrightarrow> list_all utf8_valid (pb_texts v)"

lemma pb_utf8_simps [simp]:
  "pb_utf8 (PbString s) \<longleftrightarrow> utf8_valid s" "pb_utf8 (PbNumber n)" "pb_utf8 (PbBool b)"
  "pb_utf8 (PbList vs) \<longleftrightarrow> list_all pb_utf8 vs"
  "pb_utf8 (PbStruct fs) \<longleftrightarrow> list_all (\<lambda>(k, v). utf8_valid k \<and> pb_utf8 v) fs"
  by (auto simp: pb_utf8_def list_all_iff split: prod.splits) (fastforce+)?

lemma lua_patch_utf8: "pb_utf8 (GetLuaScriptConfigPatch s) \<longleftrightarrow> utf8_valid (alc_luaScript (s_autoLoginConfig s))"
  by (simp add: GetLuaScriptConfigPatch_def)

lemma cluster_utf8:
  "pb_utf8 (GetInternalOAuthClusterConfigPatchValue h n) \<longleftrightarrow> utf8_valid h"
  "pb_utf8 (GetExternalOAuthClusterPatchValue h) \<longleftrightarrow> utf8_valid h"
  by (simp_all add: GetInternalOAuthClusterConfigPatchValue_def GetExternalOAuthClusterPatchValue_def
      load_assignment_def cluster_head_def)

definition sidecar_texts :: "'o scope \<Rightarrow> string list" where
  "sidecar_texts s =
     [idp_tokenURI (s_identityProviderUris s), idp_authorizationURI (s_identityProviderUris s),
      alc_redirectPath (s_autoLoginConfig s), alc_logoutPath (s_autoLoginConfig s)] @
     alc_scopes (s_autoLoginConfig s) @
     (case spec_acceptedResources (ap_spec (s_authPolicy s)) of None \<Rightarrow> [] | Some rs \<Rightarrow> rs) @
     (case idp_endSessionURI (s_identityProviderUris s) of None \<Rightarrow> [] | Some u \<Rightarrow> [u])"

lemma sidecar_utf8:
  assumes "list_all utf8_valid (sidecar_texts s)" and "cr_clientID (s_oauthCredentials s) = Some clientID"
    and "GetOAuthSidecarConfigPatchValue s = Inr v"
  shows "pb_utf8 v \<longleftrightarrow> utf8_valid clientID"
proof -
  have "list_all utf8_valid (authScopes (s_autoLoginConfig s))"
    using assms(1) by (simp add: authScopes_def sidecar_texts_def)
  then have scopes: "list_all (pb_utf8 \<circ> PbString) (authScopes (s_autoLoginConfig s))"
    by (simp add: list_all_iff)
  have resources: "list_all (pb_utf8 \<circ> PbString) rs" if "spec_acceptedResources (ap_spec (s_authPolicy s)) = Some rs" for rs
    using assms(1) that by (simp add: sidecar_texts_def list_all_iff)
  have sources: "utf8_valid IstioTokenSecretSource" "utf8_valid IstioHmacSecretSource" "utf8_valid IstioCredentialsDirectory"
    "utf8_valid BypassOauthLoginHeaderName" "utf8_valid DenyRedirectHeaderName"
    by (simp_all add: IstioTokenSecretSource_def IstioHmacSecretSource_def IstioCredentialsDirectory_def
        TokenSecretFileName_def HmacSecretFileName_def BypassOauthLoginHeaderName_def DenyRedirectHeaderName_def)
  have v: "v = PbStruct
          [(''name'', PbString ''envoy.filters.http.oauth2''),
           (''typed_config'', PbStruct
             [(''@type'', PbString ''type.googleapis.com/envoy.extensions.filters.http.oauth2.v3.OAuth2''),
              (''config'', PbStruct (oauth_config s clientID))])]"
    using assms(2, 3) by (simp add: GetOAuthSidecarConfigPatchValue_def)
  have "pb_utf8 v \<longleftrightarrow> list_all (\<lambda>(k, v). utf8_valid k \<and> pb_utf8 v) (oauth_config s clientID)"
    by (simp add: v)
  also have "\<dots> \<longleftrightarrow> utf8_valid clientID"
    using assms(1) scopes resources sources
    by (cases "spec_acceptedResources (ap_spec (s_authPolicy s))"; cases "idp_endSessionURI (s_identityProviderUris s)";
        simp add: oauth_config_def sidecar_texts_def exact_path_def header_match_def sds_secret_def cookie_names_def
        Let_def list.pred_map)
  finally show ?thesis .
qed

text \<open>A token endpoint whose URL parses and has no port or one that fits an integer.\<close>

definition token_port_ok :: "string \<Rightarrow> bool" where
  "token_port_ok uri =
     (case url_Parse uri of Inl _ \<Rightarrow> False
      | Inr u \<Rightarrow> snd (splitHostPort (u_Host u)) = [] \<or> Atoi_digits (snd (splitHostPort (u_Host u))) \<noteq> None)"

text \<open>The host that the cluster is made for; a percent-encoded one may decode to any bytes.\<close>

definition token_host :: "string \<Rightarrow> string" where
  "token_host uri =
     (case url_Parse uri of Inl _ \<Rightarrow> []
      | Inr u \<Rightarrow> if snd (splitHostPort (u_Host u)) = [] then u_Host u else fst (splitHostPort (u_Host u)))"

lemma cluster_made:
  "(\<exists>v. clusterPatchValue s = Inr v) \<longleftrightarrow> token_port_ok (idp_tokenURI (s_identityProviderUris s))"
  by (auto simp: token_port_ok_def clusterPatchValue_def split: sum.splits prod.splits option.splits)

lemma cluster_patch_utf8:
  "clusterPatchValue s = Inr v \<Longrightarrow> pb_utf8 v \<longleftrightarrow> utf8_valid (token_host (idp_tokenURI (s_identityProviderUris s)))"
  by (auto simp: token_host_def clusterPatchValue_def cluster_utf8 split: sum.splits prod.splits option.splits if_splits)

text \<open>The texts of the patches other than that host and the client id.\<close>

definition filter_texts :: "'o scope \<Rightarrow> string list" where
  "filter_texts s = alc_luaScript (s_autoLoginConfig s) # sidecar_texts s"

definition patches_encodable :: "generatorEnv \<Rightarrow> 'o scope \<Rightarrow> bool" where
  "patches_encodable env s \<longleftrightarrow>
     ge_pbValid env (GetLuaScriptConfigPatch s) \<and>
     list_all (\<lambda>r. case r of Inl _ \<Rightarrow> True | Inr v \<Rightarrow> ge_pbValid env v)
       [clusterPatchValue s, GetOAuthSidecarConfigPatchValue s]"

lemma patches_encodable_utf8:
  assumes "\<And>v. pb_utf8 v \<Longrightarrow> ge_pbValid env v" and "list_all utf8_valid (filter_texts s)"
    and "cr_clientID (s_oauthCredentials s) = Some clientID" and "utf8_valid clientID"
    and "utf8_valid (token_host (idp_tokenURI (s_identityProviderUris s)))"
  shows "patches_encodable env s"
  using assms(2, 4, 5) sidecar_utf8 [OF _ assms(3)] cluster_patch_utf8 [of s]
  by (auto simp: patches_encodable_def filter_texts_def lua_patch_utf8 intro!: assms(1) split: sum.split)

text \<open>The generator returns exactly when its preconditions hold.\<close>

lemma envoyfilter_returns:
  assumes "autoLoginActive s"
  shows "(\<exists>x. envoyfilter_GetDesired env s meta = Inr x) \<longleftrightarrow>
    token_port_ok (idp_tokenURI (s_identityProviderUris s)) \<and> cr_clientID (s_oauthCredentials s) \<noteq> None \<and>
    patches_encodable env s"
  using assms
  by (cases "clusterPatchValue s"; cases "cr_clientID (s_oauthCredentials s)")
    (auto simp: envoyfilter_GetDesired_def newStruct_def patches_encodable_def cluster_made [symmetric]
      GetOAuthSidecarConfigPatchValue_def)

section \<open>The contract of the generators\<close>

text \<open>
  All generators make nothing for a disabled policy, and give the object the metadata they are
  called with; those that select workloads use the policy's selector.
\<close>

locale generator =
  fixes gen :: "'o scope \<Rightarrow> objectMeta \<Rightarrow> 'r option" and meta_of :: "'r \<Rightarrow> objectMeta"
  assumes disabled: "\<not> spec_enabled (ap_spec (s_authPolicy s)) \<Longrightarrow> gen s meta = None"
    and meta_given: "gen s meta = Some r \<Longrightarrow> meta_of r = meta"
begin

lemma built_meta:
  assumes "gen s (buildObjectMeta name namespace) = Some r"
  shows "om_name (meta_of r) = name" and "om_namespace (meta_of r) = namespace"
    and "om_labels (meta_of r) = AuthPolicyStandardLabels" and "om_owners (meta_of r) = []"
  using meta_given [OF assms] by (simp_all add: buildObjectMeta_def)

end

locale selecting_generator = generator +
  fixes selector_of :: "'b \<Rightarrow> labels"
  assumes selects: "gen s meta = Some r \<Longrightarrow> selector_of r = ws_matchLabels (spec_selector (ap_spec (s_authPolicy s)))"
begin

text \<open>An object is made only for an enabled policy, and applies to the workloads it selects.\<close>

lemma made_for:
  assumes "gen s meta = Some r"
  shows "spec_enabled (ap_spec (s_authPolicy s))" and "selector_of r = ws_matchLabels (spec_selector (ap_spec (s_authPolicy s)))"
  using assms disabled [of s meta] selects [OF assms] by auto

end

definition no_panic :: "'e + 'r option \<Rightarrow> 'r option" where
  "no_panic r = (case r of Inl _ \<Rightarrow> None | Inr x \<Rightarrow> x)"

lemma no_panic_simps [simp]: "no_panic (Inl e) = None" "no_panic (Inr x) = x"
  by (simp_all add: no_panic_def)

interpretation deny_gen: selecting_generator deny_GetDesired azp_meta azp_selector
  by unfold_locales
     (auto simp: deny_GetDesired_def DenyAuthorizationPolicy_def mkAuthorizationPolicy_def
       split: if_splits option.splits)

interpretation ignore_gen: selecting_generator ignore_GetDesired azp_meta azp_selector
  by unfold_locales
     (auto simp: ignore_GetDesired_def AllowAuthorizationPolicy_def mkAuthorizationPolicy_def Let_def
       split: if_splits)

interpretation require_gen: selecting_generator "require_GetDesired newcap" azp_meta azp_selector for newcap
  by unfold_locales
     (auto simp: require_GetDesired_def AllowAuthorizationPolicy_def mkAuthorizationPolicy_def Let_def
       split: if_splits prod.splits)

interpretation requestauthentication_gen: selecting_generator requestauthentication_GetDesired ra_meta ra_selector
  by unfold_locales (auto simp: requestauthentication_GetDesired_def Let_def split: if_splits)

lemma envoyfilter_Some:
  assumes "no_panic (envoyfilter_GetDesired env s meta) = Some ef"
  shows "autoLoginActive s" and "ef_meta ef = meta"
    and "ef_selector ef = ws_matchLabels (spec_selector (ap_spec (s_authPolicy s)))"
proof -
  from assms have "envoyfilter_GetDesired env s meta = Inr (Some ef)"
    by (auto simp: no_panic_def split: sum.splits)
  then show "autoLoginActive s" and "ef_meta ef = meta"
    and "ef_selector ef = ws_matchLabels (spec_selector (ap_spec (s_authPolicy s)))"
    by (auto simp: envoyfilter_GetDesired_def res_bind_Inr_iff split: if_splits)
qed

interpretation envoyfilter_gen:
  selecting_generator "\<lambda>s meta. no_panic (envoyfilter_GetDesired env s meta)" ef_meta ef_selector for env
proof
  show "no_panic (envoyfilter_GetDesired env s meta) = None" if "\<not> spec_enabled (ap_spec (s_authPolicy s))"
    for s :: "'a scope" and meta
    using that by (simp add: envoyfilter_GetDesired_def autoLoginActive_def)
qed (auto dest: envoyfilter_Some)

lemma secret_Some:
  assumes "no_panic (secret_GetDesired env s meta) = Some x"
  shows "autoLoginActive s" and "sec_meta x = meta" and "map_of (sec_data x) TokenSecretFileName \<noteq> None"
    and "map_of (sec_data x) HmacSecretFileName \<noteq> None"
proof -
  from assms have "\<exists>cs. getEnvoySecret env meta cs = Some x" and "autoLoginActive s"
    by (auto simp: secret_GetDesired_def split: if_splits option.splits)
  then show "autoLoginActive s" and "sec_meta x = meta" and "map_of (sec_data x) TokenSecretFileName \<noteq> None"
    and "map_of (sec_data x) HmacSecretFileName \<noteq> None"
    by (auto simp: getEnvoySecret_def bind_eq_Some_conv TokenSecretFileName_def HmacSecretFileName_def)
qed

interpretation secret_gen: generator "\<lambda>s meta. no_panic (secret_GetDesired env s meta)" sec_meta for env
proof
  show "no_panic (secret_GetDesired env s meta) = None" if "\<not> spec_enabled (ap_spec (s_authPolicy s))"
    for s :: "'a scope" and meta
    using that by (simp add: secret_GetDesired_def autoLoginActive_def)
qed (auto dest: secret_Some)

section \<open>Lengths\<close>

lemma base64_length: "length (base64 s) = 4 * ((length s + 2) div 3)"
proof (induction s rule: base64.induct)
  case (4 a b c rest)
  have "(length (a # b # c # rest) + 2) div 3 = (length rest + 2) div 3 + 1"
    using div_add_self2 [of 3 "length rest + 2"] by (simp add: add.commute)
  with 4 show ?case by (simp add: Let_def)
qed (simp_all add: Let_def)

text \<open>An environment for concrete runs, with a token endpoint on an explicit port.\<close>

definition example_env :: generatorEnv where
  "example_env = \<lparr>ge_newcap = go_newcap, ge_yamlMarshal = (\<lambda>v. Some ''yaml''),
     ge_pbValid = (\<lambda>v. True),
     ge_run = \<lparr>rc_randomBytes = (\<lambda>n. Some (replicate n (CHR ''A''))), rc_sameInternals = (\<lambda>f a b. True)\<rparr>\<rparr>"

section \<open>What the patches tell Envoy\<close>

text \<open>
  The value a message holds at a path of fields and list positions, and from it, without the functions
  that write the patches, what Envoy must read in them: where a cluster sends its requests and whether it
  opens TLS, which script the Lua filter runs, and which credentials and addresses the OAuth2 filter uses.
\<close>

datatype pb_step = Field string | Position nat

fun pb_at :: "pb_step list \<Rightarrow> pb_value \<Rightarrow> pb_value option" where
  "pb_at [] v = Some v"
| "pb_at (Field name # steps) (PbStruct fs) = Option.bind (map_of fs name) (pb_at steps)"
| "pb_at (Position i # steps) (PbList vs) = (if i < length vs then pb_at steps (vs ! i) else None)"
| "pb_at (step # steps) v = None"

definition pb_string_at :: "pb_value \<Rightarrow> pb_step list \<Rightarrow> string \<Rightarrow> bool" where
  "pb_string_at v steps t \<longleftrightarrow> pb_at steps v = Some (PbString t)"

definition endpoints_of :: "pb_step list" where
  "endpoints_of = [Field ''load_assignment'', Field ''endpoints'']"

definition socket_of :: "pb_step list" where
  "socket_of = endpoints_of @ [Position 0, Field ''lb_endpoints'', Position 0, Field ''endpoint'', Field ''address'',
     Field ''socket_address'']"

definition cluster_sends_to :: "string \<Rightarrow> int \<Rightarrow> pb_value \<Rightarrow> bool" where
  "cluster_sends_to host port v \<longleftrightarrow>
     pb_string_at v (socket_of @ [Field ''address'']) host \<and>
     pb_at (socket_of @ [Field ''port_value'']) v = Some (PbNumber port) \<and>
     pb_at (endpoints_of @ [Position 1]) v = None \<and>
     pb_at (endpoints_of @ [Position 0, Field ''lb_endpoints'', Position 1]) v = None"

definition cluster_named :: "string \<Rightarrow> pb_value \<Rightarrow> bool" where
  "cluster_named name v \<longleftrightarrow>
     pb_string_at v [Field ''name''] name \<and> pb_string_at v [Field ''load_assignment'', Field ''cluster_name''] name"

definition opens_tls_to :: "string \<Rightarrow> pb_value \<Rightarrow> bool" where
  "opens_tls_to host v \<longleftrightarrow>
     pb_string_at v [Field ''transport_socket'', Field ''name''] ''envoy.transport_sockets.tls'' \<and>
     pb_string_at v [Field ''transport_socket'', Field ''typed_config'', Field ''@type'']
       ''type.googleapis.com/envoy.extensions.transport_sockets.tls.v3.UpstreamTlsContext'' \<and>
     pb_string_at v [Field ''transport_socket'', Field ''typed_config'', Field ''sni''] host"

definition sends_plainly :: "pb_value \<Rightarrow> bool" where
  "sends_plainly v \<longleftrightarrow> pb_at [Field ''transport_socket''] v = None"

definition runs_script :: "string \<Rightarrow> pb_value \<Rightarrow> bool" where
  "runs_script script v \<longleftrightarrow>
     pb_string_at v [Field ''typed_config'', Field ''@type'']
       ''type.googleapis.com/envoy.extensions.filters.http.lua.v3.Lua'' \<and>
     pb_string_at v [Field ''typed_config'', Field ''default_source_code'', Field ''inline_string''] script"

definition oauth_of :: "pb_step list" where
  "oauth_of = [Field ''typed_config'', Field ''config'']"

definition logs_in_with :: "string \<Rightarrow> identityProviderUris \<Rightarrow> autoLoginConfig \<Rightarrow> pb_value \<Rightarrow> bool" where
  "logs_in_with clientID uris cfg v \<longleftrightarrow>
     pb_string_at v [Field ''typed_config'', Field ''@type'']
       ''type.googleapis.com/envoy.extensions.filters.http.oauth2.v3.OAuth2'' \<and>
     pb_string_at v (oauth_of @ [Field ''token_endpoint'', Field ''cluster'']) ''oauth'' \<and>
     pb_string_at v (oauth_of @ [Field ''token_endpoint'', Field ''uri'']) (idp_tokenURI uris) \<and>
     pb_string_at v (oauth_of @ [Field ''authorization_endpoint'']) (idp_authorizationURI uris) \<and>
     pb_string_at v (oauth_of @ [Field ''redirect_path_matcher'', Field ''path'', Field ''exact'']) (alc_redirectPath cfg) \<and>
     pb_string_at v (oauth_of @ [Field ''signout_path'', Field ''path'', Field ''exact'']) (alc_logoutPath cfg) \<and>
     pb_string_at v (oauth_of @ [Field ''credentials'', Field ''client_id'']) clientID \<and>
     pb_string_at v (oauth_of @ [Field ''credentials'', Field ''token_secret'', Field ''sds_config'',
       Field ''path_config_source'', Field ''path'']) ''/etc/istio/config/token-secret.yaml'' \<and>
     pb_string_at v (oauth_of @ [Field ''credentials'', Field ''hmac_secret'', Field ''sds_config'',
       Field ''path_config_source'', Field ''path'']) ''/etc/istio/config/hmac-secret.yaml'' \<and>
     pb_at (oauth_of @ [Field ''end_session_endpoint'']) v = map_option PbString (idp_endSessionURI uris)"

lemmas patch_reading = pb_string_at_def endpoints_of_def socket_of_def cluster_sends_to_def cluster_named_def
  opens_tls_to_def sends_plainly_def runs_script_def oauth_of_def logs_in_with_def

lemma external_cluster_read:
  "cluster_named ''oauth'' (GetExternalOAuthClusterPatchValue h)"
  "cluster_sends_to h 443 (GetExternalOAuthClusterPatchValue h)" "opens_tls_to h (GetExternalOAuthClusterPatchValue h)"
  by (simp_all add: patch_reading GetExternalOAuthClusterPatchValue_def cluster_head_def load_assignment_def)

lemma internal_cluster_read:
  "cluster_named ''oauth'' (GetInternalOAuthClusterConfigPatchValue h n)"
  "cluster_sends_to h n (GetInternalOAuthClusterConfigPatchValue h n)"
  "sends_plainly (GetInternalOAuthClusterConfigPatchValue h n)"
  by (simp_all add: patch_reading GetInternalOAuthClusterConfigPatchValue_def cluster_head_def load_assignment_def)

lemma lua_patch_read: "runs_script (alc_luaScript (s_autoLoginConfig s)) (GetLuaScriptConfigPatch s)"
  by (simp add: patch_reading GetLuaScriptConfigPatch_def)

lemma sidecar_read:
  assumes "cr_clientID (s_oauthCredentials s) = Some clientID"
  shows "\<exists>v. GetOAuthSidecarConfigPatchValue s = Inr v \<and>
    logs_in_with clientID (s_identityProviderUris s) (s_autoLoginConfig s) v"
  using assms
  by (cases "spec_acceptedResources (ap_spec (s_authPolicy s))"; cases "idp_endSessionURI (s_identityProviderUris s)")
    (simp_all add: patch_reading GetOAuthSidecarConfigPatchValue_def oauth_config_def exact_path_def sds_secret_def
      IstioTokenSecretSource_def IstioHmacSecretSource_def TokenSecretFileName_def HmacSecretFileName_def Let_def)

section \<open>Properties\<close>

text \<open>The cookie signing key of a generated secret is the base64 text of 32 random bytes.\<close>

lemma hmac_secret_length:
  assumes "GenerateHMACSecret env 32 = Some t" and "\<And>b. rc_randomBytes (ge_run env) 32 = Some b \<Longrightarrow> length b = 32"
  shows "length t = 44"
  using assms by (auto simp: GenerateHMACSecret_def base64_length)

lemma plain_host_utf8: "plain_host h \<Longrightarrow> utf8_valid h"
proof (rule ascii_valid)
  assume "plain_host h"
  moreover have "\<not> digit7 c" if "is_letter c \<or> is_digit c \<or> c \<in> set ''-.''" for c
    using that by (auto simp: is_letter_def is_digit_def digit7_iff less_eq_char_def)
  ultimately show "ascii_text h" unfolding plain_host_def ascii_text_def by (simp add: list_all_iff)
qed

text \<open>C32: with the automatic login active, a client id, an encoder that takes every patch of valid UTF-8
  texts and such texts in the scope, a token endpoint with scheme, host, path and maybe a port below 2 to
  the 63 makes the generator return a filter with three patches in this order.  The first runs the
  generated Lua script in front of the HTTP filters; the second adds the cluster named \<open>oauth\<close>, which sends
  to the endpoint's host only: over TLS with that host as its server name on port 443 when the endpoint names no
  port, and without TLS on the port it names otherwise; the third inserts, before token validation, the
  OAuth2 filter that uses the endpoint through that cluster with the client id and the mounted secrets.\<close>

theorem token_endpoint_cluster:
  assumes "autoLoginActive s" and "cr_clientID (s_oauthCredentials s) = Some clientID"
    and "\<And>v. pb_utf8 v \<Longrightarrow> ge_pbValid env v" and "list_all utf8_valid (clientID # filter_texts s)"
    and "idp_tokenURI (s_identityProviderUris s) = scheme @ ''://'' @ h @ port @ path"
    and "plain_scheme scheme" and "plain_host h" and "plain_path path" and "path = [] \<or> HasPrefix path ''/''"
    and "port = [] \<or> port = '':'' @ digits \<and> digits \<noteq> [] \<and> list_all is_digit digits \<and> digits_value digits < 2 ^ 63"
  shows "\<exists>ef lua cluster sidecar. envoyfilter_GetDesired env s meta = Inr (Some ef) \<and>
    map (\<lambda>p. (cp_applyTo p, cp_match p, cp_operation p, cp_value p)) (ef_configPatches ef) =
      [(HttpFilter, MatchListener http_connection_manager None, InsertBefore, lua),
       (Cluster, MatchCluster ''oauth'', AddOp, cluster),
       (HttpFilter, MatchListener http_connection_manager (Some ''envoy.filters.http.jwt_authn''), InsertBefore, sidecar)] \<and>
    runs_script (alc_luaScript (s_autoLoginConfig s)) lua \<and>
    cluster_named ''oauth'' cluster \<and>
    (if port = [] then cluster_sends_to h 443 cluster \<and> opens_tls_to h cluster
     else cluster_sends_to h (int (digits_value digits)) cluster \<and> sends_plainly cluster) \<and>
    logs_in_with clientID (s_identityProviderUris s) (s_autoLoginConfig s) sidecar"
proof -
  have "validOptionalPort port" using assms(10) by (auto simp: validOptionalPort_def)
  from Parse_endpoint [OF assms(6, 7) this assms(8, 9)]
  have url: "url_Parse (idp_tokenURI (s_identityProviderUris s)) =
      Inr \<lparr>u_Scheme = ToLower scheme, u_Host = h @ port, u_Path = path\<rparr>"
    using assms(5) by simp
  note split = splitHostPort_plain [OF assms(7)] splitHostPort_port [of digits, OF _ plain_host_bracket [OF assms(7)]]
  have "token_host (idp_tokenURI (s_identityProviderUris s)) = h"
    using assms(10) url split by (auto simp: token_host_def)
  then have "patches_encodable env s"
    using assms(4) by (intro patches_encodable_utf8 [OF assms(3) _ assms(2)]) (simp_all add: plain_host_utf8 [OF assms(7)])
  moreover have "clusterPatchValue s =
      Inr (if port = [] then GetExternalOAuthClusterPatchValue h
           else GetInternalOAuthClusterConfigPatchValue h (int (digits_value digits)))"
    using assms(10) url split by (auto simp: clusterPatchValue_def Atoi_digits_def)
  moreover obtain sidecar where "GetOAuthSidecarConfigPatchValue s = Inr sidecar"
      "logs_in_with clientID (s_identityProviderUris s) (s_autoLoginConfig s) sidecar"
    using sidecar_read [OF assms(2)] by blast
  ultimately show ?thesis
    using assms(1) lua_patch_read [of s] external_cluster_read [of h]
      internal_cluster_read [of h "int (digits_value digits)"]
    by (simp add: patches_encodable_def envoyfilter_GetDesired_def newStruct_def)
qed

theorem token_endpoint_cluster_witness:
  "\<exists>ef lua cluster sidecar. envoyfilter_GetDesired example_env example_scope (buildObjectMeta ''demo-login'' ''ns'') = Inr (Some ef) \<and>
    map (\<lambda>p. (cp_applyTo p, cp_match p, cp_operation p, cp_value p)) (ef_configPatches ef) =
      [(HttpFilter, MatchListener http_connection_manager None, InsertBefore, lua),
       (Cluster, MatchCluster ''oauth'', AddOp, cluster),
       (HttpFilter, MatchListener http_connection_manager (Some ''envoy.filters.http.jwt_authn''), InsertBefore, sidecar)] \<and>
    runs_script (alc_luaScript (s_autoLoginConfig example_scope)) lua \<and>
    cluster_named ''oauth'' cluster \<and>
    (if '':8443'' = [] then cluster_sends_to ''idp'' 443 cluster \<and> opens_tls_to ''idp'' cluster
     else cluster_sends_to ''idp'' (int (digits_value ''8443'')) cluster \<and> sends_plainly cluster) \<and>
    logs_in_with ''id'' (s_identityProviderUris example_scope) (s_autoLoginConfig example_scope) sidecar"
proof (rule token_endpoint_cluster)
  show "autoLoginActive example_scope" by code_simp
  show "cr_clientID (s_oauthCredentials example_scope) = Some ''id''" by (simp add: example_scope_def)
  show "idp_tokenURI (s_identityProviderUris example_scope) = ''https'' @ ''://'' @ ''idp'' @ '':8443'' @ ''/token''"
    by (simp add: example_scope_def example_uris_def)
  show "plain_scheme ''https''" "plain_host ''idp''" "plain_path ''/token''" by code_simp+
  show "list_all utf8_valid (''id'' # filter_texts example_scope)" by code_simp
qed (simp_all add: example_env_def is_digit_def digits_value_def)

text \<open>C37: when the encoder accepts exactly the patches whose texts are valid UTF-8, the generator of an
  active login panics exactly when the token endpoint does not parse or its port does not fit an
  integer, when the client id is missing, or when the client id in the secret or the decoded host of
  the endpoint is not valid UTF-8.\<close>

theorem envoy_filter_panics_exactly:
  assumes "autoLoginActive s" and "\<And>v. ge_pbValid env v \<longleftrightarrow> pb_utf8 v" and "list_all utf8_valid (filter_texts s)"
  shows "(\<exists>e. envoyfilter_GetDesired env s meta = Inl e) \<longleftrightarrow>
    \<not> token_port_ok (idp_tokenURI (s_identityProviderUris s)) \<or>
    \<not> utf8_valid (token_host (idp_tokenURI (s_identityProviderUris s))) \<or>
    (case cr_clientID (s_oauthCredentials s) of None \<Rightarrow> True | Some clientID \<Rightarrow> \<not> utf8_valid clientID)"
proof -
  have "(\<exists>e. envoyfilter_GetDesired env s meta = Inl e) \<longleftrightarrow> \<not> (\<exists>x. envoyfilter_GetDesired env s meta = Inr x)"
    by (cases "envoyfilter_GetDesired env s meta") auto
  also have "\<dots> \<longleftrightarrow> \<not> token_port_ok (idp_tokenURI (s_identityProviderUris s)) \<or>
      cr_clientID (s_oauthCredentials s) = None \<or> \<not> patches_encodable env s"
    using envoyfilter_returns [OF assms(1)] by blast
  also have "\<dots> \<longleftrightarrow> \<not> token_port_ok (idp_tokenURI (s_identityProviderUris s)) \<or>
      \<not> utf8_valid (token_host (idp_tokenURI (s_identityProviderUris s))) \<or>
      (case cr_clientID (s_oauthCredentials s) of None \<Rightarrow> True | Some clientID \<Rightarrow> \<not> utf8_valid clientID)"
  proof (cases "cr_clientID (s_oauthCredentials s)")
    case (Some clientID)
    have texts: "list_all utf8_valid (sidecar_texts s)" "utf8_valid (alc_luaScript (s_autoLoginConfig s))"
      using assms(3) by (simp_all add: filter_texts_def)
    obtain sidecar where sidecar: "GetOAuthSidecarConfigPatchValue s = Inr sidecar"
      using Some by (simp add: GetOAuthSidecarConfigPatchValue_def)
    show ?thesis
      using texts sidecar sidecar_utf8 [OF texts(1) Some sidecar] cluster_patch_utf8 [of s] Some
        cluster_made [of s, symmetric]
      by (auto simp: patches_encodable_def assms(2) lua_patch_utf8 split: sum.split)
  qed simp
  finally show ?thesis .
qed

theorem envoy_filter_panics_exactly_witness:
  "\<exists>e. envoyfilter_GetDesired (example_env\<lparr>ge_pbValid := pb_utf8\<rparr>) (example_scope\<lparr>s_oauthCredentials :=
     \<lparr>cr_clientID = Some [CHR 0xFF], cr_clientSecret = Some ''s''\<rparr>\<rparr>) (buildObjectMeta ''demo-login'' ''ns'') = Inl e"
proof -
  let ?s = "example_scope\<lparr>s_oauthCredentials := \<lparr>cr_clientID = Some [CHR 0xFF], cr_clientSecret = Some ''s''\<rparr>\<rparr>"
  have "autoLoginActive ?s" "list_all utf8_valid (filter_texts ?s)" "\<not> utf8_valid [CHR 0xFF]" by code_simp+
  then show ?thesis
    by (subst envoy_filter_panics_exactly) (simp_all add: example_env_def)
qed

text \<open>C38: a token endpoint whose port is out of the range of an integer is a URL without unsafe
  characters, but makes the generator panic instead of reporting an error.\<close>

theorem envoy_filter_port_panics:
  assumes "autoLoginActive s"
    and "idp_tokenURI (s_identityProviderUris s) = scheme @ ''://'' @ h @ '':'' @ digits @ path"
    and "plain_scheme scheme" and "plain_host h" and "plain_path path" and "path = [] \<or> HasPrefix path ''/''"
    and "list_all is_digit digits" and "2 ^ 63 \<le> digits_value digits"
  shows "(\<exists>url. url_Parse (idp_tokenURI (s_identityProviderUris s)) = Inr url) \<and>
    (\<exists>e. envoyfilter_GetDesired env s meta = Inl e)"
proof -
  have "validOptionalPort ('':'' @ digits)" using assms(7) by (simp add: validOptionalPort_def)
  from Parse_endpoint [OF assms(3, 4) this assms(5, 6)]
  have url: "url_Parse (idp_tokenURI (s_identityProviderUris s)) =
      Inr \<lparr>u_Scheme = ToLower scheme, u_Host = h @ '':'' @ digits, u_Path = path\<rparr>"
    using assms(2) by simp
  have "digits \<noteq> []" using assms(8) by (auto simp: digits_value_def)
  with url show ?thesis
    using assms(1, 8) splitHostPort_port [OF assms(7) plain_host_bracket [OF assms(4)]]
    by (simp add: envoyfilter_GetDesired_def clusterPatchValue_def Atoi_digits_def)
qed

theorem envoy_filter_port_panics_witness:
  "\<exists>e. envoyfilter_GetDesired example_env (example_scope\<lparr>s_identityProviderUris := example_uris\<lparr>idp_tokenURI :=
     ''https://idp:99999999999999999999/token''\<rparr>\<rparr>) (buildObjectMeta ''demo-login'' ''ns'') = Inl e"
proof -
  let ?s = "example_scope\<lparr>s_identityProviderUris := example_uris\<lparr>idp_tokenURI := ''https://idp:99999999999999999999/token''\<rparr>\<rparr>"
  have "autoLoginActive ?s" "plain_scheme ''https''" "plain_host ''idp''" "plain_path ''/token''" by code_simp+
  from envoy_filter_port_panics [OF this(1) _ this(2-4), of "''99999999999999999999''"]
  show ?thesis by (simp add: is_digit_def digits_value_def)
qed

text \<open>A percent-encoded host is such an endpoint: it parses, and its host decodes to a byte that begins
  no character.\<close>

lemma encoded_token_host: "token_port_ok ''https://%FF/token''" "\<not> utf8_valid (token_host ''https://%FF/token'')"
  by code_simp+

text \<open>A token endpoint without a scheme or without a host passes the check of discovery documents; the
  cluster is then made for the empty host.\<close>

lemma relative_token_endpoint:
  assumes "plain_path (idp_tokenURI (s_identityProviderUris s))"
    and "\<not> HasPrefix (idp_tokenURI (s_identityProviderUris s)) ''//''"
  shows "clusterPatchValue s = Inr (GetExternalOAuthClusterPatchValue [])"
  using Parse_relative [OF assms] by (simp add: clusterPatchValue_def splitHostPort_def lastIndexByte_def)

end
