(* ===== verification/Resolvers.thy ===== *)
theory Resolvers
  imports ResourceGenerators
begin

text \<open>
  \<open>internal/resolver\<close> and \<open>pkg/rest\<close>: the facts a policy refers to are looked up, its OAuth
  credentials in a secret, its audiences in secrets and config maps, and the endpoints of its
  identity provider in the discovery document, which is taken from a built-in table or fetched.

  Reading the cluster, fetching a document, parsing a URL and the order in which Go visits a map are
  parameters.
\<close>

section \<open>Discovery documents (pkg/rest)\<close>

record discoveryDocument =
  dd_issuer :: "string option"
  dd_authorizationEndpoint :: "string option"
  dd_tokenEndpoint :: "string option"
  dd_jwksURI :: "string option"
  dd_endSessionEndpoint :: "string option"

definition GetWellknownURIToDiscoveryDocument :: "(string, discoveryDocument) gomap" where
  "GetWellknownURIToDiscoveryDocument =
     [(''http://mock-oauth2.auth:8080/entraid/.well-known/openid-configuration'',
       \<lparr>dd_issuer = Some ''http://mock-oauth2.auth:8080/entraid'',
        dd_authorizationEndpoint = Some ''http://mock-oauth2.auth:8080/entraid/authorize'',
        dd_tokenEndpoint = Some ''http://mock-oauth2.auth:8080/entraid/token'',
        dd_jwksURI = Some ''http://mock-oauth2.auth:8080/entraid/jwks'',
        dd_endSessionEndpoint = Some ''http://mock-oauth2.auth:8080/entraid/endsession''\<rparr>),
      (''http://mock-oauth2.auth:8080/smapi/.well-known/openid-configuration'',
       \<lparr>dd_issuer = Some ''http://mock-oauth2.auth:8080/smapi'',
        dd_authorizationEndpoint = Some ''http://mock-oauth2.auth:8080/smapi/authorize'',
        dd_tokenEndpoint = Some ''http://mock-oauth2.auth:8080/smapi/token'',
        dd_jwksURI = Some ''http://mock-oauth2.auth:8080/smapi/jwks'',
        dd_endSessionEndpoint = Some ''http://mock-oauth2.auth:8080/smapi/endsession''\<rparr>),
      (''http://mock-oauth2.auth:8080/maskinporten/.well-known/openid-configuration'',
       \<lparr>dd_issuer = Some ''http://mock-oauth2.auth:8080/maskinporten'',
        dd_authorizationEndpoint = Some ''http://mock-oauth2.auth:8080/maskinporten/authorize'',
        dd_tokenEndpoint = Some ''http://mock-oauth2.auth:8080/maskinporten/token'',
        dd_jwksURI = Some ''http://mock-oauth2.auth:8080/maskinporten/jwks'',
        dd_endSessionEndpoint = Some ''http://mock-oauth2.auth:8080/maskinporten/endsession''\<rparr>),
      (''https://login.microsoftonline.com/7f74c8a2-43ce-46b2-b0e8-b6306cba73a3/v2.0/.well-known/openid-configuration'',
       \<lparr>dd_issuer = Some ''https://login.microsoftonline.com/7f74c8a2-43ce-46b2-b0e8-b6306cba73a3/v2.0'',
        dd_authorizationEndpoint = Some ''https://login.microsoftonline.com/7f74c8a2-43ce-46b2-b0e8-b6306cba73a3/oauth2/v2.0/authorize'',
        dd_tokenEndpoint = Some ''https://login.microsoftonline.com/7f74c8a2-43ce-46b2-b0e8-b6306cba73a3/oauth2/v2.0/token'',
        dd_jwksURI = Some ''https://login.microsoftonline.com/7f74c8a2-43ce-46b2-b0e8-b6306cba73a3/discovery/v2.0/keys'',
        dd_endSessionEndpoint = Some ''https://login.microsoftonline.com/7f74c8a2-43ce-46b2-b0e8-b6306cba73a3/oauth2/v2.0/logout''\<rparr>),
      (''https://idporten.no/.well-known/openid-configuration'',
       \<lparr>dd_issuer = Some ''https://idporten.no'',
        dd_authorizationEndpoint = Some ''https://login.idporten.no/authorize'',
        dd_tokenEndpoint = Some ''https://idporten.no/token'',
        dd_jwksURI = Some ''https://idporten.no/jwks.json'',
        dd_endSessionEndpoint = Some ''https://login.idporten.no/logout''\<rparr>),
      (''https://maskinporten.no/.well-known/oauth-authorization-server'',
       \<lparr>dd_issuer = Some ''https://maskinporten.no/'',
        dd_authorizationEndpoint = None,
        dd_tokenEndpoint = Some ''https://maskinporten.no/token'',
        dd_jwksURI = Some ''https://maskinporten.no/jwk'',
        dd_endSessionEndpoint = None\<rparr>)]"

text \<open>A response: the status code, its text and the decoded body.\<close>

type_synonym fetcher = "string \<Rightarrow> string + (nat \<times> string \<times> discoveryDocument)"

definition GetOAuthDiscoveryDocument :: "fetcher \<Rightarrow> string \<Rightarrow> string + discoveryDocument" where
  "GetOAuthDiscoveryDocument fetch uri =
     (case map_of GetWellknownURIToDiscoveryDocument uri of
        Some cached \<Rightarrow> Inr cached
      | None \<Rightarrow> res_bind (fetch uri) (\<lambda>(code, status, document).
          if code \<noteq> 200 then Inl status else Inr document))"

section \<open>The identity provider (discovery_document_resolver.go)\<close>

definition unsafe_uri_chars :: string where
  "unsafe_uri_chars = [quote_char, backslash, CHR 0x0A, CHR 0x0D, CHR 0x00]"

definition validateDiscoveryURI :: "string \<Rightarrow> string \<Rightarrow> string + unit" where
  "validateDiscoveryURI field uri =
     (case url_Parse uri of
        Inl e \<Rightarrow> Inl (''field '' @ field @ '' is not a valid URI: '' @ e)
      | Inr _ \<Rightarrow>
          if ContainsAny uri unsafe_uri_chars
          then Inl (''field '' @ field @ '' contains unsafe characters (quotes, backslashes, or control characters)'')
          else Inr ())"

fun validateDiscoveryURIs :: "labels \<Rightarrow> string + unit" where
  "validateDiscoveryURIs [] = Inr ()"
| "validateDiscoveryURIs ((field, uri) # rest) =
     res_bind (validateDiscoveryURI field uri) (\<lambda>_. validateDiscoveryURIs rest)"

definition policy_text :: "authPolicy \<Rightarrow> string" where
  "policy_text ap = ap_namespace ap @ ''/'' @ ap_name ap"

definition autoLoginEnabled :: "authPolicy \<Rightarrow> bool" where
  "autoLoginEnabled ap = (case spec_autoLogin (ap_spec ap) of None \<Rightarrow> False | Some al \<Rightarrow> al_enabled al)"

definition urisToValidate :: "discoveryDocument \<Rightarrow> string \<Rightarrow> string \<Rightarrow> string \<Rightarrow> labels" where
  "urisToValidate doc issuer jwks token =
     [(''issuer'', issuer), (''jwks_uri'', jwks), (''token_endpoint'', token)] @
     (case dd_authorizationEndpoint doc of None \<Rightarrow> [] | Some u \<Rightarrow> [(''authorization_endpoint'', u)]) @
     (case dd_endSessionEndpoint doc of None \<Rightarrow> [] | Some u \<Rightarrow> [(''end_session_endpoint'', u)])"

definition ResolveDiscoveryDocument ::
  "(labels \<Rightarrow> labels) \<Rightarrow> (string \<Rightarrow> string + discoveryDocument) \<Rightarrow> authPolicy \<Rightarrow>
   string + identityProviderUris" where
  "ResolveDiscoveryDocument visit getDocument ap =
     (let uri = spec_wellKnownURI (ap_spec ap) in
      case getDocument uri of
        Inl e \<Rightarrow> Inl (''failed to resolve discovery document from well-known uri: '' @ uri @
          '' for AuthPolicy with name '' @ policy_text ap @ '': '' @ e)
      | Inr doc \<Rightarrow>
          (case (dd_issuer doc, dd_jwksURI doc, dd_tokenEndpoint doc) of
             (Some issuer, Some jwks, Some token) \<Rightarrow>
               if autoLoginEnabled ap \<and> (dd_authorizationEndpoint doc = None \<or> dd_endSessionEndpoint doc = None)
               then Inl (''issuer '' @ issuer @ '' for AuthPolicy with name '' @ policy_text ap @
                 '' does not support authorization endpoint or end session endpoint required for autologin'')
               else
                 (case validateDiscoveryURIs (visit (urisToValidate doc issuer jwks token)) of
                    Inl e \<Rightarrow> Inl (''invalid discovery document from well-known uri: '' @ uri @
                      '' for AuthPolicy '' @ policy_text ap @ '': '' @ e)
                  | Inr _ \<Rightarrow> Inr
                      \<lparr>idp_issuerURI = issuer, idp_jwksURI = jwks, idp_tokenURI = token,
                       idp_authorizationURI = (case dd_authorizationEndpoint doc of None \<Rightarrow> [] | Some u \<Rightarrow> u),
                       idp_endSessionURI = dd_endSessionEndpoint doc\<rparr>)
           | _ \<Rightarrow> Inl (''failed to parse discovery document from well-known uri: '' @ uri @
               '' for AuthPolicy with name '' @ policy_text ap)))"

section \<open>Secrets and config maps\<close>

text \<open>Reading the data of a secret or a config map by namespace and name.\<close>

record clusterReader =
  rd_secret :: "string \<Rightarrow> string \<Rightarrow> string + labels"
  rd_configMap :: "string \<Rightarrow> string \<Rightarrow> string + labels"

definition GetSecret :: "clusterReader \<Rightarrow> string \<Rightarrow> string \<Rightarrow> string + labels" where
  "GetSecret rd namespace name = rd_secret rd namespace name"

definition GetConfigMap :: "clusterReader \<Rightarrow> string \<Rightarrow> string \<Rightarrow> string + labels" where
  "GetConfigMap rd namespace name = rd_configMap rd namespace name"

lemma read_simps [simp]: "GetSecret rd = rd_secret rd" "GetConfigMap rd = rd_configMap rd"
  by (simp_all add: GetSecret_def GetConfigMap_def fun_eq_iff)

definition ResolveOAuthCredentials :: "clusterReader \<Rightarrow> authPolicy \<Rightarrow> string + oauthCredentials" where
  "ResolveOAuthCredentials rd ap =
     (case spec_oauthCredentials (ap_spec ap) of
        None \<Rightarrow> Inr \<lparr>cr_clientID = None, cr_clientSecret = None\<rparr>
      | Some ref \<Rightarrow>
          if \<not> autoLoginEnabled ap then Inr \<lparr>cr_clientID = None, cr_clientSecret = None\<rparr>
          else
            (case GetSecret rd (ap_namespace ap) (oc_secretRef ref) of
               Inl e \<Rightarrow> Inl (''failed to get OAuth credentials secret '' @ ap_namespace ap @ ''/'' @
                 oc_secretRef ref @ '': '' @ e)
             | Inr data \<Rightarrow>
                 let clientID = map_index data (oc_clientIDKey ref);
                     clientSecret = map_index data (oc_clientSecretKey ref)
                 in if clientID = [] then
                      Inl (''client id with key: '' @ oc_clientIDKey ref @
                        '' was nil or empty when retrieving it from Secret with name '' @
                        ap_namespace ap @ ''/'' @ oc_secretRef ref)
                    else if clientSecret = [] then
                      Inl (''client secret with key: '' @ oc_clientSecretKey ref @
                        '' was nil or empty when retrieving it from Secret with name '' @
                        ap_namespace ap @ ''/'' @ oc_secretRef ref)
                    else Inr \<lparr>cr_clientID = Some clientID, cr_clientSecret = Some clientSecret\<rparr>))"

definition resolveAudienceRef :: "clusterReader \<Rightarrow> string \<Rightarrow> valueFrom \<Rightarrow> string + string" where
  "resolveAudienceRef rd ns vf =
     (case (vf_configMapKeyRef vf, vf_secretKeyRef vf) of
        (Some _, Some _) \<Rightarrow> Inl ''cannot get value from both ConfigMap and Secret''
      | (Some ref, None) \<Rightarrow>
          (case GetConfigMap rd ns (kr_name ref) of
             Inl _ \<Rightarrow> Inl (''configmap '' @ ns @ ''/'' @ kr_name ref @ '' was not found'')
           | Inr data \<Rightarrow>
               let v = map_index data (kr_key ref)
               in if v = [] then Inl (''audience value from configmap '' @ ns @ ''/'' @ kr_name ref @
                    '' key '' @ kr_key ref @ '' is empty or missing'')
                  else Inr v)
      | (None, None) \<Rightarrow> Inl ''both configMapKeyRef and secretKeyRef cannot be nil''
      | (None, Some ref) \<Rightarrow>
          (case GetSecret rd ns (kr_name ref) of
             Inl _ \<Rightarrow> Inl (''secret '' @ ns @ ''/'' @ kr_name ref @ '' was not found'')
           | Inr data \<Rightarrow>
               let v = map_index data (kr_key ref)
               in if v = [] then Inl (''audience value from secret '' @ ns @ ''/'' @ kr_name ref @
                    '' key '' @ kr_key ref @ '' is empty or missing'')
                  else Inr v))"

fun ResolveAudiences :: "clusterReader \<Rightarrow> string \<Rightarrow> allowedAudience list \<Rightarrow> string + string list" where
  "ResolveAudiences rd ns [] = Inr []"
| "ResolveAudiences rd ns (a # as) =
     (case (aa_value a, aa_valueFrom a) of
        (Some _, Some _) \<Rightarrow> Inl ''cannot define an audience as both string and ConfigMap/Secret ref''
      | (Some v, None) \<Rightarrow>
          if v = [] then Inl ''audience value cannot be empty''
          else res_bind (ResolveAudiences rd ns as) (\<lambda>rest. Inr (v # rest))
      | (None, Some vf) \<Rightarrow>
          (case resolveAudienceRef rd ns vf of
             Inl e \<Rightarrow> Inl (''failed to resolve audience reference: '' @ e)
           | Inr v \<Rightarrow> res_bind (ResolveAudiences rd ns as) (\<lambda>rest. Inr (v # rest)))
      | (None, None) \<Rightarrow> ResolveAudiences rd ns as)"

section \<open>Automatic login (autologin_config_resolver.go)\<close>

definition emptyAutoLoginConfig :: autoLoginConfig where
  "emptyAutoLoginConfig =
     \<lparr>alc_enabled = False, alc_loginPath = None, alc_redirectPath = [], alc_logoutPath = [],
      alc_postLogoutRedirectURI = None, alc_scopes = [], alc_loginParams = [], alc_luaScript = [],
      alc_envoySecretName = []\<rparr>"

text \<open>\<open>None\<close> is the panic of the script generator.\<close>

definition ResolveAutoLoginConfig :: "authPolicy \<Rightarrow> identityProviderUris \<Rightarrow> autoLoginConfig option" where
  "ResolveAutoLoginConfig ap uris =
     (let secretName = EnvoySecretName (ap_name ap) in
      case spec_autoLogin (ap_spec ap) of
        None \<Rightarrow> Some (emptyAutoLoginConfig\<lparr>alc_envoySecretName := secretName\<rparr>)
      | Some al \<Rightarrow>
          if \<not> al_enabled al then Some (emptyAutoLoginConfig\<lparr>alc_envoySecretName := secretName\<rparr>)
          else
            let cfg = SetSaneDefaults
                  \<lparr>alc_enabled = al_enabled al, alc_loginPath = al_loginPath al, alc_redirectPath = [],
                   alc_logoutPath = [], alc_postLogoutRedirectURI = al_postLogoutRedirectURI al,
                   alc_scopes = al_scopes al, alc_loginParams = al_loginParams al, alc_luaScript = [],
                   alc_envoySecretName = secretName\<rparr> al
            in map_option (\<lambda>script. cfg\<lparr>alc_luaScript := script\<rparr>) (GenerateLuaScript ap cfg uris))"

section \<open>Facts\<close>

lemma resolve_autologin_total: "\<exists>cfg. ResolveAutoLoginConfig ap uris = Some cfg"
  using generate_script_some by (cases "spec_autoLogin (ap_spec ap)") (auto simp: ResolveAutoLoginConfig_def Let_def)

definition uri_ok :: "string \<Rightarrow> bool" where
  "uri_ok uri \<longleftrightarrow> (case url_Parse uri of Inl _ \<Rightarrow> False | Inr _ \<Rightarrow> True) \<and>
     \<not> ContainsAny uri unsafe_uri_chars"

lemma uri_ok_iff: "uri_ok uri \<longleftrightarrow> (\<exists>url. url_Parse uri = Inr url) \<and> \<not> ContainsAny uri unsafe_uri_chars"
  by (simp add: uri_ok_def split: sum.splits)

lemma validateDiscoveryURI_Inr: "validateDiscoveryURI field uri = Inr () \<longleftrightarrow> uri_ok uri"
  by (simp add: validateDiscoveryURI_def uri_ok_def split: sum.splits)

lemma validateDiscoveryURIs_Inr:
  "validateDiscoveryURIs us = Inr () \<longleftrightarrow> (\<forall>u \<in> set us. uri_ok (snd u))"
  by (induction us) (auto simp: res_bind_Inr_iff validateDiscoveryURI_Inr)

text \<open>The success of the resolver and its result do not depend on the order of the visit.\<close>

lemma resolve_discovery_Inr:
  assumes "\<And>m. mset (visit m) = mset m"
  shows "ResolveDiscoveryDocument visit getDocument ap = Inr u \<longleftrightarrow>
    (\<exists>doc issuer jwks token. getDocument (spec_wellKnownURI (ap_spec ap)) = Inr doc \<and>
       dd_issuer doc = Some issuer \<and> dd_jwksURI doc = Some jwks \<and> dd_tokenEndpoint doc = Some token \<and>
       (autoLoginEnabled ap \<longrightarrow> dd_authorizationEndpoint doc \<noteq> None \<and> dd_endSessionEndpoint doc \<noteq> None) \<and>
       (\<forall>x \<in> set (urisToValidate doc issuer jwks token). uri_ok (snd x)) \<and>
       u = \<lparr>idp_issuerURI = issuer, idp_jwksURI = jwks, idp_tokenURI = token,
            idp_authorizationURI = (case dd_authorizationEndpoint doc of None \<Rightarrow> [] | Some u \<Rightarrow> u),
            idp_endSessionURI = dd_endSessionEndpoint doc\<rparr>)"
proof -
  have "set (visit m) = set m" for m by (metis assms mset_eq_setD)
  then have ok: "validateDiscoveryURIs (visit m) = Inr () \<longleftrightarrow> (\<forall>x \<in> set m. uri_ok (snd x))" for m
    by (simp add: validateDiscoveryURIs_Inr)
  show ?thesis
    unfolding ResolveDiscoveryDocument_def Let_def ok [symmetric]
    by (auto split: sum.splits option.splits)
qed

lemma resolved_audience_nonempty: "resolveAudienceRef rd ns vf = Inr v \<Longrightarrow> v \<noteq> []"
  by (auto simp: resolveAudienceRef_def Let_def split: option.splits sum.splits if_splits)

section \<open>Properties\<close>

text \<open>Resolved audiences are never empty, and there is one for each entry that names a value or a
  reference: an entry is never dropped silently.\<close>

lemma audiences_resolved:
  "ResolveAudiences rd ns as = Inr xs \<Longrightarrow>
     list_all (\<lambda>x. x \<noteq> []) xs \<and>
     length xs = length (filter (\<lambda>a. aa_value a \<noteq> None \<or> aa_valueFrom a \<noteq> None) as)"
  by (induction as arbitrary: xs)
     (auto simp: res_bind_Inr_iff resolved_audience_nonempty split: option.splits sum.splits if_splits)

text \<open>C31: when the discovery document resolves, the result does not depend on the order in which Go
  visits the map of endpoints, and each endpoint is the one the document at the well-known address names
  for it: the issuer, the key set, the token endpoint, the authorization endpoint (empty when the document
  has none) and the end session endpoint.  All of them parse as URLs, none of them contains a quote, a
  backslash, a line break or a null byte, and with the automatic login on the document names both the
  authorization and the end session endpoint.\<close>

theorem discovery_resolved:
  assumes "\<And>m. mset (visit m) = mset m" and "\<And>m. mset (visit' m) = mset m"
    and "ResolveDiscoveryDocument visit getDocument ap = Inr u"
  shows "ResolveDiscoveryDocument visit' getDocument ap = Inr u \<and>
    (\<exists>doc. getDocument (spec_wellKnownURI (ap_spec ap)) = Inr doc \<and>
       dd_issuer doc = Some (idp_issuerURI u) \<and> dd_jwksURI doc = Some (idp_jwksURI u) \<and>
       dd_tokenEndpoint doc = Some (idp_tokenURI u) \<and>
       idp_authorizationURI u = (case dd_authorizationEndpoint doc of None \<Rightarrow> [] | Some x \<Rightarrow> x) \<and>
       idp_endSessionURI u = dd_endSessionEndpoint doc \<and>
       (autoLoginEnabled ap \<longrightarrow> dd_authorizationEndpoint doc \<noteq> None \<and> dd_endSessionEndpoint doc \<noteq> None)) \<and>
    list_all (\<lambda>x. (\<exists>url. url_Parse x = Inr url) \<and> \<not> ContainsAny x unsafe_uri_chars)
      ([idp_issuerURI u, idp_jwksURI u, idp_tokenURI u, idp_authorizationURI u] @
       (case idp_endSessionURI u of None \<Rightarrow> [] | Some x \<Rightarrow> [x]))"
proof -
  have "ResolveDiscoveryDocument visit' getDocument ap = Inr u"
    using assms(3) resolve_discovery_Inr [OF assms(1)] resolve_discovery_Inr [OF assms(2)] by simp
  moreover have "uri_ok []" by code_simp
  then have "list_all uri_ok ([idp_issuerURI u, idp_jwksURI u, idp_tokenURI u, idp_authorizationURI u] @
       (case idp_endSessionURI u of None \<Rightarrow> [] | Some x \<Rightarrow> [x]))"
    using assms(3) by (auto simp: resolve_discovery_Inr [OF assms(1)] urisToValidate_def split: option.splits)
  moreover obtain doc where "getDocument (spec_wellKnownURI (ap_spec ap)) = Inr doc"
      "dd_issuer doc = Some (idp_issuerURI u)" "dd_jwksURI doc = Some (idp_jwksURI u)"
      "dd_tokenEndpoint doc = Some (idp_tokenURI u)"
      "idp_authorizationURI u = (case dd_authorizationEndpoint doc of None \<Rightarrow> [] | Some x \<Rightarrow> x)"
      "idp_endSessionURI u = dd_endSessionEndpoint doc"
      "autoLoginEnabled ap \<longrightarrow> dd_authorizationEndpoint doc \<noteq> None \<and> dd_endSessionEndpoint doc \<noteq> None"
    using assms(3) by (auto simp: resolve_discovery_Inr [OF assms(1)])
  ultimately show ?thesis by (auto simp: list_all_iff uri_ok_iff)
qed

theorem discovery_resolved_witness:
  "\<exists>u. idp_jwksURI u = ''j'' \<and> idp_tokenURI u = ''t'' \<and> ResolveDiscoveryDocument (\<lambda>m. m) (\<lambda>_. Inr \<lparr>dd_issuer = Some ''i'', dd_authorizationEndpoint = Some ''a'',
      dd_tokenEndpoint = Some ''t'', dd_jwksURI = Some ''j'', dd_endSessionEndpoint = Some ''e''\<rparr>) example_policy = Inr u \<and>
    ResolveDiscoveryDocument rev (\<lambda>_. Inr \<lparr>dd_issuer = Some ''i'', dd_authorizationEndpoint = Some ''a'',
      dd_tokenEndpoint = Some ''t'', dd_jwksURI = Some ''j'', dd_endSessionEndpoint = Some ''e''\<rparr>) example_policy = Inr u"
proof -
  let ?get = "\<lambda>_ :: string. Inr \<lparr>dd_issuer = Some ''i'', dd_authorizationEndpoint = Some ''a'',
      dd_tokenEndpoint = Some ''t'', dd_jwksURI = Some ''j'', dd_endSessionEndpoint = Some ''e''\<rparr>"
  let ?u = "\<lparr>idp_issuerURI = ''i'', idp_jwksURI = ''j'', idp_tokenURI = ''t'', idp_authorizationURI = ''a'',
      idp_endSessionURI = Some ''e''\<rparr>"
  have resolved: "ResolveDiscoveryDocument (\<lambda>m. m) ?get example_policy = Inr ?u" by code_simp
  have "ResolveDiscoveryDocument rev ?get example_policy = Inr ?u"
    using discovery_resolved [OF _ _ resolved, of rev] by simp
  with resolved show ?thesis by (intro exI [of _ ?u]) simp
qed

end
