(* ===== verification/EventHandlers.thy ===== *)
theory EventHandlers
  imports Resolvers K8sClient
begin

text \<open>
  \<open>internal/eventhandler\<close>: which policies are reconciled when a pod, a secret or a config map
  changes.  A handler maps the changed object to requests; listing the policies of a namespace is a
  parameter.
\<close>

section \<open>Shared functions (eventhandler.go)\<close>

definition authPolicyGroup :: string where
  "authPolicyGroup = ''ztoperator.kartverket.no''"

definition authPolicyVersion :: string where
  "authPolicyVersion = ''v1alpha1''"

definition authPolicyKind :: string where
  "authPolicyKind = ''AuthPolicy''"

definition IsOwnedByAuthPolicy :: "objectMeta \<Rightarrow> bool" where
  "IsOwnedByAuthPolicy meta =
     list_ex (\<lambda>ref. or_apiVersion ref = authPolicyGroup @ ''/'' @ authPolicyVersion \<and> or_kind ref = authPolicyKind)
       (om_owners meta)"

record namespacedName =
  nn_namespace :: string
  nn_name :: string

type_synonym policy_lister = "string \<Rightarrow> string + namespacedName list"

definition EnqueueAuthPoliciesInNamespace :: "policy_lister \<Rightarrow> string \<Rightarrow> namespacedName list" where
  "EnqueueAuthPoliciesInNamespace list namespace =
     (case list namespace of
        Inl _ \<Rightarrow> []
      | Inr items \<Rightarrow> map (\<lambda>item. \<lparr>nn_namespace = nn_namespace item, nn_name = nn_name item\<rparr>) items)"

section \<open>The handlers\<close>

text \<open>The object of an event: a handler ignores what is not of its type.\<close>

datatype watched = WatchedPod objectMeta | WatchedSecret objectMeta | WatchedConfigMap objectMeta

fun pod_EventHandler :: "policy_lister \<Rightarrow> watched \<Rightarrow> namespacedName list" where
  "pod_EventHandler list (WatchedPod m) = EnqueueAuthPoliciesInNamespace list (om_namespace m)"
| "pod_EventHandler list _ = []"

fun secret_EventHandler :: "policy_lister \<Rightarrow> watched \<Rightarrow> namespacedName list" where
  "secret_EventHandler list (WatchedSecret m) =
     (if IsOwnedByAuthPolicy m then [] else EnqueueAuthPoliciesInNamespace list (om_namespace m))"
| "secret_EventHandler list _ = []"

fun configmap_EventHandler :: "policy_lister \<Rightarrow> watched \<Rightarrow> namespacedName list" where
  "configmap_EventHandler list (WatchedConfigMap m) =
     (if IsOwnedByAuthPolicy m then [] else EnqueueAuthPoliciesInNamespace list (om_namespace m))"
| "configmap_EventHandler list _ = []"

section \<open>What the resolvers read\<close>

definition policy_request :: "authPolicy \<Rightarrow> namespacedName" where
  "policy_request ap = \<lparr>nn_namespace = ap_namespace ap, nn_name = ap_name ap\<rparr>"

text \<open>Two clusters agree on a namespace when its secrets and config maps are the same.\<close>

definition agree_in :: "clusterReader \<Rightarrow> clusterReader \<Rightarrow> string \<Rightarrow> bool" where
  "agree_in rd rd' ns \<longleftrightarrow> rd_secret rd ns = rd_secret rd' ns \<and> rd_configMap rd ns = rd_configMap rd' ns"

lemma credentials_local:
  "agree_in rd rd' (ap_namespace ap) \<Longrightarrow> ResolveOAuthCredentials rd ap = ResolveOAuthCredentials rd' ap"
  by (simp add: ResolveOAuthCredentials_def agree_in_def split: option.splits)

lemma audiences_local: "agree_in rd rd' ns \<Longrightarrow> ResolveAudiences rd ns as = ResolveAudiences rd' ns as"
proof (induction as)
  case (Cons a as)
  have "resolveAudienceRef rd ns vf = resolveAudienceRef rd' ns vf" for vf
    using Cons.prems by (simp add: resolveAudienceRef_def agree_in_def split: option.splits)
  then show ?case using Cons by (simp split: option.splits sum.splits)
qed simp

text \<open>A change of one secret or one config map.\<close>

definition secret_changed :: "clusterReader \<Rightarrow> clusterReader \<Rightarrow> objectMeta \<Rightarrow> bool" where
  "secret_changed rd rd' m \<longleftrightarrow>
     (\<forall>ns n. (ns, n) \<noteq> (om_namespace m, om_name m) \<longrightarrow> rd_secret rd ns n = rd_secret rd' ns n) \<and>
     rd_configMap rd = rd_configMap rd'"

definition configMap_changed :: "clusterReader \<Rightarrow> clusterReader \<Rightarrow> objectMeta \<Rightarrow> bool" where
  "configMap_changed rd rd' m \<longleftrightarrow>
     (\<forall>ns n. (ns, n) \<noteq> (om_namespace m, om_name m) \<longrightarrow> rd_configMap rd ns n = rd_configMap rd' ns n) \<and>
     rd_secret rd = rd_secret rd'"

lemma changed_elsewhere:
  "secret_changed rd rd' m \<Longrightarrow> ns \<noteq> om_namespace m \<Longrightarrow> agree_in rd rd' ns"
  "configMap_changed rd rd' m \<Longrightarrow> ns \<noteq> om_namespace m \<Longrightarrow> agree_in rd rd' ns"
  by (auto simp: secret_changed_def configMap_changed_def agree_in_def fun_eq_iff)

text \<open>What a policy is resolved to from the secrets and config maps.\<close>

definition resolved_inputs :: "clusterReader \<Rightarrow> authPolicy \<Rightarrow> (string + oauthCredentials) \<times> (string + string list)" where
  "resolved_inputs rd ap =
     (ResolveOAuthCredentials rd ap, ResolveAudiences rd (ap_namespace ap) (spec_allowedAudiences (ap_spec ap)))"

lemma resolved_inputs_local: "agree_in rd rd' (ap_namespace ap) \<Longrightarrow> resolved_inputs rd ap = resolved_inputs rd' ap"
  by (simp add: resolved_inputs_def credentials_local audiences_local)

lemma enqueue_listed:
  assumes "list ns = Inr items"
  shows "EnqueueAuthPoliciesInNamespace list ns = items"
proof -
  have "map (\<lambda>item. \<lparr>nn_namespace = nn_namespace item, nn_name = nn_name item\<rparr>) items = items"
    by (rule map_idI) simp
  with assms show ?thesis by (simp only: EnqueueAuthPoliciesInNamespace_def sum.case)
qed

section \<open>Properties\<close>



end
