(* ===== verification/Watches.thy ===== *)
theory Watches
  imports EventHandlers
begin

text \<open>
  \<open>SetupWithManager\<close> of \<open>internal/controller/authpolicy_controller.go\<close>: which changes of the cluster
  lead to which requests.  The builder of controller-runtime is rendered by what its documentation
  says of \<open>For\<close>, \<open>Owns\<close> and \<open>Watches\<close>: a change is given by the object before and after it, and the
  result lists the requests put into the queue.
\<close>

section \<open>The sources of a controller\<close>

text \<open>\<open>handler.EnqueueRequestsFromMapFunc\<close>: an update maps the old and the new object.\<close>

definition mapped_requests :: "('a \<Rightarrow> namespacedName list) \<Rightarrow> 'a option \<Rightarrow> 'a option \<Rightarrow> namespacedName list" where
  "mapped_requests f old new =
     (case old of None \<Rightarrow> [] | Some a \<Rightarrow> f a) @ (case new of None \<Rightarrow> [] | Some b \<Rightarrow> f b)"

text \<open>\<open>For\<close> with \<open>GenerationChangedPredicate\<close>: updates that keep the generation are dropped.\<close>

definition for_requests :: "authPolicy option \<Rightarrow> authPolicy option \<Rightarrow> namespacedName list" where
  "for_requests old new =
     (case (old, new) of
        (None, None) \<Rightarrow> []
      | (None, Some b) \<Rightarrow> [policy_request b]
      | (Some a, None) \<Rightarrow> [policy_request a]
      | (Some a, Some b) \<Rightarrow> if ap_generation a \<noteq> ap_generation b then [policy_request b] else [])"

text \<open>
  \<open>Owns\<close>: the request of the controller of the object, when its group and kind are those of an
  AuthPolicy.
\<close>

definition api_group :: "string \<Rightarrow> string" where
  "api_group apiVersion =
     (if CHR ''/'' \<in> set apiVersion then takeWhile (\<lambda>ch. ch \<noteq> CHR ''/'') apiVersion else [])"

definition owner_requests :: "objectMeta \<Rightarrow> namespacedName list" where
  "owner_requests m =
     (case controller_of m of
        None \<Rightarrow> []
      | Some ref \<Rightarrow>
          if api_group (or_apiVersion ref) = authPolicyGroup \<and> or_kind ref = authPolicyKind
          then [\<lparr>nn_namespace = om_namespace m, nn_name = or_name ref\<rparr>] else [])"

section \<open>The controller of AuthPolicies\<close>

text \<open>A change of one object, from its state before to its state after.\<close>

datatype change =
    PolicyChange "authPolicy option" "authPolicy option"
  | ObjectChange "k8s_object option" "k8s_object option"
  | PodChange "objectMeta option" "objectMeta option"
  | ConfigMapChange "objectMeta option" "objectMeta option"

text \<open>Secrets have two sources, the owned ones and those that policies may refer to.\<close>

fun secret_watched :: "k8s_object \<Rightarrow> watched option" where
  "secret_watched (SecretObj x) = Some (WatchedSecret (sec_meta x))"
| "secret_watched _ = None"

fun SetupWithManager :: "policy_lister \<Rightarrow> change \<Rightarrow> namespacedName list" where
  "SetupWithManager list (PolicyChange old new) = for_requests old new"
| "SetupWithManager list (ObjectChange old new) =
     mapped_requests (\<lambda>o'. owner_requests (obj_meta o')) old new @
     mapped_requests (\<lambda>o'. case secret_watched o' of None \<Rightarrow> [] | Some x \<Rightarrow> secret_EventHandler list x) old new"
| "SetupWithManager list (PodChange old new) = mapped_requests (\<lambda>m. pod_EventHandler list (WatchedPod m)) old new"
| "SetupWithManager list (ConfigMapChange old new) =
     mapped_requests (\<lambda>m. configmap_EventHandler list (WatchedConfigMap m)) old new"

section \<open>Facts\<close>

lemma set_mapped_requests:
  "q \<in> set (mapped_requests f old new) \<longleftrightarrow> (\<exists>a. (old = Some a \<or> new = Some a) \<and> q \<in> set (f a))"
  by (auto simp: mapped_requests_def split: option.splits)

lemma set_for_requests:
  "q \<in> set (for_requests old new) \<longleftrightarrow>
     (\<exists>a. old = Some a \<and> new = None \<and> q = policy_request a) \<or>
     (\<exists>b. new = Some b \<and> q = policy_request b \<and> (\<forall>a. old = Some a \<longrightarrow> ap_generation a \<noteq> ap_generation b))"
  by (auto simp: for_requests_def split: option.splits)

lemma policy_owner_requests:
  "controller_of m = Some (policy_owner ap) \<Longrightarrow> om_namespace m = ap_namespace ap \<Longrightarrow>
     owner_requests m = [policy_request ap]"
  by (simp add: owner_requests_def policy_request_def policy_owner_def api_group_def authPolicyGroup_def
      authPolicyKind_def)

end
