(* ===== verification/ReconcileEngine.thy ===== *)
theory ReconcileEngine
  imports K8sClient ResourceGenerators
begin

text \<open>
  \<open>pkg/reconciliation/reconciler.go\<close>: one resource is brought to its desired state. The engine
  reads the current object, decides on an action by the desired state and the ownership, carries it
  out and logs the outcome as a descendant of the scope. Effects are a pair of scope and world, and
  an error is the first component of a result.
\<close>

section \<open>Actions\<close>

datatype reconcileAction = RequiresCreateAction | RequiresUpdateAction | RequiresDeleteAction | RequiresNoAction

fun Action :: "reconcileAction \<Rightarrow> string" where
  "Action RequiresCreateAction = ''creation''"
| "Action RequiresUpdateAction = ''update''"
| "Action RequiresDeleteAction = ''deletion''"
| "Action RequiresNoAction = ''no action''"

text \<open>The fields of a \<open>ResourceReconciler\<close> but its scope, which the operations pass along.\<close>

record resourceReconciler =
  rr_kind :: string
  rr_name :: string
  rr_desired :: "k8s_object option"
  rr_shouldUpdate :: "k8s_object \<Rightarrow> k8s_object \<Rightarrow> bool"
  rr_updateFields :: "k8s_object \<Rightarrow> k8s_object \<Rightarrow> k8s_object"

definition IsResourceNil :: "resourceReconciler \<Rightarrow> bool" where
  "IsResourceNil r \<longleftrightarrow> rr_desired r = None"

fun CountNonNilResources_loop :: "nat \<Rightarrow> resourceReconciler list \<Rightarrow> nat" where
  "CountNonNilResources_loop number [] = number"
| "CountNonNilResources_loop number (rf # rfs) =
     CountNonNilResources_loop (if \<not> IsResourceNil rf then number + 1 else number) rfs"

definition CountNonNilResources :: "resourceReconciler list \<Rightarrow> nat" where
  "CountNonNilResources rfs = CountNonNilResources_loop 0 rfs"

definition slash_name :: "string \<Rightarrow> string \<Rightarrow> string" where
  "slash_name ns name = ns @ ''/'' @ name"

text \<open>The current object is given when it exists, with whether it is owned; else only its name.\<close>

definition DetermineReconcileAction ::
  "string \<Rightarrow> string \<Rightarrow> k8s_object option \<Rightarrow> k8s_object option \<Rightarrow>
   (k8s_object \<Rightarrow> k8s_object \<Rightarrow> bool) \<Rightarrow> bool \<Rightarrow> string + reconcileAction" where
  "DetermineReconcileAction ns name current desired shouldUpdate owned =
     (case desired of
        None \<Rightarrow> if current \<noteq> None \<and> owned then Inr RequiresDeleteAction else Inr RequiresNoAction
      | Some d \<Rightarrow>
          (case current of
             None \<Rightarrow> Inr RequiresCreateAction
           | Some cur \<Rightarrow>
               if \<not> owned then Inl (''cannot update '' @ slash_name ns name @ '' as it is not owned by AuthPolicy'')
               else if shouldUpdate cur d then Inr RequiresUpdateAction
               else Inr RequiresNoAction))"

section \<open>Carrying out an action\<close>

type_synonym 'w outcome = "string option \<times> objkey scope \<times> 'w"

text \<open>A message about a resource: words in front, kind and name, words behind.\<close>

definition about :: "string \<Rightarrow> string \<Rightarrow> string \<Rightarrow> string \<Rightarrow> string \<Rightarrow> string" where
  "about pre kind ns name post = pre @ '' '' @ kind @ '' '' @ slash_name ns name @ post"

definition meta_about :: "string \<Rightarrow> string \<Rightarrow> k8s_object \<Rightarrow> string \<Rightarrow> string" where
  "meta_about pre kind o' post = about pre kind (om_namespace (obj_meta o')) (om_name (obj_meta o')) post"

definition reconcileOnCreate ::
  "'w client \<Rightarrow> objkey scope \<Rightarrow> 'w \<Rightarrow> k8s_object \<Rightarrow> string \<Rightarrow> string \<Rightarrow> 'w outcome" where
  "reconcileOnCreate c s w desired kind name =
     (case c_setControllerReference c (s_authPolicy s) desired of
        Inl e \<Rightarrow>
          (Some e, ReplaceDescendant s (obj_key desired)
             (Some (meta_about ''Unable to set AuthPolicy ownerReference on'' kind desired ''.'')) None kind name, w)
      | Inr owned \<Rightarrow>
          (case c_create c w owned of
             (Some e, w') \<Rightarrow>
               (Some e, ReplaceDescendant s (obj_key desired)
                  (Some (meta_about ''Unable to create'' kind desired '''')) None kind name, w')
           | (None, w') \<Rightarrow>
               (None, ReplaceDescendant s (obj_key desired) None
                  (Some (meta_about ''Successfully created'' kind desired ''.'')) kind name, w')))"

definition reconcileOnUpdate ::
  "'w client \<Rightarrow> objkey scope \<Rightarrow> 'w \<Rightarrow> k8s_object \<Rightarrow> k8s_object \<Rightarrow>
   (k8s_object \<Rightarrow> k8s_object \<Rightarrow> k8s_object) \<Rightarrow> string \<Rightarrow> string \<Rightarrow> 'w outcome" where
  "reconcileOnUpdate c s w desired current updateFields kind name =
     (let updated = updateFields current desired
      in case c_patch c w current updated of
           (Some e, w') \<Rightarrow>
             (Some e, ReplaceDescendant s (obj_key updated)
                (Some (meta_about ''Unable to patch'' kind desired '''')) None kind name, w')
         | (None, w') \<Rightarrow>
             (None, ReplaceDescendant s (obj_key updated) None
                (Some (meta_about ''Successfully updated'' kind desired ''.'')) kind name, w'))"

definition reconcileOnDelete ::
  "'w client \<Rightarrow> objkey scope \<Rightarrow> 'w \<Rightarrow> k8s_object \<Rightarrow> string \<Rightarrow> string \<Rightarrow> 'w outcome" where
  "reconcileOnDelete c s w current kind name =
     (case c_delete c w current of
        (Some e, w') \<Rightarrow>
          (Some e, ReplaceDescendant s (obj_key current)
             (Some (meta_about ''Failed to delete'' kind current '''')) None kind name, w')
      | (None, w') \<Rightarrow> (None, s, w'))"

section \<open>Reconciling a resource\<close>

definition resource_key :: "objkey scope \<Rightarrow> resourceReconciler \<Rightarrow> objkey" where
  "resource_key s r =
     \<lparr>k_kind = rr_kind r, k_namespace = ap_namespace (s_authPolicy s), k_name = rr_name r\<rparr>"

definition reconcileCurrent ::
  "'w client \<Rightarrow> resourceReconciler \<Rightarrow> objkey scope \<Rightarrow> 'w \<Rightarrow> k8s_object option \<Rightarrow> 'w outcome" where
  "reconcileCurrent c r s w current =
     (let ns = ap_namespace (s_authPolicy s); kind = rr_kind r; name = rr_name r;
          owned = (case current of None \<Rightarrow> False | Some cur \<Rightarrow> c_isControlledBy c cur (s_authPolicy s))
      in case DetermineReconcileAction ns name current (rr_desired r) (rr_shouldUpdate r) owned of
           Inl e \<Rightarrow>
             (Some e, ReplaceDescendant s (resource_key s r)
                (Some (about ''Failed to reconcile'' kind ns name ('': '' @ e))) None kind name, w)
         | Inr RequiresDeleteAction \<Rightarrow>
             (case current of None \<Rightarrow> (None, s, w) | Some cur \<Rightarrow> reconcileOnDelete c s w cur kind name)
         | Inr RequiresCreateAction \<Rightarrow>
             (case rr_desired r of None \<Rightarrow> (None, s, w) | Some d \<Rightarrow> reconcileOnCreate c s w d kind name)
         | Inr RequiresUpdateAction \<Rightarrow>
             (case (rr_desired r, current) of
                (Some d, Some cur) \<Rightarrow> reconcileOnUpdate c s w d cur (rr_updateFields r) kind name
              | _ \<Rightarrow> (None, s, w))
         | Inr RequiresNoAction \<Rightarrow>
             (None,
              if rr_desired r \<noteq> None
              then ReplaceDescendant s (resource_key s r) None
                     (Some (about ''Successfully reconciled'' kind ns name ''.'')) kind name
              else s, w))"

definition ReconcileControllerResource ::
  "'w client \<Rightarrow> resourceReconciler \<Rightarrow> objkey scope \<Rightarrow> 'w \<Rightarrow> 'w outcome" where
  "ReconcileControllerResource c r s w =
     (case c_get c w (resource_key s r) of
        GetError e \<Rightarrow>
          (Some e, ReplaceDescendant s (resource_key s r)
             (Some (about ''Unable to get'' (rr_kind r) (ap_namespace (s_authPolicy s)) (rr_name r) ''.''))
             None (rr_kind r) (rr_name r), w)
      | NotFound \<Rightarrow> reconcileCurrent c r s w None
      | Found cur \<Rightarrow> reconcileCurrent c r s w (Some cur))"

section \<open>Counting\<close>

lemma CountNonNilResources_filter: "CountNonNilResources rfs = length (filter (\<lambda>r. \<not> IsResourceNil r) rfs)"
proof -
  have "CountNonNilResources_loop n rfs = n + length (filter (\<lambda>r. \<not> IsResourceNil r) rfs)" for n
    by (induction rfs arbitrary: n) auto
  then show ?thesis by (simp add: CountNonNilResources_def)
qed

section \<open>The descendant of a resource\<close>

definition resource_id :: "resourceReconciler \<Rightarrow> string" where
  "resource_id r = GetID (rr_kind r) (rr_name r)"

lemmas outcome_defs =
  ReconcileControllerResource_def reconcileCurrent_def DetermineReconcileAction_def Let_def
  reconcileOnCreate_def reconcileOnUpdate_def reconcileOnDelete_def

lemmas outcome_splits =
  get_result.splits option.splits sum.splits prod.splits if_splits reconcileAction.splits

lemma ReplaceDescendant_policy [simp]:
  "s_authPolicy (ReplaceDescendant s obj e m kind name) = s_authPolicy s"
  by (simp add: ReplaceDescendant_def)

lemma resource_key_cong: "s_authPolicy s' = s_authPolicy s \<Longrightarrow> resource_key s' r = resource_key s r"
  by (simp add: resource_key_def)

text \<open>
  Every outcome is one of three: the resource is absent and nothing was logged, it is present and
  its success was logged, or an error was returned and logged.
\<close>

lemma outcome_logged:
  assumes "ReconcileControllerResource c r s w = (e, s', w')"
  obtains (absent) "e = None" "rr_desired r = None" "s' = s"
  | (success) obj m where "e = None" "rr_desired r \<noteq> None"
      "s' = ReplaceDescendant s obj None (Some m) (rr_kind r) (rr_name r)"
  | (error) obj x m where "e = Some x" "s' = ReplaceDescendant s obj (Some m) None (rr_kind r) (rr_name r)"
  using assms by (auto simp: outcome_defs split: outcome_splits)

lemma outcome_policy:
  "ReconcileControllerResource c r s w = (e, s', w') \<Longrightarrow> s_authPolicy s' = s_authPolicy s"
  by (erule outcome_logged) auto

section \<open>The contract of the update functions\<close>

text \<open>
  What it means that a stored object carries a desired one, apart from any function that decides on
  updates: it has its labels, and its token file, patches, token rules or access rules and selector.
\<close>

definition has_labels :: "objectMeta \<Rightarrow> objectMeta \<Rightarrow> bool" where
  "has_labels current desired \<longleftrightarrow>
     list_all (\<lambda>(key, v). map_of (om_labels current) key = Some v) (om_labels desired)"

fun carries :: "k8s_object \<Rightarrow> k8s_object \<Rightarrow> bool" where
  "carries (SecretObj a) (SecretObj b) \<longleftrightarrow>
     map_of (sec_data a) TokenSecretFileName = map_of (sec_data b) TokenSecretFileName \<and>
     has_labels (sec_meta a) (sec_meta b)"
| "carries (EnvoyFilterObj a) (EnvoyFilterObj b) \<longleftrightarrow>
     maps_Equal (ef_selector a) (ef_selector b) \<and> ef_configPatches a = ef_configPatches b \<and>
     has_labels (ef_meta a) (ef_meta b)"
| "carries (RequestAuthenticationObj a) (RequestAuthenticationObj b) \<longleftrightarrow>
     maps_Equal (ra_selector a) (ra_selector b) \<and> ra_jwtRules a = ra_jwtRules b \<and>
     has_labels (ra_meta a) (ra_meta b)"
| "carries (AuthorizationPolicyObj a) (AuthorizationPolicyObj b) \<longleftrightarrow>
     maps_Equal (azp_selector a) (azp_selector b) \<and> azp_rules a = azp_rules b \<and>
     has_labels (azp_meta a) (azp_meta b)"
| "carries _ _ \<longleftrightarrow> False"

text \<open>
  Of its two update functions a resource relies on this: an updated object and a freshly created one
  carry the desired object, an object that needs no update does so already, and an update keeps the
  object's name and owners.
\<close>

locale update_contract =
  fixes should :: "k8s_object \<Rightarrow> k8s_object \<Rightarrow> bool"
    and upd :: "k8s_object \<Rightarrow> k8s_object \<Rightarrow> k8s_object"
    and ok :: "k8s_object \<Rightarrow> bool"
  assumes settled: "ok d \<Longrightarrow> obj_kind cur = obj_kind d \<Longrightarrow> carries (upd cur d) d"
    and fresh: "ok d \<Longrightarrow> carries (set_owners owners d) d"
    and sound: "ok d \<Longrightarrow> obj_kind cur = obj_kind d \<Longrightarrow> \<not> should cur d \<Longrightarrow> carries cur d"
    and key_kept: "obj_key (upd cur d) = obj_key cur"
    and owners_kept: "om_owners (obj_meta (upd cur d)) = om_owners (obj_meta cur)"

text \<open>A resource as the controller builds it: its functions keep the contract, its object its name.\<close>

definition lawful :: "objkey scope \<Rightarrow> resourceReconciler \<Rightarrow> bool" where
  "lawful s r \<longleftrightarrow> (\<exists>ok. update_contract (rr_shouldUpdate r) (rr_updateFields r) ok \<and>
     (\<forall>d. rr_desired r = Some d \<longrightarrow> ok d \<and> obj_key d = resource_key s r))"

lemma lawful_cong: "s_authPolicy s' = s_authPolicy s \<Longrightarrow> lawful s' r = lawful s r"
  by (simp add: lawful_def resource_key_def)

lemma lawfulE:
  assumes "lawful s r" and "rr_desired r = Some d"
  shows "obj_key d = resource_key s r"
    and "carries (set_owners owners d) d"
    and "obj_kind cur = obj_kind d \<Longrightarrow> carries (rr_updateFields r cur d) d"
    and "obj_key (rr_updateFields r cur d) = obj_key cur"
    and "om_owners (obj_meta (rr_updateFields r cur d)) = om_owners (obj_meta cur)"
    and "obj_kind cur = obj_kind d \<Longrightarrow> \<not> rr_shouldUpdate r cur d \<Longrightarrow> carries cur d"
  using assms unfolding lawful_def update_contract_def by blast+

lemma obj_key_kind: "obj_key a = obj_key b \<Longrightarrow> obj_kind a = obj_kind b"
  by (simp add: obj_key_def)

context k8s_api
begin

text \<open>What each action does to the stored objects.\<close>

lemma create_effect:
  assumes "reconcileOnCreate c s w d kind name = (e, s', w')" and "objects w (obj_key d) = None"
  shows "objects w' = objects w \<and> e \<noteq> None \<or>
    e = None \<and> (\<exists>owners. objects w' = (objects w)(obj_key d \<mapsto> set_owners owners d) \<and>
      c_isControlledBy c (set_owners owners d) (s_authPolicy s) \<and>
      c_setControllerReference c (s_authPolicy s) d = Inr (set_owners owners d))"
proof (cases "c_setControllerReference c (s_authPolicy s) d")
  case (Inl x)
  then show ?thesis using assms(1) by (auto simp: reconcileOnCreate_def)
next
  case (Inr o')
  obtain owners where o': "o' = set_owners owners d" "c_isControlledBy c o' (s_authPolicy s)"
    using set_reference [OF Inr] by blast
  obtain e' w1 where cr: "c_create c w o' = (e', w1)" by fastforce
  show ?thesis
  proof (cases e')
    case None
    then have "objects w1 = (objects w)(obj_key d \<mapsto> o')"
      using create_ok [of w o' w1] cr o'(1) assms(2) by simp
    then show ?thesis using assms(1) Inr cr None o' by (auto simp: reconcileOnCreate_def)
  next
    case (Some x)
    then show ?thesis
      using create_error [of w o' x w1] cr assms(1) Inr by (auto simp: reconcileOnCreate_def)
  qed
qed

lemma update_effect:
  assumes "reconcileOnUpdate c s w d cur upd kind name = (e, s', w')"
    and "objects w (obj_key cur) = Some cur" and "obj_key (upd cur d) = obj_key cur"
  shows "objects w' = objects w \<and> e \<noteq> None \<or>
    e = None \<and> objects w' = (objects w)(obj_key cur \<mapsto> upd cur d)"
  using assms patch_ok [of w cur "upd cur d"] patch_error [of w cur "upd cur d"]
  by (auto simp: reconcileOnUpdate_def Let_def split: prod.splits option.splits)

lemma delete_effect:
  assumes "reconcileOnDelete c s w cur kind name = (e, s', w')"
  shows "objects w' = objects w \<and> e \<noteq> None \<or> e = None \<and> objects w' = (objects w)(obj_key cur := None)"
  using assms delete_ok delete_error by (auto simp: reconcileOnDelete_def split: prod.splits option.splits)

text \<open>
  The cases of a run, by what is stored and desired. Each gives the objects afterwards.
\<close>

definition run_effect :: "objkey scope \<Rightarrow> resourceReconciler \<Rightarrow> 'w \<Rightarrow> string option \<Rightarrow> 'w \<Rightarrow> bool" where
  "run_effect s r w e w' \<longleftrightarrow>
     (let k = resource_key s r; ap = s_authPolicy s in
      objects w' = objects w \<and> e \<noteq> None \<or>
      objects w' = objects w \<and> e = None \<and>
        (case (objects w k, rr_desired r) of
           (None, None) \<Rightarrow> True
         | (Some cur, None) \<Rightarrow> \<not> c_isControlledBy c cur ap
         | (None, Some d) \<Rightarrow> False
         | (Some cur, Some d) \<Rightarrow> c_isControlledBy c cur ap \<and> obj_key cur = k \<and> \<not> rr_shouldUpdate r cur d) \<or>
      e = None \<and>
        (case (objects w k, rr_desired r) of
           (None, None) \<Rightarrow> False
         | (Some cur, None) \<Rightarrow> c_isControlledBy c cur ap \<and> objects w' = (objects w)(k := None)
         | (None, Some d) \<Rightarrow> (\<exists>owners. objects w' = (objects w)(k \<mapsto> set_owners owners d) \<and>
             c_isControlledBy c (set_owners owners d) ap \<and>
             c_setControllerReference c ap d = Inr (set_owners owners d))
         | (Some cur, Some d) \<Rightarrow> c_isControlledBy c cur ap \<and> obj_key cur = k \<and>
             objects w' = (objects w)(k \<mapsto> rr_updateFields r cur d)))"

lemma run_missing:
  assumes "lawful s r" and "objects w (resource_key s r) = None"
    and "reconcileCurrent c r s w None = (e, s', w')"
  shows "run_effect s r w e w'"
proof (cases "rr_desired r")
  case None
  then show ?thesis
    using assms(2, 3) by (auto simp: run_effect_def reconcileCurrent_def DetermineReconcileAction_def Let_def)
next
  case (Some d)
  then have "reconcileOnCreate c s w d (rr_kind r) (rr_name r) = (e, s', w')"
    using assms(3) by (simp add: reconcileCurrent_def DetermineReconcileAction_def Let_def)
  from create_effect [OF this] show ?thesis
    using assms(2) Some lawfulE(1) [OF assms(1) Some] by (auto simp: run_effect_def Let_def)
qed

lemma run_present:
  assumes "lawful s r" and "objects w (resource_key s r) = Some cur" and "obj_key cur = resource_key s r"
    and "reconcileCurrent c r s w (Some cur) = (e, s', w')"
  shows "run_effect s r w e w'"
proof (cases "c_isControlledBy c cur (s_authPolicy s)")
  case False
  then show ?thesis
    using assms(2, 4) by (cases "rr_desired r")
      (auto simp: run_effect_def reconcileCurrent_def DetermineReconcileAction_def Let_def)
next
  case True
  show ?thesis
  proof (cases "rr_desired r")
    case None
    then have "reconcileOnDelete c s w cur (rr_kind r) (rr_name r) = (e, s', w')"
      using True assms(4) by (simp add: reconcileCurrent_def DetermineReconcileAction_def Let_def)
    from delete_effect [OF this] show ?thesis using assms(2, 3) True None by (auto simp: run_effect_def Let_def)
  next
    case (Some d)
    show ?thesis
    proof (cases "rr_shouldUpdate r cur d")
      case False
      then show ?thesis
        using True Some assms(2, 3, 4)
        by (auto simp: run_effect_def reconcileCurrent_def DetermineReconcileAction_def Let_def)
    next
      case should: True
      then have "reconcileOnUpdate c s w d cur (rr_updateFields r) (rr_kind r) (rr_name r) = (e, s', w')"
        using True Some assms(4) by (simp add: reconcileCurrent_def DetermineReconcileAction_def Let_def)
      from update_effect [OF this] show ?thesis
        using assms(2, 3) True Some lawfulE(4) [OF assms(1) Some] by (auto simp: run_effect_def Let_def)
    qed
  qed
qed

lemma run_cases:
  assumes "lawful s r" and "ReconcileControllerResource c r s w = (e, s', w')"
  shows "run_effect s r w e w'"
proof (cases "c_get c w (resource_key s r)")
  case (Found cur)
  then show ?thesis
    using run_present [OF assms(1)] get_found [OF Found] assms(2)
    by (simp add: ReconcileControllerResource_def)
next
  case NotFound
  then show ?thesis
    using run_missing [OF assms(1)] get_notfound [OF NotFound] assms(2)
    by (simp add: ReconcileControllerResource_def)
next
  case (GetError x)
  then show ?thesis using assms(2) by (auto simp: ReconcileControllerResource_def run_effect_def Let_def)
qed

lemma run_frame:
  assumes "lawful s r" and "ReconcileControllerResource c r s w = (e, s', w')" and "k \<noteq> resource_key s r"
  shows "objects w' k = objects w k"
  using run_cases [OF assms(1, 2)] assms(3)
  by (auto simp: run_effect_def Let_def split: option.splits)

lemma run_unowned:
  assumes "lawful s r" and "ReconcileControllerResource c r s w = (e, s', w')"
    and "objects w k = Some o'" and "\<not> c_isControlledBy c o' (s_authPolicy s)"
  shows "objects w' k = Some o'"
  using run_cases [OF assms(1, 2)] assms(3, 4)
  by (cases "k = resource_key s r") (auto simp: run_effect_def Let_def split: option.splits)

end

text \<open>
  The goal of a resource: an absent one leaves no object of the policy under its name, and for a
  desired one an object is stored that carries it and belongs to the policy.
\<close>

definition settled_in ::
  "(k8s_object \<Rightarrow> authPolicy \<Rightarrow> bool) \<Rightarrow> (objkey \<Rightarrow> k8s_object option) \<Rightarrow> objkey scope \<Rightarrow> resourceReconciler \<Rightarrow> bool" where
  "settled_in controlled objs s r \<longleftrightarrow>
     (case (objs (resource_key s r), rr_desired r) of
        (None, None) \<Rightarrow> True
      | (Some cur, None) \<Rightarrow> \<not> controlled cur (s_authPolicy s)
      | (None, Some d) \<Rightarrow> False
      | (Some cur, Some d) \<Rightarrow> controlled cur (s_authPolicy s) \<and> carries cur d)"

context k8s_api
begin

lemma run_settles:
  assumes "lawful s r" and "ReconcileControllerResource c r s w = (None, s', w')"
  shows "settled_in (c_isControlledBy c) (objects w') s r"
proof (cases "rr_desired r")
  case None
  then show ?thesis
    using run_cases [OF assms] by (auto simp: run_effect_def settled_in_def Let_def split: option.splits)
next
  case (Some d)
  note law = lawfulE [OF assms(1) Some]
  have "carries (rr_updateFields r cur d) d" "\<not> rr_shouldUpdate r cur d \<Longrightarrow> carries cur d"
    if "obj_key cur = resource_key s r" for cur
    using law(3, 6) [of cur] that law(1) by (simp_all add: obj_key_kind)
  moreover have "c_isControlledBy c (rr_updateFields r cur d) (s_authPolicy s) = c_isControlledBy c cur (s_authPolicy s)" for cur
    by (rule control_by_owners [OF law(5)])
  ultimately show ?thesis
    using run_cases [OF assms] Some law(2)
    by (auto simp: run_effect_def settled_in_def Let_def split: option.splits)
qed

text \<open>A settled resource is left alone when its comparison sees no difference.\<close>

lemma run_idle:
  assumes "settled_in (c_isControlledBy c) (objects w) s r"
    and "\<And>x. c_get c w (resource_key s r) \<noteq> GetError x"
    and "\<And>cur d. rr_desired r = Some d \<Longrightarrow> carries cur d \<Longrightarrow> \<not> rr_shouldUpdate r cur d"
  shows "\<exists>s'. ReconcileControllerResource c r s w = (None, s', w)"
proof (cases "c_get c w (resource_key s r)")
  case (Found cur)
  then show ?thesis
    using assms(1, 3) get_found [OF Found]
    by (auto simp: ReconcileControllerResource_def reconcileCurrent_def DetermineReconcileAction_def
        settled_in_def Let_def split: option.splits)
next
  case NotFound
  then show ?thesis
    using assms(1, 3) get_notfound [OF NotFound]
    by (auto simp: ReconcileControllerResource_def reconcileCurrent_def DetermineReconcileAction_def
        settled_in_def Let_def split: option.splits)
next
  case (GetError x)
  then show ?thesis using assms(2) by blast
qed

end

end
