(* ===== verification/ControllerResources.thy ===== *)
theory ControllerResources
  imports ReconcileEngine ResourceGenerators
begin

text \<open>
  \<open>internal/reconciler/resources.go\<close>: the six resources of a scope, each with its generator and
  its two update functions.  The theory shows that the update functions keep the engine's
  contract and that the six resources are lawful and have different names.
\<close>

section \<open>Labels\<close>

definition labelsNeedUpdate :: "labels \<Rightarrow> labels \<Rightarrow> bool" where
  "labelsNeedUpdate current desired \<longleftrightarrow> list_ex (\<lambda>(key, v). map_of current key \<noteq> Some v) desired"

section \<open>Update functions\<close>

text \<open>
  \<open>reflect.DeepEqual\<close> on the messages under a field of two objects: their values are equal, and so
  is what the values do not show.
\<close>

definition DeepEqual :: "generatorEnv \<Rightarrow> bool \<Rightarrow> string \<Rightarrow> k8s_object \<Rightarrow> k8s_object \<Rightarrow> bool" where
  "DeepEqual env values_equal field current desired \<longleftrightarrow>
     values_equal \<and> rc_sameInternals (ge_run env) field current desired"

definition SecretShouldUpdate :: "secret \<Rightarrow> secret \<Rightarrow> bool" where
  "SecretShouldUpdate current desired \<longleftrightarrow>
     map_of (sec_data desired) TokenSecretFileName = None \<or>
     map_of (sec_data current) TokenSecretFileName = None \<or>
     map_of (sec_data current) TokenSecretFileName \<noteq> map_of (sec_data desired) TokenSecretFileName \<or>
     labelsNeedUpdate (om_labels (sec_meta current)) (om_labels (sec_meta desired))"

definition SecretUpdateFields :: "secret \<Rightarrow> secret \<Rightarrow> secret" where
  "SecretUpdateFields current desired =
     current\<lparr>sec_data := sec_data desired,
       sec_meta := (sec_meta current)\<lparr>om_labels := om_labels (sec_meta desired)\<rparr>\<rparr>"

definition EnvoyFilterShouldUpdate :: "generatorEnv \<Rightarrow> envoyFilter \<Rightarrow> envoyFilter \<Rightarrow> bool" where
  "EnvoyFilterShouldUpdate env current desired \<longleftrightarrow>
     \<not> DeepEqual env (maps_Equal (ef_selector current) (ef_selector desired)) ''workloadSelector''
       (EnvoyFilterObj current) (EnvoyFilterObj desired) \<or>
     \<not> DeepEqual env (ef_configPatches current = ef_configPatches desired) ''configPatches''
       (EnvoyFilterObj current) (EnvoyFilterObj desired) \<or>
     labelsNeedUpdate (om_labels (ef_meta current)) (om_labels (ef_meta desired))"

definition EnvoyFilterUpdateFields :: "envoyFilter \<Rightarrow> envoyFilter \<Rightarrow> envoyFilter" where
  "EnvoyFilterUpdateFields current desired =
     current\<lparr>ef_selector := ef_selector desired, ef_configPatches := ef_configPatches desired,
       ef_meta := (ef_meta current)\<lparr>om_labels := om_labels (ef_meta desired)\<rparr>\<rparr>"

definition RequestAuthenticationShouldUpdate :: "generatorEnv \<Rightarrow> requestAuthentication \<Rightarrow> requestAuthentication \<Rightarrow> bool" where
  "RequestAuthenticationShouldUpdate env current desired \<longleftrightarrow>
     \<not> DeepEqual env (maps_Equal (ra_selector current) (ra_selector desired)) ''selector''
       (RequestAuthenticationObj current) (RequestAuthenticationObj desired) \<or>
     \<not> DeepEqual env (ra_jwtRules current = ra_jwtRules desired) ''jwtRules''
       (RequestAuthenticationObj current) (RequestAuthenticationObj desired) \<or>
     labelsNeedUpdate (om_labels (ra_meta current)) (om_labels (ra_meta desired))"

definition RequestAuthenticationUpdateFields ::
  "requestAuthentication \<Rightarrow> requestAuthentication \<Rightarrow> requestAuthentication" where
  "RequestAuthenticationUpdateFields current desired =
     current\<lparr>ra_selector := ra_selector desired, ra_jwtRules := ra_jwtRules desired,
       ra_meta := (ra_meta current)\<lparr>om_labels := om_labels (ra_meta desired)\<rparr>\<rparr>"

definition AuthorizationPolicyShouldUpdate :: "generatorEnv \<Rightarrow> authorizationPolicy \<Rightarrow> authorizationPolicy \<Rightarrow> bool" where
  "AuthorizationPolicyShouldUpdate env current desired \<longleftrightarrow>
     \<not> DeepEqual env (maps_Equal (azp_selector current) (azp_selector desired)) ''selector''
       (AuthorizationPolicyObj current) (AuthorizationPolicyObj desired) \<or>
     \<not> DeepEqual env (azp_rules current = azp_rules desired) ''rules''
       (AuthorizationPolicyObj current) (AuthorizationPolicyObj desired) \<or>
     labelsNeedUpdate (om_labels (azp_meta current)) (om_labels (azp_meta desired))"

definition AuthorizationPolicyUpdateFields ::
  "authorizationPolicy \<Rightarrow> authorizationPolicy \<Rightarrow> authorizationPolicy" where
  "AuthorizationPolicyUpdateFields current desired =
     current\<lparr>azp_selector := azp_selector desired, azp_rules := azp_rules desired,
       azp_meta := (azp_meta current)\<lparr>om_labels := om_labels (azp_meta desired)\<rparr>\<rparr>"

section \<open>The type parameter of a resource\<close>

text \<open>
  A Go resource is generic in its object type, so that both arguments of its functions have that
  type; on the sum of the object types other arguments are left alone.
\<close>

fun asSecret :: "k8s_object \<Rightarrow> secret option" where
  "asSecret (SecretObj x) = Some x" | "asSecret _ = None"

fun asEnvoyFilter :: "k8s_object \<Rightarrow> envoyFilter option" where
  "asEnvoyFilter (EnvoyFilterObj x) = Some x" | "asEnvoyFilter _ = None"

fun asRequestAuthentication :: "k8s_object \<Rightarrow> requestAuthentication option" where
  "asRequestAuthentication (RequestAuthenticationObj x) = Some x" | "asRequestAuthentication _ = None"

fun asAuthorizationPolicy :: "k8s_object \<Rightarrow> authorizationPolicy option" where
  "asAuthorizationPolicy (AuthorizationPolicyObj x) = Some x" | "asAuthorizationPolicy _ = None"

definition liftShould :: "(k8s_object \<Rightarrow> 'a option) \<Rightarrow> ('a \<Rightarrow> 'a \<Rightarrow> bool) \<Rightarrow> k8s_object \<Rightarrow> k8s_object \<Rightarrow> bool" where
  "liftShould as f current desired =
     (case (as current, as desired) of (Some a, Some b) \<Rightarrow> f a b | _ \<Rightarrow> False)"

definition liftUpdate ::
  "(k8s_object \<Rightarrow> 'a option) \<Rightarrow> ('a \<Rightarrow> k8s_object) \<Rightarrow> ('a \<Rightarrow> 'a \<Rightarrow> 'a) \<Rightarrow> k8s_object \<Rightarrow> k8s_object \<Rightarrow> k8s_object" where
  "liftUpdate as mk f current desired =
     (case (as current, as desired) of (Some a, Some b) \<Rightarrow> mk (f a b) | _ \<Rightarrow> current)"

section \<open>The six resources\<close>

definition secretResource :: "generatorEnv \<Rightarrow> objkey scope \<Rightarrow> string + resourceReconciler" where
  "secretResource env s =
     res_bind (secret_GetDesired env s
       (buildObjectMeta (alc_envoySecretName (s_autoLoginConfig s)) (ap_namespace (s_authPolicy s)))) (\<lambda>desired.
       Inr \<lparr>rr_kind = ''Secret'', rr_name = alc_envoySecretName (s_autoLoginConfig s),
            rr_desired = map_option SecretObj desired,
            rr_shouldUpdate = liftShould asSecret SecretShouldUpdate,
            rr_updateFields = liftUpdate asSecret SecretObj SecretUpdateFields\<rparr>)"

definition envoyFilterResource :: "generatorEnv \<Rightarrow> objkey scope \<Rightarrow> string + resourceReconciler" where
  "envoyFilterResource env s =
     res_bind (envoyfilter_GetDesired env s
       (buildObjectMeta (EnvoyFilterName (ap_name (s_authPolicy s))) (ap_namespace (s_authPolicy s)))) (\<lambda>desired.
       Inr \<lparr>rr_kind = ''EnvoyFilter'', rr_name = EnvoyFilterName (ap_name (s_authPolicy s)),
            rr_desired = map_option EnvoyFilterObj desired,
            rr_shouldUpdate = liftShould asEnvoyFilter (EnvoyFilterShouldUpdate env),
            rr_updateFields = liftUpdate asEnvoyFilter EnvoyFilterObj EnvoyFilterUpdateFields\<rparr>)"

definition requestAuthenticationResource :: "generatorEnv \<Rightarrow> objkey scope \<Rightarrow> resourceReconciler" where
  "requestAuthenticationResource env s =
     \<lparr>rr_kind = ''RequestAuthentication'', rr_name = ap_name (s_authPolicy s),
      rr_desired = map_option RequestAuthenticationObj
        (requestauthentication_GetDesired s
          (buildObjectMeta (ap_name (s_authPolicy s)) (ap_namespace (s_authPolicy s)))),
      rr_shouldUpdate = liftShould asRequestAuthentication (RequestAuthenticationShouldUpdate env),
      rr_updateFields = liftUpdate asRequestAuthentication RequestAuthenticationObj RequestAuthenticationUpdateFields\<rparr>"

definition authorizationPolicyResource ::
  "generatorEnv \<Rightarrow> string \<Rightarrow> authorizationPolicy option \<Rightarrow> resourceReconciler" where
  "authorizationPolicyResource env name desired =
     \<lparr>rr_kind = ''AuthorizationPolicy'', rr_name = name,
      rr_desired = map_option AuthorizationPolicyObj desired,
      rr_shouldUpdate = liftShould asAuthorizationPolicy (AuthorizationPolicyShouldUpdate env),
      rr_updateFields = liftUpdate asAuthorizationPolicy AuthorizationPolicyObj AuthorizationPolicyUpdateFields\<rparr>"

definition denyAuthorizationPolicyResource :: "generatorEnv \<Rightarrow> objkey scope \<Rightarrow> resourceReconciler" where
  "denyAuthorizationPolicyResource env s =
     (let name = DenyPolicyName (ap_name (s_authPolicy s))
      in authorizationPolicyResource env name (deny_GetDesired s (buildObjectMeta name (ap_namespace (s_authPolicy s)))))"

definition ignoreAuthorizationPolicyResource :: "generatorEnv \<Rightarrow> objkey scope \<Rightarrow> resourceReconciler" where
  "ignoreAuthorizationPolicyResource env s =
     (let name = IgnorePolicyName (ap_name (s_authPolicy s))
      in authorizationPolicyResource env name (ignore_GetDesired s (buildObjectMeta name (ap_namespace (s_authPolicy s)))))"

definition requireAuthorizationPolicyResource :: "generatorEnv \<Rightarrow> objkey scope \<Rightarrow> resourceReconciler" where
  "requireAuthorizationPolicyResource env s =
     (let name = RequirePolicyName (ap_name (s_authPolicy s))
      in authorizationPolicyResource env name
           (require_GetDesired (ge_newcap env) s (buildObjectMeta name (ap_namespace (s_authPolicy s)))))"

definition ControllerResources :: "generatorEnv \<Rightarrow> objkey scope \<Rightarrow> string + resourceReconciler list" where
  "ControllerResources env s =
     res_bind (secretResource env s) (\<lambda>secret.
     res_bind (envoyFilterResource env s) (\<lambda>envoyFilter.
       Inr [secret, envoyFilter, requestAuthenticationResource env s, denyAuthorizationPolicyResource env s,
            ignoreAuthorizationPolicyResource env s, requireAuthorizationPolicyResource env s]))"

section \<open>The update functions keep the contract\<close>

lemma has_labels_self: "wf_map (om_labels m) \<Longrightarrow> om_labels m' = om_labels m \<Longrightarrow> has_labels m' m"
  by (auto simp: has_labels_def wf_map_def list_all_iff)

lemma labels_need_no_update: "\<not> labelsNeedUpdate (om_labels a) (om_labels b) \<longleftrightarrow> has_labels a b"
  by (auto simp: labelsNeedUpdate_def has_labels_def list_ex_iff list_all_iff)

lemma maps_Equal_refl: "wf_map ls \<Longrightarrow> maps_Equal ls ls"
  by (auto simp: maps_Equal_def wf_map_def list_all_iff)

lemma standard_labels_wf: "wf_map AuthPolicyStandardLabels"
  by code_simp

text \<open>The well-formed desired objects: maps have no key twice, and a secret has its token.\<close>

definition secret_ok :: "k8s_object \<Rightarrow> bool" where
  "secret_ok o' = (case asSecret o' of None \<Rightarrow> False
     | Some x \<Rightarrow> wf_map (om_labels (sec_meta x)) \<and> map_of (sec_data x) TokenSecretFileName \<noteq> None)"

definition envoyFilter_ok :: "k8s_object \<Rightarrow> bool" where
  "envoyFilter_ok o' = (case asEnvoyFilter o' of None \<Rightarrow> False
     | Some x \<Rightarrow> wf_map (om_labels (ef_meta x)) \<and> wf_map (ef_selector x))"

definition requestAuthentication_ok :: "k8s_object \<Rightarrow> bool" where
  "requestAuthentication_ok o' = (case asRequestAuthentication o' of None \<Rightarrow> False
     | Some x \<Rightarrow> wf_map (om_labels (ra_meta x)) \<and> wf_map (ra_selector x))"

definition authorizationPolicy_ok :: "k8s_object \<Rightarrow> bool" where
  "authorizationPolicy_ok o' = (case asAuthorizationPolicy o' of None \<Rightarrow> False
     | Some x \<Rightarrow> wf_map (om_labels (azp_meta x)) \<and> wf_map (azp_selector x))"

lemmas contract_defs =
  liftShould_def liftUpdate_def set_owners_def obj_key_def has_labels_self maps_Equal_refl DeepEqual_def

interpretation secret_update:
  update_contract "liftShould asSecret SecretShouldUpdate"
    "liftUpdate asSecret SecretObj SecretUpdateFields" secret_ok
proof
  fix cur d :: k8s_object and owners
  show "secret_ok d \<Longrightarrow> obj_kind cur = obj_kind d \<Longrightarrow>
      carries (liftUpdate asSecret SecretObj SecretUpdateFields cur d) d"
    by (cases cur; cases d) (auto simp: contract_defs secret_ok_def SecretUpdateFields_def)
  show "secret_ok d \<Longrightarrow> carries (set_owners owners d) d"
    by (cases d) (auto simp: contract_defs secret_ok_def)
  show "secret_ok d \<Longrightarrow> obj_kind cur = obj_kind d \<Longrightarrow>
      \<not> liftShould asSecret SecretShouldUpdate cur d \<Longrightarrow> carries cur d"
    by (cases cur; cases d) (auto simp: contract_defs secret_ok_def SecretShouldUpdate_def labels_need_no_update)
  show "obj_key (liftUpdate asSecret SecretObj SecretUpdateFields cur d) = obj_key cur"
    and "om_owners (obj_meta (liftUpdate asSecret SecretObj SecretUpdateFields cur d)) =
      om_owners (obj_meta cur)"
    by (cases cur; cases d; simp add: contract_defs SecretUpdateFields_def)+
qed

interpretation envoyFilter_update:
  update_contract "liftShould asEnvoyFilter (EnvoyFilterShouldUpdate env)"
    "liftUpdate asEnvoyFilter EnvoyFilterObj EnvoyFilterUpdateFields" envoyFilter_ok for env
proof
  fix cur d :: k8s_object and owners
  show "envoyFilter_ok d \<Longrightarrow> obj_kind cur = obj_kind d \<Longrightarrow>
      carries (liftUpdate asEnvoyFilter EnvoyFilterObj EnvoyFilterUpdateFields cur d) d"
    by (cases cur; cases d) (auto simp: contract_defs envoyFilter_ok_def EnvoyFilterUpdateFields_def)
  show "envoyFilter_ok d \<Longrightarrow> carries (set_owners owners d) d"
    by (cases d) (auto simp: contract_defs envoyFilter_ok_def)
  show "envoyFilter_ok d \<Longrightarrow> obj_kind cur = obj_kind d \<Longrightarrow>
      \<not> liftShould asEnvoyFilter (EnvoyFilterShouldUpdate env) cur d \<Longrightarrow> carries cur d"
    by (cases cur; cases d) (auto simp: contract_defs envoyFilter_ok_def EnvoyFilterShouldUpdate_def labels_need_no_update)
  show "obj_key (liftUpdate asEnvoyFilter EnvoyFilterObj EnvoyFilterUpdateFields cur d) = obj_key cur"
    and "om_owners (obj_meta (liftUpdate asEnvoyFilter EnvoyFilterObj EnvoyFilterUpdateFields cur d)) =
      om_owners (obj_meta cur)"
    by (cases cur; cases d; simp add: contract_defs EnvoyFilterUpdateFields_def)+
qed

interpretation requestAuthentication_update:
  update_contract "liftShould asRequestAuthentication (RequestAuthenticationShouldUpdate env)"
    "liftUpdate asRequestAuthentication RequestAuthenticationObj RequestAuthenticationUpdateFields" requestAuthentication_ok for env
proof
  fix cur d :: k8s_object and owners
  show "requestAuthentication_ok d \<Longrightarrow> obj_kind cur = obj_kind d \<Longrightarrow>
      carries (liftUpdate asRequestAuthentication RequestAuthenticationObj RequestAuthenticationUpdateFields cur d) d"
    by (cases cur; cases d) (auto simp: contract_defs requestAuthentication_ok_def RequestAuthenticationUpdateFields_def)
  show "requestAuthentication_ok d \<Longrightarrow> carries (set_owners owners d) d"
    by (cases d) (auto simp: contract_defs requestAuthentication_ok_def)
  show "requestAuthentication_ok d \<Longrightarrow> obj_kind cur = obj_kind d \<Longrightarrow>
      \<not> liftShould asRequestAuthentication (RequestAuthenticationShouldUpdate env) cur d \<Longrightarrow> carries cur d"
    by (cases cur; cases d) (auto simp: contract_defs requestAuthentication_ok_def RequestAuthenticationShouldUpdate_def labels_need_no_update)
  show "obj_key (liftUpdate asRequestAuthentication RequestAuthenticationObj RequestAuthenticationUpdateFields cur d) = obj_key cur"
    and "om_owners (obj_meta (liftUpdate asRequestAuthentication RequestAuthenticationObj RequestAuthenticationUpdateFields cur d)) =
      om_owners (obj_meta cur)"
    by (cases cur; cases d; simp add: contract_defs RequestAuthenticationUpdateFields_def)+
qed

interpretation authorizationPolicy_update:
  update_contract "liftShould asAuthorizationPolicy (AuthorizationPolicyShouldUpdate env)"
    "liftUpdate asAuthorizationPolicy AuthorizationPolicyObj AuthorizationPolicyUpdateFields" authorizationPolicy_ok for env
proof
  fix cur d :: k8s_object and owners
  show "authorizationPolicy_ok d \<Longrightarrow> obj_kind cur = obj_kind d \<Longrightarrow>
      carries (liftUpdate asAuthorizationPolicy AuthorizationPolicyObj AuthorizationPolicyUpdateFields cur d) d"
    by (cases cur; cases d) (auto simp: contract_defs authorizationPolicy_ok_def AuthorizationPolicyUpdateFields_def)
  show "authorizationPolicy_ok d \<Longrightarrow> carries (set_owners owners d) d"
    by (cases d) (auto simp: contract_defs authorizationPolicy_ok_def)
  show "authorizationPolicy_ok d \<Longrightarrow> obj_kind cur = obj_kind d \<Longrightarrow>
      \<not> liftShould asAuthorizationPolicy (AuthorizationPolicyShouldUpdate env) cur d \<Longrightarrow> carries cur d"
    by (cases cur; cases d) (auto simp: contract_defs authorizationPolicy_ok_def AuthorizationPolicyShouldUpdate_def labels_need_no_update)
  show "obj_key (liftUpdate asAuthorizationPolicy AuthorizationPolicyObj AuthorizationPolicyUpdateFields cur d) = obj_key cur"
    and "om_owners (obj_meta (liftUpdate asAuthorizationPolicy AuthorizationPolicyObj AuthorizationPolicyUpdateFields cur d)) =
      om_owners (obj_meta cur)"
    by (cases cur; cases d; simp add: contract_defs AuthorizationPolicyUpdateFields_def)+
qed

text \<open>With exact comparisons an object that carries the desired one is left as it is.\<close>

lemma carried_left_alone:
  assumes "exact_comparison (ge_run env)"
  shows "carries (SecretObj a) (SecretObj b) \<Longrightarrow> map_of (sec_data b) TokenSecretFileName \<noteq> None \<Longrightarrow>
      \<not> SecretShouldUpdate a b"
    and "carries (EnvoyFilterObj e) (EnvoyFilterObj f) \<Longrightarrow> \<not> EnvoyFilterShouldUpdate env e f"
    and "carries (RequestAuthenticationObj r) (RequestAuthenticationObj q) \<Longrightarrow>
      \<not> RequestAuthenticationShouldUpdate env r q"
    and "carries (AuthorizationPolicyObj x) (AuthorizationPolicyObj y) \<Longrightarrow>
      \<not> AuthorizationPolicyShouldUpdate env x y"
  using assms
  by (auto simp: SecretShouldUpdate_def EnvoyFilterShouldUpdate_def RequestAuthenticationShouldUpdate_def
      AuthorizationPolicyShouldUpdate_def DeepEqual_def exact_comparison_def labels_need_no_update)

section \<open>The six resources are lawful\<close>

definition selector_wf :: "'o scope \<Rightarrow> bool" where
  "selector_wf s \<longleftrightarrow> wf_map (ws_matchLabels (spec_selector (ap_spec (s_authPolicy s))))"

lemma built_key:
  "meta = buildObjectMeta n (ap_namespace (s_authPolicy s)) \<Longrightarrow> obj_meta o' = meta \<Longrightarrow>
     obj_key o' = \<lparr>k_kind = obj_kind o', k_namespace = ap_namespace (s_authPolicy s), k_name = n\<rparr>"
  by (simp add: obj_key_def buildObjectMeta_def)

lemma buildObjectMeta_labels [simp]: "om_labels (buildObjectMeta n ns) = AuthPolicyStandardLabels"
  by (simp add: buildObjectMeta_def)

lemma authorizationPolicyResource_lawful:
  assumes "selector_wf s"
    and "\<And>d. desired = Some d \<Longrightarrow> azp_meta d = buildObjectMeta name (ap_namespace (s_authPolicy s)) \<and>
      azp_selector d = ws_matchLabels (spec_selector (ap_spec (s_authPolicy s)))"
  shows "lawful s (authorizationPolicyResource env name desired)"
  unfolding lawful_def
proof (intro exI conjI allI impI)
  show "update_contract (rr_shouldUpdate (authorizationPolicyResource env name desired))
      (rr_updateFields (authorizationPolicyResource env name desired)) authorizationPolicy_ok"
    by (simp add: authorizationPolicyResource_def authorizationPolicy_update.update_contract_axioms)
  fix o' assume "rr_desired (authorizationPolicyResource env name desired) = Some o'"
  then obtain d where d: "desired = Some d" "o' = AuthorizationPolicyObj d"
    by (auto simp: authorizationPolicyResource_def)
  with assms show "authorizationPolicy_ok o'"
    by (simp add: authorizationPolicy_ok_def standard_labels_wf selector_wf_def)
  show "obj_key o' = resource_key s (authorizationPolicyResource env name desired)"
    using assms(2) [OF d(1)] d(2)
    by (simp add: resource_key_def authorizationPolicyResource_def obj_key_def buildObjectMeta_def)
qed

lemma policy_resources_lawful:
  assumes "selector_wf s"
  shows "lawful s (denyAuthorizationPolicyResource env s)" and "lawful s (ignoreAuthorizationPolicyResource env s)"
    and "lawful s (requireAuthorizationPolicyResource env s)"
proof -
  note law = authorizationPolicyResource_lawful [OF assms]
  show "lawful s (denyAuthorizationPolicyResource env s)"
    unfolding denyAuthorizationPolicyResource_def Let_def
    by (rule law) (intro conjI; erule deny_gen.meta_given deny_gen.selects)
  show "lawful s (ignoreAuthorizationPolicyResource env s)"
    unfolding ignoreAuthorizationPolicyResource_def Let_def
    by (rule law) (intro conjI; erule ignore_gen.meta_given ignore_gen.selects)
  show "lawful s (requireAuthorizationPolicyResource env s)"
    unfolding requireAuthorizationPolicyResource_def Let_def
    by (rule law) (intro conjI; erule require_gen.meta_given require_gen.selects)
qed

lemma requestAuthenticationResource_lawful:
  assumes "selector_wf s"
  shows "lawful s (requestAuthenticationResource env s)"
  unfolding lawful_def
proof (intro exI conjI allI impI)
  show "update_contract (rr_shouldUpdate (requestAuthenticationResource env s))
      (rr_updateFields (requestAuthenticationResource env s)) requestAuthentication_ok"
    by (simp add: requestAuthenticationResource_def requestAuthentication_update.update_contract_axioms)
  fix o' assume "rr_desired (requestAuthenticationResource env s) = Some o'"
  then obtain d where d: "requestauthentication_GetDesired s
      (buildObjectMeta (ap_name (s_authPolicy s)) (ap_namespace (s_authPolicy s))) = Some d"
    "o' = RequestAuthenticationObj d"
    by (auto simp: requestAuthenticationResource_def)
  note meta = requestauthentication_gen.meta_given [OF d(1)] requestauthentication_gen.selects [OF d(1)]
  show "requestAuthentication_ok o'"
    using assms meta d(2) by (simp add: requestAuthentication_ok_def standard_labels_wf selector_wf_def)
  show "obj_key o' = resource_key s (requestAuthenticationResource env s)"
    using meta d(2) by (simp add: resource_key_def requestAuthenticationResource_def obj_key_def buildObjectMeta_def)
qed

lemma secretResource_lawful:
  assumes "secretResource env s = Inr r"
  shows "lawful s r"
  unfolding lawful_def
proof (intro exI conjI allI impI)
  let ?meta = "buildObjectMeta (alc_envoySecretName (s_autoLoginConfig s)) (ap_namespace (s_authPolicy s))"
  obtain desired where des: "secret_GetDesired env s ?meta = Inr desired"
    and r: "r = \<lparr>rr_kind = ''Secret'', rr_name = alc_envoySecretName (s_autoLoginConfig s),
            rr_desired = map_option SecretObj desired,
            rr_shouldUpdate = liftShould asSecret SecretShouldUpdate,
            rr_updateFields = liftUpdate asSecret SecretObj SecretUpdateFields\<rparr>"
    using assms by (auto simp: secretResource_def res_bind_Inr_iff)
  show "update_contract (rr_shouldUpdate r) (rr_updateFields r) secret_ok"
    by (simp add: r secret_update.update_contract_axioms)
  fix o' assume "rr_desired r = Some o'"
  then obtain x where x: "desired = Some x" "o' = SecretObj x" by (auto simp: r)
  then have "no_panic (secret_GetDesired env s ?meta) = Some x" using des by simp
  note facts = secret_Some [OF this]
  show "secret_ok o'" using x facts by (simp add: secret_ok_def standard_labels_wf)
  show "obj_key o' = resource_key s r" using x facts by (simp add: r resource_key_def obj_key_def buildObjectMeta_def)
qed

lemma envoyFilterResource_lawful:
  assumes "selector_wf s" and "envoyFilterResource env s = Inr r"
  shows "lawful s r"
  unfolding lawful_def
proof (intro exI conjI allI impI)
  let ?meta = "buildObjectMeta (EnvoyFilterName (ap_name (s_authPolicy s))) (ap_namespace (s_authPolicy s))"
  obtain desired where des: "envoyfilter_GetDesired env s ?meta = Inr desired"
    and r: "r = \<lparr>rr_kind = ''EnvoyFilter'', rr_name = EnvoyFilterName (ap_name (s_authPolicy s)),
            rr_desired = map_option EnvoyFilterObj desired,
            rr_shouldUpdate = liftShould asEnvoyFilter (EnvoyFilterShouldUpdate env),
            rr_updateFields = liftUpdate asEnvoyFilter EnvoyFilterObj EnvoyFilterUpdateFields\<rparr>"
    using assms by (auto simp: envoyFilterResource_def res_bind_Inr_iff)
  show "update_contract (rr_shouldUpdate r) (rr_updateFields r) envoyFilter_ok"
    by (simp add: r envoyFilter_update.update_contract_axioms)
  fix o' assume "rr_desired r = Some o'"
  then obtain x where x: "desired = Some x" "o' = EnvoyFilterObj x" by (auto simp: r)
  then have "no_panic (envoyfilter_GetDesired env s ?meta) = Some x" using des by simp
  note facts = envoyfilter_Some [OF this]
  show "envoyFilter_ok o'"
    using x facts assms(1) by (simp add: envoyFilter_ok_def standard_labels_wf selector_wf_def)
  show "obj_key o' = resource_key s r" using x facts by (simp add: r resource_key_def obj_key_def buildObjectMeta_def)
qed

lemma resources_lawful:
  assumes "ControllerResources env s = Inr rs" and "selector_wf s"
  shows "list_all (lawful s) rs"
  using assms secretResource_lawful envoyFilterResource_lawful requestAuthenticationResource_lawful
    policy_resources_lawful
  by (auto simp: ControllerResources_def res_bind_Inr_iff)

lemma resources_exact:
  assumes "ControllerResources env s = Inr rs" and "exact_comparison (ge_run env)" and "r \<in> set rs"
    and "rr_desired r = Some d" and "carries cur d"
  shows "\<not> rr_shouldUpdate r cur d"
proof -
  note left = carried_left_alone [OF assms(2)]
  have "\<not> rr_shouldUpdate r cur d" if r: "secretResource env s = Inr r"
  proof -
    let ?meta = "buildObjectMeta (alc_envoySecretName (s_autoLoginConfig s)) (ap_namespace (s_authPolicy s))"
    obtain x where x: "secret_GetDesired env s ?meta = Inr (Some x)" "d = SecretObj x"
      and should: "rr_shouldUpdate r = liftShould asSecret SecretShouldUpdate"
      using r assms(4) by (auto simp: secretResource_def res_bind_Inr_iff)
    then have "no_panic (secret_GetDesired env s ?meta) = Some x" by simp
    with secret_Some [OF this] left(1) show ?thesis
      using assms(5) x(2) should by (cases cur) (auto simp: liftShould_def)
  qed
  moreover have "\<not> rr_shouldUpdate r cur d" if "envoyFilterResource env s = Inr r"
    using that assms(4, 5) left(2) by (cases cur) (auto simp: envoyFilterResource_def res_bind_Inr_iff liftShould_def)
  moreover have "\<not> rr_shouldUpdate r cur d" if "r = requestAuthenticationResource env s"
    using that assms(4, 5) left(3) by (cases cur) (auto simp: requestAuthenticationResource_def liftShould_def)
  moreover have "\<not> rr_shouldUpdate r cur d" if "r = authorizationPolicyResource env name desired" for name desired
    using that assms(4, 5) left(4) by (cases cur) (auto simp: authorizationPolicyResource_def liftShould_def)
  ultimately show ?thesis
    using assms(1, 3)
    by (fastforce simp: ControllerResources_def res_bind_Inr_iff denyAuthorizationPolicyResource_def
        ignoreAuthorizationPolicyResource_def requireAuthorizationPolicyResource_def Let_def)
qed

text \<open>No two of them have the same object, nor the same descendant.\<close>

lemma resources_names:
  assumes "ControllerResources env s = Inr rs"
  shows "map (\<lambda>r. (rr_kind r, rr_name r)) rs =
    [(''Secret'', alc_envoySecretName (s_autoLoginConfig s)), (''EnvoyFilter'', EnvoyFilterName (ap_name (s_authPolicy s))),
     (''RequestAuthentication'', ap_name (s_authPolicy s)),
     (''AuthorizationPolicy'', DenyPolicyName (ap_name (s_authPolicy s))),
     (''AuthorizationPolicy'', IgnorePolicyName (ap_name (s_authPolicy s))),
     (''AuthorizationPolicy'', RequirePolicyName (ap_name (s_authPolicy s)))]"
  using assms
  by (auto simp: ControllerResources_def secretResource_def envoyFilterResource_def res_bind_Inr_iff
      requestAuthenticationResource_def authorizationPolicyResource_def denyAuthorizationPolicyResource_def
      ignoreAuthorizationPolicyResource_def requireAuthorizationPolicyResource_def Let_def)

lemma GetID_inject:
  assumes "CHR ''-'' \<notin> set k" and "CHR ''-'' \<notin> set k'"
  shows "GetID k n = GetID k' n' \<longleftrightarrow> k = k' \<and> n = n'"
  using sep_inject [OF assms] by (simp add: GetID_def)

lemma resources_distinct:
  assumes "ControllerResources env s = Inr rs"
  shows "distinct (map (resource_key s) rs)" and "distinct (map resource_id rs)"
proof -
  let ?pair = "\<lambda>r. (rr_kind r, rr_name r)"
  have pairs: "distinct (map ?pair rs)"
    unfolding resources_names [OF assms] by (simp add: name_defs)
  then show "distinct (map (resource_key s) rs)"
    by (auto simp: distinct_map resource_key_def inj_on_def)
  have "CHR ''-'' \<notin> set (rr_kind r)" if "r \<in> set rs" for r
  proof -
    have "?pair r \<in> set (map ?pair rs)" using that by simp
    then show ?thesis unfolding resources_names [OF assms] by auto
  qed
  then have "inj_on resource_id (set rs)"
    using pairs by (auto simp: inj_on_def resource_id_def GetID_inject distinct_map)
  then show "distinct (map resource_id rs)" using pairs by (simp add: distinct_map)
qed

end
