(* ===== verification/Metrics.thy ===== *)
theory Metrics
  imports AuthPolicyTypes ResourceGenerators
begin

text \<open>
  \<open>pkg/metrics/metrics.go\<close>: the gauge with one series for each policy and protected pod.  The
  gauge is the list of its label tuples, every one of which has the value 1.  Reading namespaces and
  pods and parsing a URL are parameters; the ticker of the collector is left out, its one step is
  \<open>refreshOnce\<close>.
\<close>

type_synonym gauge = "string list list"

record metricsEnv =
  me_namespaceLabels :: "string \<Rightarrow> labels"
  me_listPods :: "string \<Rightarrow> labels \<Rightarrow> string + string list"

text \<open>The message of the error, which no caller reads, is reduced to its cause.\<close>

definition GetProtectedPods :: "metricsEnv \<Rightarrow> authPolicy \<Rightarrow> string + string list" where
  "GetProtectedPods me ap =
     (case me_listPods me (ap_namespace ap) (ws_matchLabels (spec_selector (ap_spec ap))) of
        Inl e \<Rightarrow> Inl e
      | Inr pods \<Rightarrow> Inr pods)"

definition phase_text :: "phase option \<Rightarrow> string" where
  "phase_text p = (case p of None \<Rightarrow> [] | Some x \<Rightarrow> phase_string x)"

definition series :: "metricsEnv \<Rightarrow> authPolicy \<Rightarrow> string \<Rightarrow> string \<Rightarrow> string \<Rightarrow> string list" where
  "series me ap scheme host pod =
     [ap_name ap, ap_namespace ap, phase_text (st_phase (ap_status ap)),
      map_index (me_namespaceLabels me (ap_namespace ap)) ''team'',
      scheme @ ''://'' @ fst (splitHostPort host),
      tostring (spec_enabled (ap_spec ap)),
      tostring (case spec_autoLogin (ap_spec ap) of None \<Rightarrow> False | Some al \<Rightarrow> al_enabled al),
      pod]"

text \<open>
  The second error branch returns the error of the parse, which is nil there: the gauge stays as
  it is and the caller sees a success.
\<close>

definition RefreshAuthPolicyInfo :: "metricsEnv \<Rightarrow> authPolicy \<Rightarrow> gauge \<Rightarrow> string option \<times> gauge" where
  "RefreshAuthPolicyInfo me ap g =
     (case GetParsedURL (spec_wellKnownURI (ap_spec ap)) of
        Inl e \<Rightarrow> (Some (''failed to get issuer hostname from issuer URI '' @ spec_wellKnownURI (ap_spec ap) @
          '' due to the following error: '' @ e), g)
      | Inr url \<Rightarrow>
          (case GetProtectedPods me ap of
             Inl _ \<Rightarrow> (None, g)
           | Inr pods \<Rightarrow>
               (None, fold (\<lambda>pod. List.insert (series me ap (u_Scheme url) (u_Host url) pod))
                  (if length pods = 0 then [[]] else pods) g)))"

definition DeleteAuthPolicyInfo :: "string \<Rightarrow> string \<Rightarrow> gauge \<Rightarrow> gauge" where
  "DeleteAuthPolicyInfo namespace name g = filter (\<lambda>ls. \<not> (ls ! 0 = name \<and> ls ! 1 = namespace)) g"

fun refreshOnce_loop :: "metricsEnv \<Rightarrow> authPolicy list \<Rightarrow> gauge \<Rightarrow> gauge" where
  "refreshOnce_loop me [] g = g"
| "refreshOnce_loop me (ap # aps) g = refreshOnce_loop me aps (snd (RefreshAuthPolicyInfo me ap g))"

definition refreshOnce :: "metricsEnv \<Rightarrow> authPolicy list \<Rightarrow> gauge \<Rightarrow> gauge" where
  "refreshOnce me policies g = refreshOnce_loop me policies []"

section \<open>Facts\<close>

definition series_of :: "string \<Rightarrow> string \<Rightarrow> string list \<Rightarrow> bool" where
  "series_of namespace name ls \<longleftrightarrow> ls ! 0 = name \<and> ls ! 1 = namespace"

lemma series_owner [simp]: "series_of ns n (series me ap scheme host pod) \<longleftrightarrow> ap_namespace ap = ns \<and> ap_name ap = n"
  by (auto simp: series_of_def series_def)

lemma set_fold_insert: "set (fold (\<lambda>x. List.insert (f x)) xs g) = f ` set xs \<union> set g"
  by (induction xs arbitrary: g) auto

lemma delete_removes: "ls \<in> set (DeleteAuthPolicyInfo ns n g) \<longleftrightarrow> ls \<in> set g \<and> \<not> series_of ns n ls"
  by (auto simp: DeleteAuthPolicyInfo_def series_of_def)

lemma refresh_only_own:
  "ls \<in> set (snd (RefreshAuthPolicyInfo me ap g)) \<Longrightarrow> ls \<notin> set g \<Longrightarrow> series_of (ap_namespace ap) (ap_name ap) ls"
  by (auto simp: RefreshAuthPolicyInfo_def set_fold_insert split: sum.splits)

text \<open>The series that the refreshing of a policy adds.\<close>

definition policy_series :: "metricsEnv \<Rightarrow> authPolicy \<Rightarrow> string list set" where
  "policy_series me ap = set (snd (RefreshAuthPolicyInfo me ap []))"

lemma refresh_adds: "set (snd (RefreshAuthPolicyInfo me ap g)) = policy_series me ap \<union> set g"
  by (auto simp: policy_series_def RefreshAuthPolicyInfo_def set_fold_insert split: sum.splits)

lemma refreshOnce_exact: "set (refreshOnce me aps g) = (\<Union>ap \<in> set aps. policy_series me ap)"
proof -
  have "set (refreshOnce_loop me aps g) = (\<Union>ap \<in> set aps. policy_series me ap) \<union> set g" for g
    by (induction aps arbitrary: g) (auto simp: refresh_adds)
  then show ?thesis by (simp add: refreshOnce_def)
qed

lemma policy_series_own: "ls \<in> policy_series me ap \<Longrightarrow> series_of (ap_namespace ap) (ap_name ap) ls"
  using refresh_only_own [of ls me ap "[]"] by (simp add: policy_series_def)

definition policy_name :: "authPolicy \<Rightarrow> string \<times> string" where
  "policy_name ap = (ap_namespace ap, ap_name ap)"

text \<open>Deleting and refreshing the series of a policy, as a status update does, leaves exactly
  one series for each of its protected pods, one with an empty pod name when there is none, all
  with the current phase, and does not touch the series of other policies.\<close>

lemma metrics_refreshed:
  assumes "url_Parse (spec_wellKnownURI (ap_spec ap)) = Inr url"
    and "me_listPods me (ap_namespace ap) (ws_matchLabels (spec_selector (ap_spec ap))) = Inr pods"
    and "RefreshAuthPolicyInfo me ap (DeleteAuthPolicyInfo (ap_namespace ap) (ap_name ap) g) = (e, g')"
  shows "e = None \<and> set g' = {ls \<in> set g. \<not> series_of (ap_namespace ap) (ap_name ap) ls} \<union>
    series me ap (u_Scheme url) (u_Host url) ` set (if pods = [] then [[]] else pods)"
  using assms
  by (auto simp: RefreshAuthPolicyInfo_def GetProtectedPods_def set_fold_insert delete_removes
      split: if_splits)

text \<open>When the pods of a policy cannot be listed, refreshing its series reports no error.\<close>

lemma refresh_hides_pod_error:
  assumes "url_Parse (spec_wellKnownURI (ap_spec ap)) = Inr url"
    and "me_listPods me (ap_namespace ap) (ws_matchLabels (spec_selector (ap_spec ap))) = Inl err"
  shows "RefreshAuthPolicyInfo me ap g = (None, g)"
  using assms by (simp add: RefreshAuthPolicyInfo_def GetProtectedPods_def)

section \<open>Properties\<close>

text \<open>C33: the gauge that status updates keep is the one the periodic collector builds from scratch:
  after a policy has changed, deleting its series and refreshing them gives the series of all policies
  as they are now, whatever errors there are in between and whatever the gauge held before the
  collector's last run.\<close>

theorem incremental_metrics_exact:
  assumes "distinct (map policy_name (aps @ ap # aps'))" and "policy_name ap' = policy_name ap"
    and "set g = set (refreshOnce me (aps @ ap # aps') g0)"
  shows "set (snd (RefreshAuthPolicyInfo me ap' (DeleteAuthPolicyInfo (ap_namespace ap') (ap_name ap') g))) =
    set (refreshOnce me (aps @ ap' # aps') g1)"
proof -
  have "\<not> series_of (ap_namespace ap') (ap_name ap') ls" if "ls \<in> policy_series me b" "b \<in> set aps \<union> set aps'" for ls b
  proof -
    have "policy_name b \<noteq> policy_name ap" using assms(1) that(2) by (force simp: image_iff)
    then show ?thesis
      using policy_series_own [OF that(1)] assms(2) by (auto simp: series_of_def policy_name_def)
  qed
  moreover have "series_of (ap_namespace ap') (ap_name ap') ls" if "ls \<in> policy_series me ap" for ls
    using policy_series_own [OF that] assms(2) by (auto simp: policy_name_def)
  ultimately show ?thesis
    unfolding refresh_adds refreshOnce_exact
    by (auto simp: set_eq_iff delete_removes assms(3) refreshOnce_exact)
qed

theorem incremental_metrics_exact_witness:
  "\<exists>me. (let ready = example_policy\<lparr>ap_status := (ap_status example_policy)\<lparr>st_phase := Some PhaseReady\<rparr>\<rparr>;
             g = refreshOnce me [example_policy] []
         in g \<noteq> [] \<and> set (snd (RefreshAuthPolicyInfo me ready (DeleteAuthPolicyInfo ''ns'' ''demo'' g))) = set (refreshOnce me [ready] []))"
proof -
  let ?me = "\<lparr>me_namespaceLabels = (\<lambda>n. []), me_listPods = (\<lambda>n ls. Inr [''p1''])\<rparr>"
  let ?ready = "example_policy\<lparr>ap_status := (ap_status example_policy)\<lparr>st_phase := Some PhaseReady\<rparr>\<rparr>"
  let ?g = "refreshOnce ?me ([] @ example_policy # []) []"
  have "policy_name ?ready = policy_name example_policy" by (simp add: policy_name_def)
  from incremental_metrics_exact [of "[]" example_policy "[]", OF _ this refl, of ?me "[]" "[]"]
  have "set (snd (RefreshAuthPolicyInfo ?me ?ready (DeleteAuthPolicyInfo ''ns'' ''demo'' ?g))) = set (refreshOnce ?me [?ready] [])"
    by (simp add: example_policy_def)
  moreover have "url_Parse (spec_wellKnownURI (ap_spec example_policy)) =
      Inr \<lparr>u_Scheme = ''https'', u_Host = ''idp'', u_Path = ''/.well-known''\<rparr>"
    by code_simp
  then have "?g \<noteq> []"
    by (simp add: refreshOnce_def RefreshAuthPolicyInfo_def GetProtectedPods_def)
  ultimately show ?thesis by (intro exI [of _ ?me]) (simp add: Let_def)
qed

end
