(* ===== verification/StatusManager.thy ===== *)
theory StatusManager
  imports ControllerResources Metrics
begin

text \<open>
  \<open>internal/statusmanager\<close>: the state of a reconciliation is read off the scope's descendants, and
  becomes the phase, readiness, message and conditions of the policy's status, which is written when
  it differs from the one the reconciliation started with.  A nil dereference of the validation
  message is \<open>None\<close>.  The clock is read once; events and log lines are left out.
\<close>

section \<open>States\<close>

datatype reconciliationState = StateInvalid | StatePending | StateFailed | StateReady

definition DetermineReconciliationState :: "'o scope \<Rightarrow> resourceReconciler list \<Rightarrow> reconciliationState" where
  "DetermineReconciliationState s resources =
     (if s_invalidConfig s then StateInvalid
      else if length (s_descendants s) \<noteq> CountNonNilResources resources then StatePending
      else if length (GetErrors s) > 0 then StateFailed
      else StateReady)"

fun determinePhase :: "reconciliationState \<Rightarrow> phase" where
  "determinePhase StateInvalid = PhaseInvalid"
| "determinePhase StatePending = PhasePending"
| "determinePhase StateFailed = PhaseFailed"
| "determinePhase StateReady = PhaseReady"

fun determineReadiness :: "reconciliationState \<Rightarrow> bool" where
  "determineReadiness StateInvalid = False"
| "determineReadiness StatePending = False"
| "determineReadiness StateFailed = False"
| "determineReadiness StateReady = True"

fun statusMessage :: "reconciliationState \<Rightarrow> string option \<Rightarrow> string option" where
  "statusMessage StateInvalid validationErrorMessage = validationErrorMessage"
| "statusMessage StatePending _ = Some ''AuthPolicy pending due to missing Descendants.''"
| "statusMessage StateFailed _ = Some ''AuthPolicy failed.''"
| "statusMessage StateReady _ = Some ''AuthPolicy ready.''"

section \<open>Conditions (condition_builder.go)\<close>

definition isLogicallyEqualCondition :: "statusCondition \<Rightarrow> statusCondition \<Rightarrow> bool" where
  "isLogicallyEqualCondition existing cond \<longleftrightarrow>
     sc_type existing = sc_type cond \<and> sc_status existing = sc_status cond \<and>
     sc_reason existing = sc_reason cond \<and> sc_message existing = sc_message cond"

text \<open>The loop that ends each builder: the time of the first equal condition is kept.\<close>

fun preserveTransitionTime :: "statusCondition list \<Rightarrow> statusCondition \<Rightarrow> statusCondition" where
  "preserveTransitionTime [] cond = cond"
| "preserveTransitionTime (existing # rest) cond =
     (if isLogicallyEqualCondition existing cond
      then cond\<lparr>sc_lastTransitionTime := sc_lastTransitionTime existing\<rparr>
      else preserveTransitionTime rest cond)"

definition mkCondition :: "string \<Rightarrow> conditionStatus \<Rightarrow> string \<Rightarrow> string \<Rightarrow> nat \<Rightarrow> statusCondition" where
  "mkCondition type stat reason message now =
     \<lparr>sc_type = type, sc_status = stat, sc_reason = reason, sc_message = message, sc_lastTransitionTime = now\<rparr>"

definition BuildAuthPolicyCondition ::
  "nat \<Rightarrow> authPolicy \<Rightarrow> reconciliationState \<Rightarrow> string option \<Rightarrow> statusCondition list \<Rightarrow> statusCondition option" where
  "BuildAuthPolicyCondition now ap st validationErrorMessage existing =
     (let type = GetID (TrimPrefix (ap_kind ap) ''*'') (ap_name ap)
      in map_option (preserveTransitionTime existing)
        (case st of
           StateInvalid \<Rightarrow> map_option (\<lambda>m. mkCondition type ConditionFalse ''InvalidConfiguration'' m now) validationErrorMessage
         | StatePending \<Rightarrow> Some (mkCondition type ConditionUnknown ''ReconciliationPending''
             ''Descendants of AuthPolicy are not yet reconciled.'' now)
         | StateFailed \<Rightarrow> Some (mkCondition type ConditionFalse ''ReconciliationFailed''
             ''Descendants of AuthPolicy failed during reconciliation.'' now)
         | StateReady \<Rightarrow> Some (mkCondition type ConditionTrue ''ReconciliationSuccess''
             ''Descendants of AuthPolicy reconciled successfully.'' now)))"

definition descendantCondition :: "nat \<Rightarrow> 'o descendant \<Rightarrow> statusCondition" where
  "descendantCondition now d =
     (case d_errorMessage d of
        Some m \<Rightarrow> mkCondition (d_id d) ConditionFalse ''Error'' m now
      | None \<Rightarrow>
          (case d_successMessage d of
             Some m \<Rightarrow> mkCondition (d_id d) ConditionTrue ''Success'' m now
           | None \<Rightarrow> mkCondition (d_id d) ConditionUnknown ''Unknown'' ''No status message set'' now))"

definition BuildDescendantConditions :: "nat \<Rightarrow> 'o descendant list \<Rightarrow> statusCondition list \<Rightarrow> statusCondition list" where
  "BuildDescendantConditions now descendants existing =
     map (\<lambda>d. preserveTransitionTime existing (descendantCondition now d)) descendants"

definition missingCondition :: "nat \<Rightarrow> resourceReconciler \<Rightarrow> statusCondition" where
  "missingCondition now rf =
     mkCondition (resource_id rf) ConditionFalse ''NotFound''
       (''Expected resource '' @ rr_name rf @ '' of kind '' @ rr_kind rf @ '' was not created'') now"

definition BuildMissingResourceConditions ::
  "nat \<Rightarrow> 'o descendant list \<Rightarrow> resourceReconciler list \<Rightarrow> statusCondition list \<Rightarrow> statusCondition list" where
  "BuildMissingResourceConditions now descendants resources existing =
     map (\<lambda>rf. preserveTransitionTime existing (missingCondition now rf))
       (filter (\<lambda>rf. \<not> IsResourceNil rf \<and> resource_id rf \<notin> set (map d_id descendants)) resources)"

definition BuildConditions ::
  "nat \<Rightarrow> authPolicy \<Rightarrow> reconciliationState \<Rightarrow> string option \<Rightarrow> 'o descendant list \<Rightarrow> resourceReconciler list \<Rightarrow>
   statusCondition list \<Rightarrow> statusCondition list option" where
  "BuildConditions now ap st validationErrorMessage descendants resources existing =
     map_option (\<lambda>c. [c] @ BuildDescendantConditions now descendants existing @
         BuildMissingResourceConditions now descendants resources existing)
       (BuildAuthPolicyCondition now ap st validationErrorMessage existing)"

section \<open>Writing the status\<close>

text \<open>
  The client calls on policies: reading one, updating its status subresource, and the conflict
  retry of \<open>client-go\<close> around an attempt.
\<close>

datatype policy_result = PolicyFound authPolicy | PolicyNotFound | PolicyError string

record 'w policyApi =
  pa_get :: "'w \<Rightarrow> string \<Rightarrow> string \<Rightarrow> policy_result"
  pa_updateStatus :: "'w \<Rightarrow> authPolicy \<Rightarrow> string option \<times> 'w"
  pa_retryOnConflict :: "('w \<Rightarrow> string option \<times> 'w) \<Rightarrow> 'w \<Rightarrow> string option \<times> 'w"

definition statusAttempt :: "'w policyApi \<Rightarrow> authPolicy \<Rightarrow> 'w \<Rightarrow> string option \<times> 'w" where
  "statusAttempt pa ap w =
     (case pa_get pa w (ap_namespace ap) (ap_name ap) of
        PolicyError e \<Rightarrow> (Some e, w)
      | PolicyNotFound \<Rightarrow> (Some ''not found'', w)
      | PolicyFound latest \<Rightarrow> pa_updateStatus pa w (latest\<lparr>ap_status := ap_status ap\<rparr>))"

definition UpdateStatus ::
  "metricsEnv \<Rightarrow> 'w policyApi \<Rightarrow> authPolicy \<Rightarrow> gauge \<Rightarrow> 'w \<Rightarrow> string option \<times> gauge \<times> 'w" where
  "UpdateStatus me pa ap g w =
     (case RefreshAuthPolicyInfo me ap (DeleteAuthPolicyInfo (ap_namespace ap) (ap_name ap) g) of
        (Some e, g') \<Rightarrow> (Some e, g', w)
      | (None, g') \<Rightarrow> (let (e, w') = pa_retryOnConflict pa (statusAttempt pa ap) w in (e, g', w')))"

text \<open>The status a reconciliation ends with, and the update, which is made only when it differs.\<close>

definition newStatus ::
  "nat \<Rightarrow> 'o scope \<Rightarrow> authPolicy \<Rightarrow> resourceReconciler list \<Rightarrow> authPolicyStatus option" where
  "newStatus now s original resources =
     (let st = DetermineReconciliationState s resources; ap = s_authPolicy s
      in Option.bind (statusMessage st (s_validationErrorMessage s)) (\<lambda>message.
         Option.bind (BuildConditions now ap st (s_validationErrorMessage s) (s_descendants s) resources
             (st_conditions (ap_status original))) (\<lambda>conditions.
           Some ((ap_status ap)
             \<lparr>st_observedGeneration := ap_generation ap, st_phase := Some (determinePhase st),
              st_ready := determineReadiness st, st_message := message, st_conditions := conditions\<rparr>))))"

definition UpdateAuthPolicyStatus ::
  "metricsEnv \<Rightarrow> 'w policyApi \<Rightarrow> nat \<Rightarrow> 'o scope \<Rightarrow> authPolicy \<Rightarrow> resourceReconciler list \<Rightarrow> gauge \<Rightarrow> 'w \<Rightarrow>
   (gauge \<times> 'w) option" where
  "UpdateAuthPolicyStatus me pa now s original resources g w =
     map_option (\<lambda>status.
         if ap_status original \<noteq> status
         then (let (e, g', w') = UpdateStatus me pa ((s_authPolicy s)\<lparr>ap_status := status\<rparr>) g w in (g', w'))
         else (g, w))
       (newStatus now s original resources)"

section \<open>Facts\<close>

lemma ready_iff: "determineReadiness st \<longleftrightarrow> determinePhase st = PhaseReady"
  by (cases st) auto

lemma preserve_equal:
  "isLogicallyEqualCondition (preserveTransitionTime existing c) c"
  by (induction existing) (auto simp: isLogicallyEqualCondition_def)

lemma preserve_time:
  "sc_lastTransitionTime (preserveTransitionTime existing c) =
     (case find (\<lambda>x. isLogicallyEqualCondition x c) existing of
        None \<Rightarrow> sc_lastTransitionTime c | Some x \<Rightarrow> sc_lastTransitionTime x)"
  by (induction existing) auto

lemma preserve_type [simp]: "sc_type (preserveTransitionTime existing c) = sc_type c"
  using preserve_equal [of existing c] by (simp add: isLogicallyEqualCondition_def)

end
