(* ===== verification/Controller.thy ===== *)
theory Controller
  imports StatusManager Resolvers AccessControl
begin

text \<open>
  \<open>internal/controller/authpolicy_controller.go\<close>: one reconciliation of a policy.  It reads the
  policy, adds the standard labels, resolves and validates it, brings its resources to their desired
  states and writes its status.  Events and log lines are left out.
\<close>

section \<open>Results\<close>

record ctrlResult =
  res_requeue :: bool
  res_requeueAfter :: int

definition emptyResult :: ctrlResult where
  "emptyResult = \<lparr>res_requeue = False, res_requeueAfter = 0\<rparr>"

definition IsZero :: "ctrlResult \<Rightarrow> bool" where
  "IsZero r \<longleftrightarrow> r = emptyResult"

definition LowestNonZeroResult :: "ctrlResult \<Rightarrow> ctrlResult \<Rightarrow> ctrlResult" where
  "LowestNonZeroResult i j =
     (if IsZero i \<and> IsZero j then emptyResult
      else if IsZero i then j
      else if IsZero j then i
      else if res_requeueAfter i \<noteq> 0 \<and> res_requeueAfter j \<noteq> 0 then
        (if res_requeueAfter i < res_requeueAfter j then i else j)
      else if res_requeueAfter i \<noteq> 0 then i
      else if res_requeueAfter j \<noteq> 0 then j
      else emptyResult)"

section \<open>Reconciling the resources\<close>

text \<open>
  The loop over the resources: it goes on after an error, and every resource returns the empty
  result, so that the merged result is empty too.
\<close>

fun doReconcile_loop ::
  "'w client \<Rightarrow> resourceReconciler list \<Rightarrow> objkey scope \<Rightarrow> 'w \<Rightarrow> string list \<Rightarrow> ctrlResult \<Rightarrow>
   string list \<times> ctrlResult \<times> objkey scope \<times> 'w" where
  "doReconcile_loop c [] s w errs result = (errs, result, s, w)"
| "doReconcile_loop c (rf # rfs) s w errs result =
     (let (e, s', w') = ReconcileControllerResource c rf s w;
          errs' = (case e of None \<Rightarrow> errs | Some x \<Rightarrow> errs @ [x]);
          result' = (if length errs' > 0 then result else LowestNonZeroResult result emptyResult)
      in doReconcile_loop c rfs s' w' errs' result')"

text \<open>\<open>Inl\<close> carries the aggregated errors.\<close>

definition doReconcile ::
  "'w client \<Rightarrow> resourceReconciler list \<Rightarrow> objkey scope \<Rightarrow> 'w \<Rightarrow> (string list + ctrlResult) \<times> objkey scope \<times> 'w" where
  "doReconcile c rfs s w =
     (let (errs, result, s', w') = doReconcile_loop c rfs s w [] emptyResult
      in (if length errs > 0 then Inl errs else Inr result, s', w'))"

section \<open>Resolving and validating\<close>

record 'w controllerEnv =
  ce_gen :: generatorEnv
  ce_visit :: "labels \<Rightarrow> labels"
  ce_getDocument :: "string \<Rightarrow> string + discoveryDocument"
  ce_reader :: "'w \<Rightarrow> clusterReader"
  ce_client :: "'w client"
  ce_policies :: "'w policyApi"
  ce_patchPolicy :: "'w \<Rightarrow> authPolicy \<Rightarrow> authPolicy \<Rightarrow> (string + authPolicy) \<times> 'w"
  ce_metrics :: metricsEnv
  ce_now :: nat

text \<open>\<open>None\<close> is a panic.\<close>

definition resolveAuthPolicy ::
  "'w controllerEnv \<Rightarrow> 'w \<Rightarrow> authPolicy \<Rightarrow> (string + objkey scope) option" where
  "resolveAuthPolicy env w ap =
     (case ResolveOAuthCredentials (ce_reader env w) ap of
        Inl e \<Rightarrow> Some (Inl e)
      | Inr credentials \<Rightarrow>
          (case ResolveDiscoveryDocument (ce_visit env) (ce_getDocument env) ap of
             Inl e \<Rightarrow> Some (Inl e)
           | Inr uris \<Rightarrow>
               Option.bind (ResolveAutoLoginConfig ap uris) (\<lambda>cfg.
                 case ResolveAudiences (ce_reader env w) (ap_namespace ap) (spec_allowedAudiences (ap_spec ap)) of
                   Inl e \<Rightarrow> Some (Inl (''failed to resolve audiences: '' @ e))
                 | Inr audiences \<Rightarrow> Some (Inr
                     \<lparr>s_authPolicy = ap, s_audiences = audiences, s_autoLoginConfig = cfg,
                      s_oauthCredentials = credentials, s_identityProviderUris = uris, s_descendants = [],
                      s_invalidConfig = False, s_validationErrorMessage = None\<rparr>))))"

definition validateAuthPolicy :: "'o scope \<Rightarrow> 'o scope" where
  "validateAuthPolicy s =
     (case ValidatePaths (GetPaths (s_authPolicy s)) of
        Inl err \<Rightarrow> s\<lparr>s_invalidConfig := True, s_validationErrorMessage := Some (path_error_text err)\<rparr>
      | Inr _ \<Rightarrow> s\<lparr>s_invalidConfig := False\<rparr>)"

section \<open>A reconciliation\<close>

datatype outcome = Reconciled ctrlResult | Failed "string list" | Panicked

definition finishReconcile ::
  "'w controllerEnv \<Rightarrow> authPolicy \<Rightarrow> objkey scope \<Rightarrow> gauge \<Rightarrow> 'w \<Rightarrow> outcome \<times> gauge \<times> 'w" where
  "finishReconcile env original s g w =
     (case ControllerResources (ce_gen env) s of
        Inl _ \<Rightarrow> (Panicked, g, w)
      | Inr resources \<Rightarrow>
          (let (r, s', w') = doReconcile (ce_client env) resources s w
           in case UpdateAuthPolicyStatus (ce_metrics env) (ce_policies env) (ce_now env) s' original resources g w' of
                None \<Rightarrow> (Panicked, g, w')
              | Some (g', w'') \<Rightarrow>
                  (case r of Inl errs \<Rightarrow> Failed errs | Inr result \<Rightarrow> Reconciled result, g', w'')))"

definition afterLabels ::
  "'w controllerEnv \<Rightarrow> authPolicy \<Rightarrow> authPolicy \<Rightarrow> gauge \<Rightarrow> 'w \<Rightarrow> outcome \<times> gauge \<times> 'w" where
  "afterLabels env ap original g w =
     (case resolveAuthPolicy env w ap of
        None \<Rightarrow> (Panicked, g, w)
      | Some (Inl e) \<Rightarrow>
          (let failed = ap\<lparr>ap_status := (ap_status ap)\<lparr>st_phase := Some PhaseFailed, st_message := e\<rparr>\<rparr>;
               (err, g', w') = UpdateStatus (ce_metrics env) (ce_policies env) failed g w
           in case err of Some x \<Rightarrow> (Failed [x], g', w') | None \<Rightarrow> (Failed [e], g', w'))
      | Some (Inr s) \<Rightarrow> finishReconcile env original (validateAuthPolicy s) g w)"

definition Reconcile ::
  "'w controllerEnv \<Rightarrow> string \<Rightarrow> string \<Rightarrow> gauge \<Rightarrow> 'w \<Rightarrow> outcome \<times> gauge \<times> 'w" where
  "Reconcile env namespace name g w =
     (case pa_get (ce_policies env) w namespace name of
        PolicyNotFound \<Rightarrow> (Reconciled emptyResult, DeleteAuthPolicyInfo namespace name g, w)
      | PolicyError e \<Rightarrow> (Failed [e], g, w)
      | PolicyFound stored \<Rightarrow>
          (let ap = InitializeStatus stored in
           if ap_deletionTimestamp ap \<noteq> None
           then (Reconciled emptyResult, DeleteAuthPolicyInfo namespace name g, w)
           else
             let original = ap\<lparr>ap_labels := maps_Copy (ap_labels ap) AuthPolicyStandardLabels\<rparr>
             in if \<not> maps_Equal (ap_labels original) (ap_labels ap)
                then (case ce_patchPolicy env w ap original of
                        (Inl e, w') \<Rightarrow> (Failed [e], g, w')
                      | (Inr patched, w') \<Rightarrow> afterLabels env ap patched g w')
                else afterLabels env ap original g w))"

section \<open>The loop over the resources\<close>

text \<open>The errors of the resources, in their order.\<close>

fun reconcile_errors :: "'w client \<Rightarrow> resourceReconciler list \<Rightarrow> objkey scope \<Rightarrow> 'w \<Rightarrow> string option list" where
  "reconcile_errors c [] s w = []"
| "reconcile_errors c (rf # rfs) s w =
     (let (e, s', w') = ReconcileControllerResource c rf s w in e # reconcile_errors c rfs s' w')"

lemma reconcile_errors_length [simp]: "length (reconcile_errors c rfs s w) = length rfs"
  by (induction rfs arbitrary: s w) (auto split: prod.splits)

lemma LowestNonZeroResult_empty [simp]: "LowestNonZeroResult emptyResult emptyResult = emptyResult"
  by (simp add: LowestNonZeroResult_def IsZero_def)

lemma loop_errors:
  "doReconcile_loop c rfs s w errs emptyResult = (errs', result, s', w') \<Longrightarrow>
     errs' = errs @ List.map_filter (\<lambda>x. x) (reconcile_errors c rfs s w) \<and> result = emptyResult"
  by (induction rfs arbitrary: s w errs)
     (fastforce simp: List.map_filter_simps Let_def split: prod.splits option.splits if_splits)+

lemma map_filter_empty_iff: "List.map_filter (\<lambda>x. x) xs = [] \<longleftrightarrow> list_all (\<lambda>x. x = None) xs"
  by (induction xs) (auto simp: List.map_filter_simps split: option.splits)

text \<open>Induction along a run of the loop: each resource is a step, and the rest of the loop follows.\<close>

lemma loop_induct [consumes 1, case_names Nil Cons]:
  assumes "doReconcile_loop c rfs s w errs result = (errs', result', s', w')"
    and "P [] s' w'"
    and "\<And>r rfs s w e s1 w1 errs1 result1. ReconcileControllerResource c r s w = (e, s1, w1) \<Longrightarrow>
      doReconcile_loop c rfs s1 w1 errs1 result1 = (errs', result', s', w') \<Longrightarrow> P rfs s1 w1 \<Longrightarrow> P (r # rfs) s w"
  shows "P rfs s w"
  using assms(1)
proof (induction rfs arbitrary: s w errs result)
  case Nil
  then show ?case using assms(2) by simp
next
  case (Cons r rfs)
  obtain e s1 w1 where step: "ReconcileControllerResource c r s w = (e, s1, w1)" by (metis prod_cases3)
  obtain errs1 result1 where rest: "doReconcile_loop c rfs s1 w1 errs1 result1 = (errs', result', s', w')"
    using Cons.prems step by (auto simp: Let_def)
  show ?case by (rule assms(3) [OF step rest Cons.IH [OF rest]])
qed

text \<open>The descendant a resource leaves: none when it is absent and fine.\<close>

definition leaves :: "resourceReconciler \<times> string option \<Rightarrow> bool" where
  "leaves = (\<lambda>(r, e). rr_desired r \<noteq> None \<or> e \<noteq> None)"

definition descendant_of :: "'o descendant \<Rightarrow> resourceReconciler \<times> string option \<Rightarrow> bool" where
  "descendant_of d = (\<lambda>(r, e). d_id d = resource_id r \<and> (d_errorMessage d \<noteq> None \<longleftrightarrow> e \<noteq> None))"

lemma outcome_descendants:
  assumes "ReconcileControllerResource c r s w = (e, s', w')" and "resource_id r \<notin> set (descendant_ids s)"
  shows "\<exists>ds. s_descendants s' = s_descendants s @ ds \<and>
    list_all2 descendant_of ds (filter leaves [(r, e)])"
  using assms(1)
proof (cases rule: outcome_logged)
  case absent
  then show ?thesis by (simp add: leaves_def)
next
  case (success obj m)
  then show ?thesis
    using assms(2) ReplaceDescendant_new [of "rr_kind r" "rr_name r" s]
    by (auto simp: leaves_def descendant_of_def resource_id_def)
next
  case (error obj x m)
  then show ?thesis
    using assms(2) ReplaceDescendant_new [of "rr_kind r" "rr_name r" s]
    by (auto simp: leaves_def descendant_of_def resource_id_def)
qed

lemma outcome_ids:
  assumes "ReconcileControllerResource c r s w = (e, s', w')"
  shows "set (descendant_ids s') \<subseteq> insert (resource_id r) (set (descendant_ids s))"
  using assms by (cases rule: outcome_logged) (auto simp: ReplaceDescendant_ids resource_id_def)

lemma loop_descendants:
  assumes "doReconcile_loop c rfs s w errs result = (errs', result', s', w')"
    and "distinct (map resource_id rfs)" and "set (map resource_id rfs) \<inter> set (descendant_ids s) = {}"
  shows "\<exists>ds. s_descendants s' = s_descendants s @ ds \<and>
    list_all2 descendant_of ds (filter leaves (zip rfs (reconcile_errors c rfs s w)))"
  using assms
proof (induction rule: loop_induct)
  case (Cons r rfs s w e s1 w1)
  from outcome_descendants [OF Cons.hyps(1)] Cons.prems(2) obtain d1 where
    d1: "s_descendants s1 = s_descendants s @ d1" "list_all2 descendant_of d1 (filter leaves [(r, e)])" by auto
  have "resource_id r \<notin> set (map resource_id rfs)" "set (map resource_id rfs) \<inter> set (descendant_ids s) = {}"
    using Cons.prems by auto
  with outcome_ids [OF Cons.hyps(1)] have "set (map resource_id rfs) \<inter> set (descendant_ids s1) = {}" by blast
  with Cons.IH Cons.prems(1) obtain d2 where
    d2: "s_descendants s' = s_descendants s1 @ d2"
      "list_all2 descendant_of d2 (filter leaves (zip rfs (reconcile_errors c rfs s1 w1)))" by auto
  have "filter leaves (zip (r # rfs) (reconcile_errors c (r # rfs) s w)) =
      filter leaves [(r, e)] @ filter leaves (zip rfs (reconcile_errors c rfs s1 w1))"
    by (simp add: Cons.hyps(1))
  then show ?case using d1 d2 list_all2_appendI [OF d1(2) d2(2)] by auto
qed simp

text \<open>What every resource keeps is kept by the loop.\<close>

lemma loop_invariant:
  assumes "doReconcile_loop c rfs s w errs result = (errs', result', s', w')"
    and "\<And>r s1 w1 e s2 w2. r \<in> set rfs \<Longrightarrow> s_authPolicy s1 = s_authPolicy s \<Longrightarrow> P w1 \<Longrightarrow>
      ReconcileControllerResource c r s1 w1 = (e, s2, w2) \<Longrightarrow> P w2"
    and "P w"
  shows "P w' \<and> s_authPolicy s' = s_authPolicy s"
  using assms
proof (induction rule: loop_induct)
  case (Cons r rfs s w e s1 w1)
  note ap = outcome_policy [OF Cons.hyps(1)]
  have "P w' \<and> s_authPolicy s' = s_authPolicy s1"
  proof (rule Cons.IH)
    fix x sa w2 e' sb w3
    assume x: "x \<in> set rfs" "s_authPolicy sa = s_authPolicy s1" and "P w2"
      "ReconcileControllerResource c x sa w2 = (e', sb, w3)"
    from Cons.prems(1) [OF _ _ this(3, 4)] show "P w3" using x ap by simp
  next
    show "P w1" by (rule Cons.prems(1) [OF _ _ Cons.prems(2) Cons.hyps(1)]) simp_all
  qed
  then show ?case using ap by simp
qed simp

context k8s_api
begin

lemma loop_unowned:
  assumes "list_all (lawful s) rfs" and "doReconcile_loop c rfs s w errs result = (errs', result', s', w')"
    and "objects w k = Some o'" and "\<not> c_isControlledBy c o' (s_authPolicy s)"
  shows "objects w' k = Some o'"
proof -
  have "objects w' k = Some o' \<and> s_authPolicy s' = s_authPolicy s"
  proof (rule loop_invariant [where P = "\<lambda>w. objects w k = Some o'", OF assms(2)])
    fix r s1 w1 e s2 w2
    assume r: "r \<in> set rfs" "s_authPolicy s1 = s_authPolicy s" and st: "objects w1 k = Some o'"
      "ReconcileControllerResource c r s1 w1 = (e, s2, w2)"
    have "lawful s1 r" using r(1) assms(1) lawful_cong [OF r(2)] by (simp add: list_all_iff)
    from run_unowned [OF this st(2, 1)] show "objects w2 k = Some o'" using assms(4) r(2) by simp
  qed (rule assms(3))
  then show ?thesis by simp
qed

lemma loop_frame:
  assumes "list_all (lawful s) rfs" and "doReconcile_loop c rfs s w errs result = (errs', result', s', w')"
    and "k \<notin> set (map (resource_key s) rfs)"
  shows "objects w' k = objects w k"
proof -
  have "objects w' k = objects w k \<and> s_authPolicy s' = s_authPolicy s"
  proof (rule loop_invariant [where P = "\<lambda>w'. objects w' k = objects w k", OF assms(2)])
    fix r s1 w1 e s2 w2
    assume r: "r \<in> set rfs" "s_authPolicy s1 = s_authPolicy s" and st: "objects w1 k = objects w k"
      "ReconcileControllerResource c r s1 w1 = (e, s2, w2)"
    have "lawful s1 r" using r(1) assms(1) lawful_cong [OF r(2)] by (simp add: list_all_iff)
    moreover have "k \<noteq> resource_key s1 r" using r(1) assms(3) resource_key_cong [OF r(2)] by auto
    ultimately show "objects w2 k = objects w k" using run_frame [OF _ st(2)] st(1) by simp
  qed simp
  then show ?thesis by simp
qed

lemma settled_cong:
  "s_authPolicy s' = s_authPolicy s \<Longrightarrow> settled_in ctl objs s' r = settled_in ctl objs s r"
  by (simp add: settled_in_def resource_key_def split: option.splits)

lemma loop_settles:
  assumes "doReconcile_loop c rfs s w errs result = (errs', result', s', w')"
    and "list_all (lawful s) rfs" and "distinct (map (resource_key s) rfs)"
    and "list_all (\<lambda>e. e = None) (reconcile_errors c rfs s w)"
  shows "list_all (settled_in (c_isControlledBy c) (objects w') s) rfs"
  using assms
proof (induction rule: loop_induct)
  case (Cons r rfs s w e s1 w1)
  note ap = outcome_policy [OF Cons.hyps(1)]
  have ls: "list_all (lawful s1) rfs" using Cons.prems(1) lawful_cong [OF ap] by (simp add: list_all_iff)
  have keys: "map (resource_key s1) rfs = map (resource_key s) rfs" using resource_key_cong [OF ap] by simp
  have ok: "e = None" "list_all (\<lambda>e. e = None) (reconcile_errors c rfs s1 w1)"
    using Cons.prems(3) Cons.hyps(1) by auto
  have "settled_in (c_isControlledBy c) (objects w1) s r"
    using run_settles [of s r w s1 w1] Cons.prems(1) Cons.hyps(1) ok(1) by simp
  moreover have "objects w' (resource_key s r) = objects w1 (resource_key s r)"
    using loop_frame [OF ls Cons.hyps(2)] Cons.prems(2) keys by simp
  ultimately have "settled_in (c_isControlledBy c) (objects w') s r" by (simp add: settled_in_def)
  moreover have "list_all (settled_in (c_isControlledBy c) (objects w') s1) rfs"
    using Cons.IH [OF ls _ ok(2)] Cons.prems(2) keys by simp
  ultimately show ?case using settled_cong [OF ap] by (simp add: list_all_iff)
qed simp

lemma loop_idle:
  "list_all (settled_in (c_isControlledBy c) (objects w) s) rfs \<Longrightarrow>
   (\<And>k x. k \<in> set (map (resource_key s) rfs) \<Longrightarrow> c_get c w k \<noteq> GetError x) \<Longrightarrow>
   (\<And>r cur d. r \<in> set rfs \<Longrightarrow> rr_desired r = Some d \<Longrightarrow> carries cur d \<Longrightarrow> \<not> rr_shouldUpdate r cur d) \<Longrightarrow>
   doReconcile_loop c rfs s w [] emptyResult = (errs', result', s', w') \<Longrightarrow>
     errs' = [] \<and> result' = emptyResult \<and> w' = w"
proof (induction rfs arbitrary: s)
  case (Cons r rfs)
  obtain s1 where step: "ReconcileControllerResource c r s w = (None, s1, w)"
    using run_idle [of w s r] Cons.prems(1-3) by auto
  have rest: "doReconcile_loop c rfs s1 w [] emptyResult = (errs', result', s', w')"
    using Cons.prems(4) step by simp
  note ap = outcome_policy [OF step]
  have st: "list_all (settled_in (c_isControlledBy c) (objects w) s1) rfs"
    using Cons.prems(1) settled_cong [OF ap] by (simp add: list_all_iff)
  have "map (resource_key s1) rfs = map (resource_key s) rfs" using resource_key_cong [OF ap] by simp
  then have "c_get c w k \<noteq> GetError x" if "k \<in> set (map (resource_key s1) rfs)" for k x
    using Cons.prems(2) [of k x] that by simp
  from Cons.IH [OF st this _ rest] Cons.prems(3) show ?case by (metis list.set_intros(2))
qed simp

end

end
