(* ===== verification/Convergence.thy ===== *)
theory Convergence
  imports Controller
begin

text \<open>
  What a reconciliation does to the cluster: it touches objects of the policy only, a run without
  errors leaves every resource settled, and a further run writes nothing.  After such a run the
  stored authorization policies decide as the generated ones do.
\<close>

section \<open>The objects of a policy\<close>

definition policy_keys :: "objkey scope \<Rightarrow> objkey list" where
  "policy_keys s =
     (let ns = ap_namespace (s_authPolicy s); name = ap_name (s_authPolicy s)
      in map (\<lambda>(k, n). \<lparr>k_kind = k, k_namespace = ns, k_name = n\<rparr>)
        [(''Secret'', alc_envoySecretName (s_autoLoginConfig s)), (''EnvoyFilter'', EnvoyFilterName name),
         (''RequestAuthentication'', name), (''AuthorizationPolicy'', DenyPolicyName name),
         (''AuthorizationPolicy'', IgnorePolicyName name), (''AuthorizationPolicy'', RequirePolicyName name)])"

lemma resource_keys:
  assumes "ControllerResources env s = Inr rs"
  shows "map (resource_key s) rs = policy_keys s"
proof -
  have "map (resource_key s) rs =
      map (\<lambda>(k, n). \<lparr>k_kind = k, k_namespace = ap_namespace (s_authPolicy s), k_name = n\<rparr>)
        (map (\<lambda>r. (rr_kind r, rr_name r)) rs)"
    by (simp add: resource_key_def)
  then show ?thesis unfolding resources_names [OF assms] by (simp add: policy_keys_def Let_def)
qed

lemma doReconcile_loop_of:
  assumes "doReconcile c rs s w = (r, s', w')"
  obtains errs where "doReconcile_loop c rs s w [] emptyResult = (errs, emptyResult, s', w')"
    "errs = List.map_filter (\<lambda>x. x) (reconcile_errors c rs s w)"
    "r = (if errs = [] then Inr emptyResult else Inl errs)"
proof -
  obtain errs result s1 w1 where l: "doReconcile_loop c rs s w [] emptyResult = (errs, result, s1, w1)"
    by (metis prod_cases4)
  with loop_errors [OF l] assms that show ?thesis by (auto simp: doReconcile_def split: if_splits)
qed

text \<open>The concrete scope of the examples, with object keys in its log.\<close>

definition example_run :: "objkey scope" where
  "example_run =
     \<lparr>s_authPolicy = example_policy, s_audiences = [''aud''], s_autoLoginConfig = example_cfg,
      s_oauthCredentials = \<lparr>cr_clientID = Some ''id'', cr_clientSecret = Some ''s''\<rparr>,
      s_identityProviderUris = example_uris, s_descendants = [], s_invalidConfig = False,
      s_validationErrorMessage = None\<rparr>"

lemma example_wf: "selector_wf example_run"
  by code_simp

section \<open>A run that finds no obstacle\<close>

text \<open>Generated objects have no owner yet.\<close>

definition ownerless :: "resourceReconciler \<Rightarrow> bool" where
  "ownerless r \<longleftrightarrow> (\<forall>d. rr_desired r = Some d \<longrightarrow> om_owners (obj_meta d) = [])"

lemma built_ownerless: "om_owners (buildObjectMeta n ns) = []"
  by (simp add: buildObjectMeta_def)

lemma policy_resource_ownerless:
  assumes "\<And>d. desired = Some d \<Longrightarrow> azp_meta d = buildObjectMeta n ns"
  shows "ownerless (authorizationPolicyResource env name desired)"
  using assms by (auto simp: ownerless_def authorizationPolicyResource_def built_ownerless)

lemma resources_ownerless:
  assumes "ControllerResources env s = Inr rs"
  shows "list_all ownerless rs"
proof -
  have "ownerless r" if r: "secretResource env s = Inr r" for r
  proof -
    let ?meta = "buildObjectMeta (alc_envoySecretName (s_autoLoginConfig s)) (ap_namespace (s_authPolicy s))"
    obtain desired where "secret_GetDesired env s ?meta = Inr desired" "rr_desired r = map_option SecretObj desired"
      using r by (auto simp: secretResource_def res_bind_Inr_iff)
    then show ?thesis using secret_Some(2) [of env s ?meta] by (auto simp: ownerless_def built_ownerless)
  qed
  moreover have "ownerless r" if r: "envoyFilterResource env s = Inr r" for r
  proof -
    let ?meta = "buildObjectMeta (EnvoyFilterName (ap_name (s_authPolicy s))) (ap_namespace (s_authPolicy s))"
    obtain desired where "envoyfilter_GetDesired env s ?meta = Inr desired"
      "rr_desired r = map_option EnvoyFilterObj desired"
      using r by (auto simp: envoyFilterResource_def res_bind_Inr_iff)
    then show ?thesis using envoyfilter_Some(2) [of env s ?meta] by (auto simp: ownerless_def built_ownerless)
  qed
  moreover have "ownerless (requestAuthenticationResource env s)"
    using requestauthentication_gen.meta_given [of s]
    by (auto simp: requestAuthenticationResource_def ownerless_def built_ownerless)
  moreover have "ownerless (denyAuthorizationPolicyResource env s)" "ownerless (ignoreAuthorizationPolicyResource env s)"
    "ownerless (requireAuthorizationPolicyResource env s)"
    unfolding denyAuthorizationPolicyResource_def ignoreAuthorizationPolicyResource_def
      requireAuthorizationPolicyResource_def Let_def
    by (rule policy_resource_ownerless, erule deny_gen.meta_given ignore_gen.meta_given require_gen.meta_given)+
  ultimately show ?thesis using assms by (auto simp: ControllerResources_def res_bind_Inr_iff)
qed

text \<open>No other owner holds the name.\<close>

definition unobstructed :: "(k8s_object \<Rightarrow> authPolicy \<Rightarrow> bool) \<Rightarrow> (objkey \<Rightarrow> k8s_object option) \<Rightarrow> authPolicy \<Rightarrow> objkey \<Rightarrow> bool" where
  "unobstructed controlled objs ap k \<longleftrightarrow>
     (\<forall>o'. objs k = Some o' \<longrightarrow> controlled o' ap \<and> obj_key o' = k)"

context k8s_api
begin

lemma run_unobstructed:
  assumes "lawful s r" and "ReconcileControllerResource c r s w = (e, s', w')"
    and "unobstructed (c_isControlledBy c) (objects w) (s_authPolicy s) k"
  shows "unobstructed (c_isControlledBy c) (objects w') (s_authPolicy s) k"
proof (cases "k = resource_key s r")
  case True
  have "c_isControlledBy c (rr_updateFields r cur d) (s_authPolicy s) = c_isControlledBy c cur (s_authPolicy s)"
    if "rr_desired r = Some d" for cur d
    by (rule control_by_owners [OF lawfulE(5) [OF assms(1) that]])
  then show ?thesis
    using run_cases [OF assms(1, 2)] assms(3) True lawfulE(1, 4) [OF assms(1)]
    by (auto simp: run_effect_def unobstructed_def Let_def split: option.splits)
next
  case False
  then show ?thesis using run_frame [OF assms(1, 2)] assms(3) by (simp add: unobstructed_def)
qed

end

context reliable_api
begin

lemma create_succeeds:
  assumes "om_owners (obj_meta d) = []" and "objects w (obj_key d) = None"
  shows "fst (reconcileOnCreate c s w d kind name) = None"
proof -
  obtain o' where o': "c_setControllerReference c (s_authPolicy s) d = Inr o'"
    using reference_free [OF assms(1)] by blast
  with set_reference [OF o'] have "obj_key o' = obj_key d" by auto
  with create_absent [of w o'] assms(2) have "fst (c_create c w o') = None" by simp
  with o' show ?thesis by (auto simp: reconcileOnCreate_def split: prod.splits option.splits)
qed

lemma run_succeeds:
  assumes "lawful s r" and "ownerless r"
    and "unobstructed (c_isControlledBy c) (objects w) (s_authPolicy s) (resource_key s r)"
  shows "fst (ReconcileControllerResource c r s w) = None"
proof (cases "objects w (resource_key s r)")
  case None
  then show ?thesis
    using create_succeeds [of _ w s] assms(2) lawfulE(1) [OF assms(1)] get_absent [OF None]
    by (auto simp: ReconcileControllerResource_def reconcileCurrent_def DetermineReconcileAction_def Let_def
        ownerless_def split: option.splits)
next
  case (Some cur)
  then have cur: "c_isControlledBy c cur (s_authPolicy s)" "obj_key cur = resource_key s r"
    using assms(3) by (auto simp: unobstructed_def)
  have "fst (reconcileOnDelete c s w cur kind name) = None" for kind name
    using delete_stored [of w cur] Some cur(2) by (auto simp: reconcileOnDelete_def split: prod.splits option.splits)
  moreover have "fst (reconcileOnUpdate c s w d cur (rr_updateFields r) kind name) = None"
    if "rr_desired r = Some d" for d kind name
    using patch_stored [of w cur "rr_updateFields r cur d"] Some cur(2) lawfulE(4) [OF assms(1) that]
    by (auto simp: reconcileOnUpdate_def Let_def split: prod.splits option.splits)
  ultimately show ?thesis
    using cur get_stored [OF Some cur(2)]
    by (auto simp: ReconcileControllerResource_def reconcileCurrent_def DetermineReconcileAction_def Let_def
        split: option.splits)
qed

lemma loop_succeeds:
  "list_all (lawful s) rfs \<Longrightarrow> list_all ownerless rfs \<Longrightarrow>
   list_all (unobstructed (c_isControlledBy c) (objects w) (s_authPolicy s)) (map (resource_key s) rfs) \<Longrightarrow>
     list_all (\<lambda>e. e = None) (reconcile_errors c rfs s w)"
proof (induction rfs arbitrary: s w)
  case (Cons r rfs)
  obtain e s1 w1 where step: "ReconcileControllerResource c r s w = (e, s1, w1)" by (metis prod_cases3)
  note ap = outcome_policy [OF step]
  have lr: "lawful s r" using Cons.prems(1) by simp
  have "e = None" using run_succeeds [OF lr, of w] Cons.prems(2, 3) step by simp
  moreover have "list_all (lawful s1) rfs" using Cons.prems(1) lawful_cong [OF ap] by (simp add: list_all_iff)
  moreover have "list_all (unobstructed (c_isControlledBy c) (objects w1) (s_authPolicy s1)) (map (resource_key s1) rfs)"
    using Cons.prems(3) run_unobstructed [OF lr step] ap resource_key_cong [OF ap] by (simp add: list_all_iff)
  ultimately show ?case using Cons.IH Cons.prems(2) step by simp
qed simp

end

section \<open>When the resources can be built\<close>

definition credentials_given :: "'o scope \<Rightarrow> bool" where
  "credentials_given s \<longleftrightarrow> cr_clientID (s_oauthCredentials s) \<noteq> None \<and> cr_clientSecret (s_oauthCredentials s) \<noteq> None"

lemma resources_total:
  assumes "autoLoginActive s \<Longrightarrow> credentials_given s \<and> token_port_ok (idp_tokenURI (s_identityProviderUris s)) \<and>
    patches_encodable env s"
  shows "\<exists>rs. ControllerResources env s = Inr rs"
proof -
  have "\<exists>x. envoyfilter_GetDesired env s meta = Inr x" for meta
    using assms envoyfilter_returns [of s env meta]
    by (cases "autoLoginActive s") (auto simp: credentials_given_def envoyfilter_GetDesired_def)
  moreover have "\<exists>x. secret_GetDesired env s meta = Inr x" for meta
    using assms by (auto simp: secret_GetDesired_def credentials_given_def)
  ultimately obtain x y where
    "secret_GetDesired env s (buildObjectMeta (alc_envoySecretName (s_autoLoginConfig s)) (ap_namespace (s_authPolicy s))) = Inr x"
    "envoyfilter_GetDesired env s (buildObjectMeta (EnvoyFilterName (ap_name (s_authPolicy s))) (ap_namespace (s_authPolicy s))) = Inr y"
    by blast
  then show ?thesis by (simp add: ControllerResources_def secretResource_def envoyFilterResource_def)
qed

lemma example_env_total:
  assumes "credentials_given s" and "token_port_ok (idp_tokenURI (s_identityProviderUris s))"
  shows "\<exists>rs. ControllerResources (example_env\<lparr>ge_run := rb\<rparr>) s = Inr rs"
proof (rule resources_total)
  show "credentials_given s \<and> token_port_ok (idp_tokenURI (s_identityProviderUris s)) \<and>
      patches_encodable (example_env\<lparr>ge_run := rb\<rparr>) s"
    using assms by (auto simp: patches_encodable_def example_env_def split: sum.split)
qed

lemma example_resources_random:
  "\<exists>rs. ControllerResources (example_env\<lparr>ge_run := rb\<rparr>) example_run = Inr rs"
proof (rule example_env_total)
  have "url_Parse (idp_tokenURI (s_identityProviderUris example_run)) =
      Inr \<lparr>u_Scheme = ''https'', u_Host = ''idp:8443'', u_Path = ''/token''\<rparr>"
    "splitHostPort ''idp:8443'' = (''idp'', ''8443'')"
    by code_simp+
  moreover have "Atoi_digits ''8443'' \<noteq> None" by (simp add: Atoi_digits_def is_digit_def digits_value_def)
  ultimately show "token_port_ok (idp_tokenURI (s_identityProviderUris example_run))" by (simp add: token_port_ok_def)
qed (simp add: credentials_given_def example_run_def)

lemma example_resources: "\<exists>rs. ControllerResources example_env example_run = Inr rs"
  using example_resources_random [of "ge_run example_env"] by simp

section \<open>Runs\<close>

lemma doReconcile_settles:
  assumes "k8s_api c objects" and "ControllerResources env s = Inr rs" and "selector_wf s"
    and "doReconcile c rs s w = (Inr result, s', w')"
  shows "list_all (settled_in (c_isControlledBy c) (objects w') s) rs"
proof -
  obtain errs where l: "doReconcile_loop c rs s w [] emptyResult = (errs, emptyResult, s', w')"
    and e: "errs = List.map_filter (\<lambda>x. x) (reconcile_errors c rs s w)"
    "Inr result = (if errs = [] then Inr emptyResult else Inl errs)"
    using doReconcile_loop_of [OF assms(4)] by metis
  then have "list_all (\<lambda>e. e = None) (reconcile_errors c rs s w)"
    using map_filter_empty_iff by (metis Inl_Inr_False)
  then show ?thesis
    by (rule k8s_api.loop_settles [OF assms(1) l resources_lawful [OF assms(2, 3)] resources_distinct(1) [OF assms(2)]])
qed

lemma doReconcile_succeeds:
  assumes "reliable_api c objects" and "ControllerResources env s = Inr rs" and "selector_wf s"
    and "list_all (unobstructed (c_isControlledBy c) (objects w) (s_authPolicy s)) (policy_keys s)"
  shows "\<exists>s' w'. doReconcile c rs s w = (Inr emptyResult, s', w')"
proof -
  have "list_all (\<lambda>e. e = None) (reconcile_errors c rs s w)"
    by (rule reliable_api.loop_succeeds [OF assms(1) resources_lawful [OF assms(2, 3)] resources_ownerless [OF assms(2)]])
       (use assms(4) resource_keys [OF assms(2)] in simp)
  then have "List.map_filter (\<lambda>x. x) (reconcile_errors c rs s w) = []" by (simp add: map_filter_empty_iff)
  moreover obtain r s' w' where d: "doReconcile c rs s w = (r, s', w')" by (metis prod_cases3)
  ultimately show ?thesis by (metis doReconcile_loop_of [OF d])
qed

lemma doReconcile_unobstructed:
  assumes "k8s_api c objects" and "ControllerResources env s = Inr rs" and "selector_wf s"
    and "doReconcile c rs s w = (r, s', w')"
    and "unobstructed (c_isControlledBy c) (objects w) (s_authPolicy s) k"
  shows "unobstructed (c_isControlledBy c) (objects w') (s_authPolicy s) k"
proof -
  obtain errs where l: "doReconcile_loop c rs s w [] emptyResult = (errs, emptyResult, s', w')"
    using doReconcile_loop_of [OF assms(4)] by metis
  have "unobstructed (c_isControlledBy c) (objects w') (s_authPolicy s) k \<and> s_authPolicy s' = s_authPolicy s"
  proof (rule loop_invariant [where P = "\<lambda>w. unobstructed (c_isControlledBy c) (objects w) (s_authPolicy s) k", OF l])
    fix r s1 w1 e s2 w2
    assume r: "r \<in> set rs" "s_authPolicy s1 = s_authPolicy s"
      and st: "unobstructed (c_isControlledBy c) (objects w1) (s_authPolicy s) k"
        "ReconcileControllerResource c r s1 w1 = (e, s2, w2)"
    have "lawful s1 r"
      using r(1) resources_lawful [OF assms(2, 3)] lawful_cong [OF r(2)] by (simp add: list_all_iff)
    from k8s_api.run_unobstructed [OF assms(1) this st(2)]
    show "unobstructed (c_isControlledBy c) (objects w2) (s_authPolicy s) k" using st(1) r(2) by simp
  qed (rule assms(5))
  then show ?thesis by simp
qed

lemma example_reconciled:
  obtains rs s' w' where "ControllerResources example_env example_run = Inr rs"
    "doReconcile (store_client no_faults) rs example_run [] = (Inr emptyResult, s', w')"
    "map_of w' \<lparr>k_kind = ''AuthorizationPolicy'', k_namespace = ''ns'', k_name = ''demo-require-auth''\<rparr> \<noteq> None"
proof -
  obtain rs where rs: "ControllerResources example_env example_run = Inr rs" using example_resources by blast
  have "list_all (unobstructed (c_isControlledBy (store_client no_faults)) (map_of []) (s_authPolicy example_run))
      (policy_keys example_run)"
    by (simp add: unobstructed_def list_all_iff)
  from doReconcile_succeeds [OF quiet.reliable_api_axioms rs example_wf this] obtain s' w' where
    d: "doReconcile (store_client no_faults) rs example_run [] = (Inr emptyResult, s', w')" by blast
  let ?r = "requireAuthorizationPolicyResource example_env example_run"
  have "well_formed_scope example_run" by code_simp
  from go_growth.require_exists [OF this] have "rr_desired ?r \<noteq> None"
    by (auto simp: requireAuthorizationPolicyResource_def authorizationPolicyResource_def Let_def example_env_def)
  moreover have "?r \<in> set rs" using rs by (auto simp: ControllerResources_def res_bind_Inr_iff)
  then have "settled_in (c_isControlledBy (store_client no_faults)) (map_of w') example_run ?r"
    using doReconcile_settles [OF store.k8s_api_axioms rs example_wf d] by (simp add: list_all_iff)
  ultimately have "map_of w' (resource_key example_run ?r) \<noteq> None"
    by (auto simp: settled_in_def split: option.splits)
  moreover have "resource_key example_run ?r =
      \<lparr>k_kind = ''AuthorizationPolicy'', k_namespace = ''ns'', k_name = ''demo-require-auth''\<rparr>"
    by (simp add: resource_key_def requireAuthorizationPolicyResource_def authorizationPolicyResource_def Let_def
        example_run_def example_policy_def RequirePolicyName_def)
  ultimately show ?thesis using that [OF rs d] by simp
qed

section \<open>A new signing key does not count as a change\<close>

lemma secret_carries_random:
  assumes "getEnvoySecret env meta cs = Some x" and "getEnvoySecret (env\<lparr>ge_run := rb\<rparr>) meta cs = Some y"
  shows "carries cur (SecretObj y) = carries cur (SecretObj x)"
  using assms
  by (cases cur) (auto simp: getEnvoySecret_def bind_eq_Some_conv getEnvoySecretDataValue_def
      TokenSecretFileName_def HmacSecretFileName_def)

lemma getEnvoySecret_total:
  assumes "rc_randomBytes (ge_run env) 32 \<noteq> None" and "\<And>v. ge_yamlMarshal env v \<noteq> None"
  shows "\<exists>x. getEnvoySecret env meta cs = Some x"
proof -
  obtain b where "rc_randomBytes (ge_run env) 32 = Some b" using assms(1) by blast
  moreover obtain h where "ge_yamlMarshal env (envoySecretValue ''hmac'' (base64 b) ''inline_bytes'') = Some h"
    using assms(2) by blast
  moreover obtain k where "ge_yamlMarshal env (envoySecretValue ''token'' cs ''inline_string'') = Some k"
    using assms(2) by blast
  ultimately show ?thesis by (simp add: getEnvoySecret_def getEnvoySecretDataValue_def GenerateHMACSecret_def)
qed

text \<open>A resource for the same name and with the same object.\<close>

definition same_object :: "resourceReconciler \<Rightarrow> resourceReconciler \<Rightarrow> bool" where
  "same_object a b \<longleftrightarrow> rr_kind a = rr_kind b \<and> rr_name a = rr_name b \<and> rr_desired a = rr_desired b"

lemma same_object_settled:
  "same_object a b \<Longrightarrow> settled_in controlled objs s a \<longleftrightarrow> settled_in controlled objs s b"
  by (simp add: same_object_def settled_in_def resource_key_def)

lemma envoyfilter_run: "envoyfilter_GetDesired (env\<lparr>ge_run := rb\<rparr>) s meta = envoyfilter_GetDesired env s meta"
  by (simp add: envoyfilter_GetDesired_def clusterPatchValue_def newStruct_def)

lemma resources_random:
  assumes "ControllerResources env s = Inr rs" and "ControllerResources (env\<lparr>ge_run := rb\<rparr>) s = Inr rs'"
  obtains a a' rest rest' where "rs = a # rest" "rs' = a' # rest'" "list_all2 same_object rest rest'"
    "secretResource env s = Inr a" "secretResource (env\<lparr>ge_run := rb\<rparr>) s = Inr a'"
proof -
  have "same_object e e'" if "envoyFilterResource env s = Inr e" "envoyFilterResource (env\<lparr>ge_run := rb\<rparr>) s = Inr e'" for e e'
    using that by (auto simp: envoyFilterResource_def envoyfilter_run res_bind_Inr_iff same_object_def)
  moreover have "same_object (requestAuthenticationResource env s) (requestAuthenticationResource (env\<lparr>ge_run := rb\<rparr>) s)"
    by (simp add: same_object_def requestAuthenticationResource_def)
  moreover have "same_object (authorizationPolicyResource env n d) (authorizationPolicyResource (env\<lparr>ge_run := rb\<rparr>) n d)" for n d
    by (simp add: same_object_def authorizationPolicyResource_def)
  ultimately show ?thesis
    using assms that by (auto simp: ControllerResources_def res_bind_Inr_iff denyAuthorizationPolicyResource_def
        ignoreAuthorizationPolicyResource_def requireAuthorizationPolicyResource_def Let_def)
qed

lemma secret_settled_random:
  assumes "secretResource env s = Inr a" and "secretResource (env\<lparr>ge_run := rb\<rparr>) s = Inr a'"
    and "rc_randomBytes (ge_run env) 32 \<noteq> None" and "rc_randomBytes rb 32 \<noteq> None" and "\<And>v. ge_yamlMarshal env v \<noteq> None"
    and "settled_in controlled objs s a"
  shows "settled_in controlled objs s a'"
proof -
  let ?meta = "buildObjectMeta (alc_envoySecretName (s_autoLoginConfig s)) (ap_namespace (s_authPolicy s))"
  have key: "resource_key s a' = resource_key s a"
    using assms(1, 2) by (auto simp: secretResource_def res_bind_Inr_iff resource_key_def)
  show ?thesis
  proof (cases "autoLoginActive s")
    case False
    then have "a' = a" using assms(1, 2) by (simp add: secretResource_def secret_GetDesired_def)
    then show ?thesis using assms(6) by simp
  next
    case True
    then obtain cs where cs: "cr_clientSecret (s_oauthCredentials s) = Some cs"
      using assms(1) by (cases "cr_clientSecret (s_oauthCredentials s)") (auto simp: secretResource_def secret_GetDesired_def)
    obtain x where x: "getEnvoySecret env ?meta cs = Some x" using getEnvoySecret_total assms(3, 5) by blast
    obtain y where y: "getEnvoySecret (env\<lparr>ge_run := rb\<rparr>) ?meta cs = Some y"
      using getEnvoySecret_total [of "env\<lparr>ge_run := rb\<rparr>" ?meta cs] assms(4, 5) by auto
    have "rr_desired a = Some (SecretObj x)" "rr_desired a' = Some (SecretObj y)"
      using assms(1, 2) True cs x y by (auto simp: secretResource_def secret_GetDesired_def)
    then show ?thesis
      using assms(6) key secret_carries_random [OF x y] by (simp add: settled_in_def split: option.splits)
  qed
qed

lemma resources_settled_random:
  assumes "ControllerResources env s = Inr rs" and "ControllerResources (env\<lparr>ge_run := rb\<rparr>) s = Inr rs'"
    and "rc_randomBytes (ge_run env) 32 \<noteq> None" and "rc_randomBytes rb 32 \<noteq> None" and "\<And>v. ge_yamlMarshal env v \<noteq> None"
    and "list_all (settled_in controlled objs s) rs"
  shows "list_all (settled_in controlled objs s) rs'"
proof -
  obtain a a' rest rest' where a: "rs = a # rest" "rs' = a' # rest'" "list_all2 same_object rest rest'"
    "secretResource env s = Inr a" "secretResource (env\<lparr>ge_run := rb\<rparr>) s = Inr a'"
    by (rule resources_random [OF assms(1, 2)])
  have "settled_in controlled objs s a'"
    by (rule secret_settled_random [OF a(4, 5) assms(3-5)]) (use assms(6) a(1) in simp)
  moreover have "list_all (settled_in controlled objs s) rest'"
    using a(3) assms(6) [unfolded a(1)]
    by (induction rule: list_all2_induct) (auto simp: same_object_settled)
  ultimately show ?thesis using a(2) by simp
qed

section \<open>Properties\<close>

text \<open>C8: a reconciliation changes no object but the six of its policy, and of those none that
  another owner controls: what changed was absent before or controlled by the policy.\<close>

theorem reconcile_touches_own_objects:
  assumes "k8s_api c objects" and "ControllerResources env s = Inr rs" and "selector_wf s"
    and "doReconcile c rs s w = (r, s', w')" and "objects w' k \<noteq> objects w k"
  shows "k \<in> set (policy_keys s) \<and>
    (\<forall>o'. objects w k = Some o' \<longrightarrow> c_isControlledBy c o' (s_authPolicy s))"
proof -
  obtain errs where l: "doReconcile_loop c rs s w [] emptyResult = (errs, emptyResult, s', w')"
    using doReconcile_loop_of [OF assms(4)] by metis
  note law = resources_lawful [OF assms(2, 3)]
  show ?thesis
    using k8s_api.loop_frame [OF assms(1) law l, of k] k8s_api.loop_unowned [OF assms(1) law l, of k]
      assms(5) resource_keys [OF assms(2)]
    by metis
qed

theorem reconcile_touches_own_objects_witness:
  "\<lparr>k_kind = ''AuthorizationPolicy'', k_namespace = ''ns'', k_name = ''demo-require-auth''\<rparr> \<in> set (policy_keys example_run)"
proof -
  obtain rs s' w' where run: "ControllerResources example_env example_run = Inr rs"
    "doReconcile (store_client no_faults) rs example_run [] = (Inr emptyResult, s', w')"
    "map_of w' \<lparr>k_kind = ''AuthorizationPolicy'', k_namespace = ''ns'', k_name = ''demo-require-auth''\<rparr> \<noteq> None"
    by (rule example_reconciled)
  note own = reconcile_touches_own_objects [OF store.k8s_api_axioms [of no_faults]]
  from run(3) have "map_of w' \<lparr>k_kind = ''AuthorizationPolicy'', k_namespace = ''ns'', k_name = ''demo-require-auth''\<rparr> \<noteq>
    map_of [] \<lparr>k_kind = ''AuthorizationPolicy'', k_namespace = ''ns'', k_name = ''demo-require-auth''\<rparr>" by simp
  from own [OF run(1) example_wf run(2) this] show ?thesis by blast
qed

text \<open>C7: after a reconciliation without errors every resource is settled: for what is desired an
  object is stored that is controlled by the policy and has the desired labels, selector and rules,
  patches, token rules or token file; and what is not desired is not there, or belongs to another
  owner.\<close>

theorem reconcile_converges:
  assumes "k8s_api c objects" and "ControllerResources env s = Inr rs" and "selector_wf s"
    and "doReconcile c rs s w = (Inr result, s', w')"
  shows "list_all (settled_in (c_isControlledBy c) (objects w') s) rs"
  using assms by (rule doReconcile_settles)

theorem reconcile_converges_witness:
  "\<exists>rs w'. ControllerResources example_env example_run = Inr rs \<and>
     list_all (settled_in (c_isControlledBy (store_client no_faults)) (map_of w') example_run) rs"
proof -
  obtain rs s' w' where run: "ControllerResources example_env example_run = Inr rs"
    "doReconcile (store_client no_faults) rs example_run [] = (Inr emptyResult, s', w')"
    by (rule example_reconciled)
  then show ?thesis using reconcile_converges [OF store.k8s_api_axioms run(1) example_wf run(2)] by blast
qed

text \<open>C17: a reconciliation whose calls do not fail without a reason succeeds when no other owner holds
  one of the six names of the policy.\<close>

theorem reconcile_succeeds:
  assumes "reliable_api c objects" and "ControllerResources env s = Inr rs" and "selector_wf s"
    and "list_all (unobstructed (c_isControlledBy c) (objects w) (s_authPolicy s)) (policy_keys s)"
  shows "\<exists>s' w'. doReconcile c rs s w = (Inr emptyResult, s', w')"
  using assms by (rule doReconcile_succeeds)

theorem reconcile_succeeds_witness:
  "\<exists>rs s' w'. ControllerResources example_env example_run = Inr rs \<and>
     doReconcile (store_client no_faults) rs example_run [] = (Inr emptyResult, s', w')"
proof -
  obtain rs where rs: "ControllerResources example_env example_run = Inr rs" using example_resources by blast
  have "list_all (unobstructed (c_isControlledBy (store_client no_faults)) (map_of []) (s_authPolicy example_run))
      (policy_keys example_run)"
    by (simp add: unobstructed_def list_all_iff)
  from reconcile_succeeds [OF quiet.reliable_api_axioms rs example_wf this] rs show ?thesis by blast
qed

text \<open>C16: reconciling the six objects a second time after a success writes none of them and
  succeeds, although the signing key in the desired secret is drawn anew, provided that the objects
  can be read, that the secret can be built, and that the deep comparisons see no more than the
  values.\<close>

theorem reconcile_idempotent:
  assumes "k8s_api c objects" and "ControllerResources env s = Inr rs" and "selector_wf s"
    and "doReconcile c rs s w = (Inr result, s', w')"
    and "ControllerResources (env\<lparr>ge_run := rb\<rparr>) s = Inr rs'"
    and "rc_randomBytes (ge_run env) 32 \<noteq> None" and "rc_randomBytes rb 32 \<noteq> None" and "\<And>v. ge_yamlMarshal env v \<noteq> None"
    and "\<And>k x. k \<in> set (policy_keys s) \<Longrightarrow> c_get c w' k \<noteq> GetError x"
    and "exact_comparison rb"
  shows "\<exists>s''. doReconcile c rs' s w' = (Inr emptyResult, s'', w')"
proof -
  obtain r2 s2 w2 where d: "doReconcile c rs' s w' = (r2, s2, w2)" by (metis prod_cases3)
  obtain errs where l: "doReconcile_loop c rs' s w' [] emptyResult = (errs, emptyResult, s2, w2)"
    and r2: "r2 = (if errs = [] then Inr emptyResult else Inl errs)"
    using doReconcile_loop_of [OF d] by metis
  have st: "list_all (settled_in (c_isControlledBy c) (objects w') s) rs'"
    using resources_settled_random [OF assms(2, 5-8)] doReconcile_settles [OF assms(1-4)] by blast
  have "exact_comparison (ge_run (env\<lparr>ge_run := rb\<rparr>))" using assms(10) by simp
  note exact = resources_exact [OF assms(5) this]
  have get: "c_get c w' k \<noteq> GetError x" if "k \<in> set (map (resource_key s) rs')" for k x
    using that unfolding resource_keys [OF assms(5)] by (rule assms(9))
  have "errs = [] \<and> emptyResult = emptyResult \<and> w2 = w'"
    by (rule k8s_api.loop_idle [OF assms(1) st get _ l]) (use exact in blast)+
  then have "r2 = Inr emptyResult" "w2 = w'" using r2 by simp_all
  then show ?thesis using d by blast
qed

theorem reconcile_idempotent_witness:
  "\<exists>rs rs' w' s''. ControllerResources (example_env\<lparr>ge_run := (ge_run example_env)
        \<lparr>rc_randomBytes := \<lambda>n. Some (replicate n (CHR ''B''))\<rparr>\<rparr>) example_run = Inr rs' \<and>
     ControllerResources example_env example_run = Inr rs \<and> w' = snd (snd (doReconcile (store_client no_faults) rs example_run [])) \<and>
     doReconcile (store_client no_faults) rs' example_run w' = (Inr emptyResult, s'', w')"
proof -
  let ?rb = "(ge_run example_env)\<lparr>rc_randomBytes := \<lambda>n. Some (replicate n (CHR ''B''))\<rparr>" and ?c = "store_client no_faults"
  obtain rs s' w' where run: "ControllerResources example_env example_run = Inr rs"
    "doReconcile ?c rs example_run [] = (Inr emptyResult, s', w')"
    by (rule example_reconciled)
  obtain rs' where rs': "ControllerResources (example_env\<lparr>ge_run := ?rb\<rparr>) example_run = Inr rs'"
    using example_resources_random by blast
  have "c_get ?c w' k \<noteq> GetError x" for k x
  proof -
    have "unobstructed (c_isControlledBy ?c) (map_of []) (s_authPolicy example_run) k" by (simp add: unobstructed_def)
    from doReconcile_unobstructed [OF store.k8s_api_axioms run(1) example_wf run(2) this]
    show ?thesis by (auto simp: unobstructed_def store_client_def no_faults_def split: option.splits)
  qed
  note get = this
  note again = reconcile_idempotent [OF store.k8s_api_axioms [of no_faults] run(1) example_wf run(2) rs']
  have "\<exists>s''. doReconcile ?c rs' example_run w' = (Inr emptyResult, s'', w')"
    by (rule again) (use get in \<open>auto simp: example_env_def exact_comparison_def\<close>)
  with run rs' show ?thesis by (metis snd_conv)
qed

end
