(* ===== verification/Lifecycle.thy ===== *)
theory Lifecycle
  imports Convergence
begin

text \<open>
  What a reconciliation reports: the state it derives from the descendants is exact, the status says
  ready when and only when everything was reconciled, conditions keep their transition times, and no
  reconciliation of an admitted policy panics.
\<close>

section \<open>Counting descendants\<close>

lemma length_filter_sub:
  assumes "\<And>x. x \<in> set xs \<Longrightarrow> A x \<Longrightarrow> B x"
  shows "length (filter A xs) \<le> length (filter B xs) \<and>
    (length (filter A xs) = length (filter B xs) \<longleftrightarrow> (\<forall>x \<in> set xs. B x \<longrightarrow> A x))"
  using assms
proof (induction xs)
  case (Cons x xs)
  then have "length (filter A xs) \<le> length (filter B xs) \<and>
      (length (filter A xs) = length (filter B xs) \<longleftrightarrow> (\<forall>x \<in> set xs. B x \<longrightarrow> A x))" by simp
  moreover have "A x \<Longrightarrow> B x" using Cons.prems by simp
  ultimately show ?case by (cases "A x"; cases "B x") auto
qed simp

lemma length_filter_zip:
  "length xs = length ys \<Longrightarrow> length (filter (\<lambda>(x, y). P x) (zip xs ys)) = length (filter P xs)"
  by (induction xs ys rule: list_induct2) auto

lemma map_filter_nonempty: "List.map_filter f xs \<noteq> [] \<longleftrightarrow> (\<exists>x \<in> set xs. f x \<noteq> None)"
  by (induction xs) (auto simp: List.map_filter_simps split: option.splits)

lemma list_all2_ex:
  "list_all2 P xs ys \<Longrightarrow> (\<And>x y. P x y \<Longrightarrow> A x = B y) \<Longrightarrow> (\<exists>x \<in> set xs. A x) \<longleftrightarrow> (\<exists>y \<in> set ys. B y)"
  by (induction xs ys rule: list_all2_induct) auto

lemma loop_scope:
  "doReconcile_loop c rfs s w errs result = (errs', result', s', w') \<Longrightarrow>
     s_authPolicy s' = s_authPolicy s \<and> s_invalidConfig s' = s_invalidConfig s \<and>
     s_validationErrorMessage s' = s_validationErrorMessage s"
proof (induction rule: loop_induct)
  case (Cons r rfs s w e s1 w1)
  from Cons.hyps(1) show ?case by (cases rule: outcome_logged) (use Cons.IH in simp_all)
qed simp

text \<open>The log of a scope: one entry for each object, with one message.\<close>

definition log_wf :: "'o scope \<Rightarrow> bool" where
  "log_wf s \<longleftrightarrow> distinct (descendant_ids s) \<and>
     list_all (\<lambda>d. (d_errorMessage d = None) \<noteq> (d_successMessage d = None)) (s_descendants s)"

lemma replace_in_set: "d \<in> set (replaceDescendant_loop new ds) \<Longrightarrow> d = new \<or> d \<in> set ds"
  by (induction ds) (auto split: if_splits)

lemma ReplaceDescendant_log_wf:
  assumes "log_wf s" and "(e = None) \<noteq> (m = None)"
  shows "log_wf (ReplaceDescendant s obj e m kind name)"
proof -
  have "distinct (descendant_ids (ReplaceDescendant s obj e m kind name))"
    using assms(1) by (simp add: ReplaceDescendant_ids log_wf_def)
  moreover have "(d_errorMessage d = None) \<noteq> (d_successMessage d = None)"
    if "d \<in> set (s_descendants (ReplaceDescendant s obj e m kind name))" for d
    using that assms replace_in_set [of d] by (fastforce simp: ReplaceDescendant_def log_wf_def list_all_iff)
  ultimately show ?thesis by (simp add: log_wf_def list_all_iff)
qed

lemma loop_log_wf:
  "doReconcile_loop c rfs s w errs result = (errs', result', s', w') \<Longrightarrow> log_wf s \<Longrightarrow> log_wf s'"
proof (induction rule: loop_induct)
  case (Cons r rfs s w e s1 w1)
  from Cons.hyps(1) have "log_wf s1"
    by (cases rule: outcome_logged) (simp_all add: Cons.prems ReplaceDescendant_log_wf)
  then show ?case by (rule Cons.IH)
qed simp

section \<open>The state of a reconciliation\<close>

text \<open>
  A resource fails quietly when it should be absent and its reading or deletion failed: it leaves a
  descendant that no resource accounts for.
\<close>

definition absent_failed :: "resourceReconciler list \<Rightarrow> string option list \<Rightarrow> bool" where
  "absent_failed rs es \<longleftrightarrow> list_ex (\<lambda>(r, e). rr_desired r = None \<and> e \<noteq> None) (zip rs es)"

definition some_failed :: "string option list \<Rightarrow> bool" where
  "some_failed es \<longleftrightarrow> list_ex (\<lambda>e. e \<noteq> None) es"

lemma state_of_run:
  assumes "distinct (map resource_id rs)" and "s_descendants s = []" and "\<not> s_invalidConfig s"
    and "doReconcile c rs s w = (r, s', w')"
  shows "DetermineReconciliationState s' rs =
    (if absent_failed rs (reconcile_errors c rs s w) then StatePending
     else if some_failed (reconcile_errors c rs s w) then StateFailed else StateReady)"
proof -
  let ?es = "reconcile_errors c rs s w"
  let ?L = "filter leaves (zip rs ?es)"
  obtain errs where l: "doReconcile_loop c rs s w [] emptyResult = (errs, emptyResult, s', w')"
    using doReconcile_loop_of [OF assms(4)] by metis
  have "set (map resource_id rs) \<inter> set (descendant_ids s) = {}" using assms(2) by (simp add: descendant_ids_def)
  from loop_descendants [OF l assms(1) this] assms(2) have ds: "list_all2 descendant_of (s_descendants s') ?L" by auto
  have "CountNonNilResources rs = length (filter (\<lambda>(r, e). rr_desired r \<noteq> None) (zip rs ?es))"
    by (simp add: CountNonNilResources_filter IsResourceNil_def length_filter_zip)
  then have count: "length (s_descendants s') = CountNonNilResources rs \<longleftrightarrow> \<not> absent_failed rs ?es"
    using length_filter_sub [of "zip rs ?es" "\<lambda>(r, e). rr_desired r \<noteq> None" leaves] list_all2_lengthD [OF ds]
    by (fastforce simp: leaves_def absent_failed_def list_ex_iff)
  have "(\<exists>d \<in> set (s_descendants s'). d_errorMessage d \<noteq> None) \<longleftrightarrow> (\<exists>x \<in> set ?L. snd x \<noteq> None)"
    by (rule list_all2_ex [OF ds]) (auto simp: descendant_of_def)
  also have "\<dots> \<longleftrightarrow> some_failed ?es"
  proof -
    have "(\<exists>x \<in> set ?L. snd x \<noteq> None) \<longleftrightarrow> (\<exists>x \<in> set (zip rs ?es). snd x \<noteq> None)" by (fastforce simp: leaves_def)
    also have "\<dots> \<longleftrightarrow> (\<exists>e \<in> snd ` set (zip rs ?es). e \<noteq> None)" by blast
    also have "snd ` set (zip rs ?es) = set ?es" by (metis reconcile_errors_length map_snd_zip set_map)
    finally show ?thesis by (simp add: some_failed_def list_ex_iff)
  qed
  finally have errs: "GetErrors s' \<noteq> [] \<longleftrightarrow> some_failed ?es" unfolding GetErrors_def map_filter_nonempty .
  have "\<not> s_invalidConfig s'" using loop_scope [OF l] assms(3) by simp
  with count errs show ?thesis by (auto simp: DetermineReconciliationState_def)
qed

lemma succeeded_iff:
  assumes "doReconcile c rs s w = (r, s', w')"
  shows "r = Inr emptyResult \<longleftrightarrow> \<not> some_failed (reconcile_errors c rs s w)"
proof -
  have "r = Inr emptyResult \<longleftrightarrow> List.map_filter (\<lambda>x. x) (reconcile_errors c rs s w) = []"
    using doReconcile_loop_of [OF assms] by (metis Inl_Inr_False)
  then show ?thesis by (simp add: map_filter_empty_iff some_failed_def list_all_iff list_ex_iff)
qed

lemma absent_failed_some: "absent_failed rs es \<Longrightarrow> some_failed es"
  by (auto simp: absent_failed_def some_failed_def list_ex_iff dest: set_zip_rightD)

lemma ready_state_iff:
  assumes "distinct (map resource_id rs)" and "s_descendants s = []" and "doReconcile c rs s w = (r, s', w')"
  shows "DetermineReconciliationState s' rs = StateReady \<longleftrightarrow> \<not> s_invalidConfig s \<and> r = Inr emptyResult"
proof (cases "s_invalidConfig s")
  case True
  obtain errs where l: "doReconcile_loop c rs s w [] emptyResult = (errs, emptyResult, s', w')"
    using doReconcile_loop_of [OF assms(3)] by metis
  with loop_scope [OF l] True show ?thesis by (simp add: DetermineReconciliationState_def)
next
  case False
  with state_of_run [OF assms(1, 2) False assms(3)] succeeded_iff [OF assms(3)] show ?thesis
    using absent_failed_some by auto
qed

lemma newStatus_fields:
  assumes "newStatus now s original rs = Some st"
  shows "st_ready st \<longleftrightarrow> DetermineReconciliationState s rs = StateReady"
    and "st_phase st = Some (determinePhase (DetermineReconciliationState s rs))"
    and "BuildConditions now (s_authPolicy s) (DetermineReconciliationState s rs) (s_validationErrorMessage s)
      (s_descendants s) rs (st_conditions (ap_status original)) = Some (st_conditions st)"
  using assms by (cases "DetermineReconciliationState s rs"; auto simp: newStatus_def Let_def bind_eq_Some_conv)+

section \<open>Conditions\<close>

text \<open>Conditions built at one time that are logically equal are equal.\<close>

lemma preserve_cong:
  assumes "isLogicallyEqualCondition (preserveTransitionTime ex a) (preserveTransitionTime ex b)"
    and "sc_lastTransitionTime a = sc_lastTransitionTime b"
  shows "preserveTransitionTime ex a = preserveTransitionTime ex b"
proof -
  have "a = b"
    using assms preserve_equal [of ex a] preserve_equal [of ex b] by (simp add: isLogicallyEqualCondition_def)
  then show ?thesis by simp
qed

lemma equal_with_time:
  "isLogicallyEqualCondition e c \<Longrightarrow> c\<lparr>sc_lastTransitionTime := sc_lastTransitionTime e\<rparr> = e"
  by (cases e; cases c) (simp add: isLogicallyEqualCondition_def)

lemma preserve_found:
  assumes "x \<in> set ex" and "isLogicallyEqualCondition x c"
    and "\<And>y. y \<in> set ex \<Longrightarrow> isLogicallyEqualCondition y c \<Longrightarrow> y = x"
  shows "preserveTransitionTime ex c = x"
  using assms
proof (induction ex)
  case (Cons e ex)
  show ?case
  proof (cases "isLogicallyEqualCondition e c")
    case True
    then have "e = x" using Cons.prems(3) [of e] by simp
    moreover have "preserveTransitionTime (e # ex) c = e" using True by (simp add: equal_with_time)
    ultimately show ?thesis by (rule trans [rotated])
  next
    case False
    then have "x \<in> set ex" using Cons.prems(1, 2) by auto
    then have "preserveTransitionTime ex c = x" by (rule Cons.IH) (simp_all add: Cons.prems(2, 3))
    with False show ?thesis by simp
  qed
qed simp

definition at_time :: "nat \<Rightarrow> statusCondition \<Rightarrow> statusCondition" where
  "at_time now c = c\<lparr>sc_lastTransitionTime := now\<rparr>"

text \<open>Rebuilding at a later time what was built gives the same conditions.\<close>

lemma rebuild_same:
  assumes "ex' = map (\<lambda>c. preserveTransitionTime ex (at_time now c)) cs"
  shows "map (\<lambda>c. preserveTransitionTime ex' (at_time now' c)) cs = ex'"
proof -
  have "preserveTransitionTime ex' (at_time now' c) = preserveTransitionTime ex (at_time now c)" if "c \<in> set cs" for c
  proof (rule preserve_found)
    let ?x = "preserveTransitionTime ex (at_time now c)"
    show "?x \<in> set ex'" using that assms by auto
    show eq: "isLogicallyEqualCondition ?x (at_time now' c)"
      using preserve_equal [of ex "at_time now c"] by (simp add: isLogicallyEqualCondition_def at_time_def)
    fix y assume "y \<in> set ex'" and y: "isLogicallyEqualCondition y (at_time now' c)"
    then obtain d where d: "y = preserveTransitionTime ex (at_time now d)" using assms by auto
    have "isLogicallyEqualCondition y ?x" using y eq by (simp add: isLogicallyEqualCondition_def)
    then show "y = ?x" unfolding d by (rule preserve_cong) (simp add: at_time_def)
  qed
  then show ?thesis using assms by simp
qed

text \<open>The conditions of a status before their times are looked up.\<close>

definition bareConditions ::
  "authPolicy \<Rightarrow> reconciliationState \<Rightarrow> string option \<Rightarrow> 'o descendant list \<Rightarrow> resourceReconciler list \<Rightarrow> statusCondition list" where
  "bareConditions ap st msg descendants resources =
     (case BuildAuthPolicyCondition 0 ap st msg [] of None \<Rightarrow> [] | Some c \<Rightarrow> [c]) @
     map (descendantCondition 0) descendants @
     map (missingCondition 0)
       (filter (\<lambda>rf. \<not> IsResourceNil rf \<and> resource_id rf \<notin> set (map d_id descendants)) resources)"

lemma BuildConditions_bare:
  assumes "BuildConditions now ap st msg descendants resources ex = Some cs"
  shows "cs = map (\<lambda>c. preserveTransitionTime ex (at_time now c)) (bareConditions ap st msg descendants resources)"
proof -
  have "at_time now (descendantCondition 0 d) = descendantCondition now d" for d :: "'a descendant"
    by (simp add: at_time_def descendantCondition_def mkCondition_def split: option.splits)
  moreover have "at_time now (missingCondition 0 r) = missingCondition now r" for r
    by (simp add: at_time_def missingCondition_def mkCondition_def)
  moreover have "BuildAuthPolicyCondition now ap st msg ex =
      map_option (\<lambda>c. preserveTransitionTime ex (at_time now c)) (BuildAuthPolicyCondition 0 ap st msg [])"
    by (simp add: BuildAuthPolicyCondition_def at_time_def mkCondition_def Let_def option.map_comp comp_def
        split: reconciliationState.splits option.splits)
  ultimately show ?thesis
    using assms by (auto simp: BuildConditions_def bareConditions_def BuildDescendantConditions_def
        BuildMissingResourceConditions_def comp_def split: option.splits)
qed

section \<open>No panics\<close>

lemma resolved_credentials:
  "ResolveOAuthCredentials rd ap = Inr credentials \<Longrightarrow> autoLoginEnabled ap \<Longrightarrow> spec_oauthCredentials (ap_spec ap) \<noteq> None \<Longrightarrow>
     cr_clientID credentials \<noteq> None \<and> cr_clientSecret credentials \<noteq> None"
  by (auto simp: ResolveOAuthCredentials_def Let_def split: option.splits sum.splits if_splits)

lemma resolveAuthPolicy_returns: "resolveAuthPolicy env w ap \<noteq> None"
proof (cases "ResolveDiscoveryDocument (ce_visit env) (ce_getDocument env) ap")
  case (Inl e)
  then show ?thesis by (simp add: resolveAuthPolicy_def split: sum.splits)
next
  case (Inr uris)
  obtain cfg where "ResolveAutoLoginConfig ap uris = Some cfg" using resolve_autologin_total by blast
  with Inr show ?thesis by (simp add: resolveAuthPolicy_def split: sum.splits)
qed

lemma resolved_scope:
  assumes "resolveAuthPolicy env w ap = Some (Inr s)" and "\<And>m. mset (ce_visit env m) = mset m"
  shows "s_authPolicy s = ap" and "s_descendants s = []"
    and "\<exists>uri doc. ce_getDocument env uri = Inr doc \<and> dd_tokenEndpoint doc = Some (idp_tokenURI (s_identityProviderUris s)) \<and>
      uri_ok (idp_tokenURI (s_identityProviderUris s)) \<and>
      idp_authorizationURI (s_identityProviderUris s) = (case dd_authorizationEndpoint doc of None \<Rightarrow> [] | Some u \<Rightarrow> u) \<and>
      idp_endSessionURI (s_identityProviderUris s) = dd_endSessionEndpoint doc"
    and "autoLoginEnabled ap \<Longrightarrow> crd_spec_autologin_ok (ap_spec ap) \<Longrightarrow> credentials_given s"
    and "ResolveAutoLoginConfig ap (s_identityProviderUris s) = Some (s_autoLoginConfig s)"
    and "ResolveOAuthCredentials (ce_reader env w) ap = Inr (s_oauthCredentials s)"
proof -
  let ?audiences = "ResolveAudiences (ce_reader env w) (ap_namespace ap) (spec_allowedAudiences (ap_spec ap))"
  obtain credentials where cr: "ResolveOAuthCredentials (ce_reader env w) ap = Inr credentials"
    using assms(1) by (cases "ResolveOAuthCredentials (ce_reader env w) ap") (auto simp: resolveAuthPolicy_def)
  obtain uris where ur: "ResolveDiscoveryDocument (ce_visit env) (ce_getDocument env) ap = Inr uris"
    using assms(1) cr by (cases "ResolveDiscoveryDocument (ce_visit env) (ce_getDocument env) ap")
      (auto simp: resolveAuthPolicy_def)
  obtain cfg where cf: "ResolveAutoLoginConfig ap uris = Some cfg" using resolve_autologin_total by blast
  obtain audiences where au: "?audiences = Inr audiences"
    using assms(1) cr ur cf by (cases ?audiences) (auto simp: resolveAuthPolicy_def)
  have "s = \<lparr>s_authPolicy = ap, s_audiences = audiences, s_autoLoginConfig = cfg,
      s_oauthCredentials = credentials, s_identityProviderUris = uris, s_descendants = [],
      s_invalidConfig = False, s_validationErrorMessage = None\<rparr>"
    using assms(1) cr ur cf au by (simp add: resolveAuthPolicy_def)
  then have s: "s_authPolicy s = ap" "s_descendants s = []" "s_oauthCredentials s = credentials"
      "s_identityProviderUris s = uris" "s_autoLoginConfig s = cfg"
    by simp_all
  show "s_authPolicy s = ap" "s_descendants s = []" by (rule s(1), rule s(2))
  show "ResolveAutoLoginConfig ap (s_identityProviderUris s) = Some (s_autoLoginConfig s)" using cf s by simp
  show "ResolveOAuthCredentials (ce_reader env w) ap = Inr (s_oauthCredentials s)" using cr s by simp
  show "\<exists>uri doc. ce_getDocument env uri = Inr doc \<and> dd_tokenEndpoint doc = Some (idp_tokenURI (s_identityProviderUris s)) \<and>
      uri_ok (idp_tokenURI (s_identityProviderUris s)) \<and>
      idp_authorizationURI (s_identityProviderUris s) = (case dd_authorizationEndpoint doc of None \<Rightarrow> [] | Some u \<Rightarrow> u) \<and>
      idp_endSessionURI (s_identityProviderUris s) = dd_endSessionEndpoint doc"
    using ur s(4) unfolding resolve_discovery_Inr [OF assms(2)] by (fastforce simp: urisToValidate_def)
  show "credentials_given s" if "autoLoginEnabled ap" "crd_spec_autologin_ok (ap_spec ap)"
    using resolved_credentials [OF cr] s(3) that
    by (auto simp: credentials_given_def crd_spec_autologin_ok_def autoLoginEnabled_def split: option.splits)
qed

lemma validateAuthPolicy_frame [simp]:
  "s_authPolicy (validateAuthPolicy s) = s_authPolicy s" "s_descendants (validateAuthPolicy s) = s_descendants s"
  "s_oauthCredentials (validateAuthPolicy s) = s_oauthCredentials s"
  "s_identityProviderUris (validateAuthPolicy s) = s_identityProviderUris s"
  "s_autoLoginConfig (validateAuthPolicy s) = s_autoLoginConfig s"
  by (simp_all add: validateAuthPolicy_def split: sum.splits)

lemma validateAuthPolicy_message:
  "s_invalidConfig (validateAuthPolicy s) \<Longrightarrow> s_validationErrorMessage (validateAuthPolicy s) \<noteq> None"
  by (simp add: validateAuthPolicy_def split: sum.splits)

lemma newStatus_total:
  assumes "s_invalidConfig s \<Longrightarrow> s_validationErrorMessage s \<noteq> None"
  shows "\<exists>st. newStatus now s original rs = Some st"
proof (cases "s_invalidConfig s")
  case True
  with assms show ?thesis
    by (auto simp: newStatus_def DetermineReconciliationState_def BuildConditions_def BuildAuthPolicyCondition_def Let_def)
next
  case False
  then show ?thesis
    by (auto simp: newStatus_def DetermineReconciliationState_def BuildConditions_def BuildAuthPolicyCondition_def Let_def)
qed

text \<open>
  What the control loop reads from the API server and from providers: the texts of policies and of
  discovery documents are decoded JSON, hence valid UTF-8; the port of a token endpoint has to fit an
  integer and its decoded host has to be valid UTF-8.  The data of a secret are any bytes, so that the
  client id is a requirement of its own.
\<close>

definition option_texts :: "string option \<Rightarrow> string list" where
  "option_texts t = (case t of None \<Rightarrow> [] | Some u \<Rightarrow> [u])"

definition policy_texts :: "authPolicy \<Rightarrow> string list" where
  "policy_texts ap =
     matcher_texts (IgnoreAuthMatchers (spec_ignoreAuthRules (ap_spec ap))) @
     matcher_texts (GetRequestMatchers (spec_authRules (ap_spec ap))) @
     (case spec_acceptedResources (ap_spec ap) of None \<Rightarrow> [] | Some rs \<Rightarrow> rs) @
     (case spec_autoLogin (ap_spec ap) of None \<Rightarrow> []
      | Some al \<Rightarrow> option_texts (al_loginPath al) @ option_texts (al_redirectPath al) @ option_texts (al_logoutPath al) @
          al_scopes al @ map fst (al_loginParams al))"

definition document_ok :: "discoveryDocument \<Rightarrow> bool" where
  "document_ok doc \<longleftrightarrow>
     list_all utf8_valid (option_texts (dd_authorizationEndpoint doc) @ option_texts (dd_tokenEndpoint doc) @
       option_texts (dd_endSessionEndpoint doc)) \<and>
     list_all (\<lambda>t. uri_ok t \<longrightarrow> token_port_ok t \<and> utf8_valid (token_host t)) (option_texts (dd_tokenEndpoint doc))"

definition client_id_utf8 :: "clusterReader \<Rightarrow> authPolicy \<Rightarrow> bool" where
  "client_id_utf8 rd ap \<longleftrightarrow>
     (case ResolveOAuthCredentials rd ap of Inl _ \<Rightarrow> True
      | Inr credentials \<Rightarrow> list_all utf8_valid (option_texts (cr_clientID credentials)))"

definition policy_ok :: "'w controllerEnv \<Rightarrow> authPolicy \<Rightarrow> bool" where
  "policy_ok env ap \<longleftrightarrow>
     crd_spec_autologin_ok (ap_spec ap) \<and> list_all utf8_valid (policy_texts ap) \<and>
     (\<forall>w. client_id_utf8 (ce_reader env w) ap)"

lemma deny_redirect_texts:
  "set (matcher_texts (DenyRedirectMatchers rs)) \<subseteq> set (matcher_texts (GetRequestMatchers rs))"
  by (auto simp: matcher_texts_def DenyRedirectMatchers_def GetRequestMatchers_def split: option.splits)

lemma SetSaneDefaults_fields:
  "alc_loginParams (SetSaneDefaults a al) = alc_loginParams a" "alc_scopes (SetSaneDefaults a al) = alc_scopes a"
  "alc_loginPath (SetSaneDefaults a al) = alc_loginPath a"
  "alc_redirectPath (SetSaneDefaults a al) \<in> {''/oauth2/callback''} \<union> set (option_texts (al_redirectPath al))"
  "alc_logoutPath (SetSaneDefaults a al) \<in> {''/logout''} \<union> set (option_texts (al_logoutPath al))"
  by (auto simp: SetSaneDefaults_def Let_def option_texts_def split: option.splits)

text \<open>The texts of a resolved scope come from the policy and the document.\<close>

lemma resolved_texts:
  assumes "resolveAuthPolicy env w ap = Some (Inr s)" and "\<And>m. mset (ce_visit env m) = mset m"
    and "policy_ok env ap" and "\<And>uri doc. ce_getDocument env uri = Inr doc \<Longrightarrow> document_ok doc"
    and "autoLoginEnabled ap"
  shows "list_all utf8_valid (filter_texts s)"
proof -
  note facts = resolved_scope [OF assms(1, 2)]
  obtain doc where "document_ok doc"
    and doc: "dd_tokenEndpoint doc = Some (idp_tokenURI (s_identityProviderUris s))"
    "idp_authorizationURI (s_identityProviderUris s) = (case dd_authorizationEndpoint doc of None \<Rightarrow> [] | Some u \<Rightarrow> u)"
    "idp_endSessionURI (s_identityProviderUris s) = dd_endSessionEndpoint doc"
    using facts(3) assms(4) by blast
  then have uris: "utf8_valid (idp_tokenURI (s_identityProviderUris s))" "utf8_valid (idp_authorizationURI (s_identityProviderUris s))"
    "list_all utf8_valid (option_texts (idp_endSessionURI (s_identityProviderUris s)))"
    by (auto simp: document_ok_def option_texts_def split: option.splits)
  obtain al where al: "spec_autoLogin (ap_spec ap) = Some al" "al_enabled al"
    using assms(5) by (auto simp: autoLoginEnabled_def split: option.splits)
  let ?cfg = "s_autoLoginConfig s"
  obtain a script where run: "GenerateLuaScript ap (SetSaneDefaults a al) (s_identityProviderUris s) = Some script"
      "?cfg = (SetSaneDefaults a al)\<lparr>alc_luaScript := script\<rparr>"
    and a: "alc_loginParams a = al_loginParams al" "alc_scopes a = al_scopes al" "alc_loginPath a = al_loginPath al"
    using facts(5) al by (fastforce simp: ResolveAutoLoginConfig_def Let_def)
  let ?cfg0 = "SetSaneDefaults a al"
  note cfg = SetSaneDefaults_fields [of a al, unfolded a]
  have policy: "list_all utf8_valid (policy_texts ap)" using assms(3) by (simp add: policy_ok_def)
  have login: "utf8_valid (alc_redirectPath ?cfg0)" "utf8_valid (alc_logoutPath ?cfg0)"
    "list_all utf8_valid (option_texts (alc_loginPath ?cfg0))"
    using cfg policy al(1) by (auto simp: policy_texts_def list_all_iff)
  have "list_all utf8_valid (matcher_texts (RequireAuthMatchers (spec_authRules (ap_spec ap)) ?cfg0))"
    using login policy
    by (auto simp: policy_texts_def RequireAuthMatchers_def matcher_texts_def option_texts_def list_all_iff split: option.splits)
  moreover have "list_all utf8_valid (matcher_texts (DenyRedirectMatchers (spec_authRules (ap_spec ap))))"
    using policy deny_redirect_texts [of "spec_authRules (ap_spec ap)"] by (auto simp: policy_texts_def list_all_iff)
  ultimately have "utf8_valid script"
    using uris policy al cfg(1)
    by (intro script_valid [OF run(1)])
      (auto simp: script_texts_def policy_texts_def option_texts_def split: option.splits)
  then show ?thesis
    using uris login policy al cfg(2) facts(1)
    by (auto simp: run(2) filter_texts_def sidecar_texts_def policy_texts_def option_texts_def split: option.splits)
qed

lemma finish_no_panic:
  assumes "resolveAuthPolicy env w ap = Some (Inr s)" and "\<And>m. mset (ce_visit env m) = mset m"
    and "policy_ok env ap" and "\<And>uri doc. ce_getDocument env uri = Inr doc \<Longrightarrow> document_ok doc"
    and "\<And>v. pb_utf8 v \<Longrightarrow> ge_pbValid (ce_gen env) v"
  shows "fst (finishReconcile env original (validateAuthPolicy s) g w') \<noteq> Panicked"
proof -
  let ?s = "validateAuthPolicy s"
  note facts = resolved_scope [OF assms(1, 2)]
  have token: "token_port_ok (idp_tokenURI (s_identityProviderUris s))"
    "utf8_valid (token_host (idp_tokenURI (s_identityProviderUris s)))"
    using facts(3) assms(4) by (fastforce simp: document_ok_def option_texts_def)+
  have "credentials_given ?s \<and> token_port_ok (idp_tokenURI (s_identityProviderUris ?s)) \<and>
      patches_encodable (ce_gen env) ?s" if "autoLoginActive ?s"
  proof -
    have on: "autoLoginEnabled ap"
      using that facts(1) by (auto simp: autoLoginActive_def autoLoginEnabled_def split: option.splits)
    then have given: "credentials_given s" using facts(4) assms(3) by (simp add: policy_ok_def)
    then obtain clientID where clientID: "cr_clientID (s_oauthCredentials s) = Some clientID"
      by (auto simp: credentials_given_def)
    have "client_id_utf8 (ce_reader env w) ap" using assms(3) by (simp add: policy_ok_def)
    then have "utf8_valid clientID" using facts(6) clientID by (simp add: client_id_utf8_def option_texts_def)
    moreover have "filter_texts ?s = filter_texts s" by (simp add: filter_texts_def sidecar_texts_def)
    ultimately have "patches_encodable (ce_gen env) ?s"
      using resolved_texts [OF assms(1-4) on] clientID token
      by (intro patches_encodable_utf8 [OF assms(5), of _ clientID]) simp_all
    with given token show ?thesis by (simp add: credentials_given_def)
  qed
  then have "\<exists>rs. ControllerResources (ce_gen env) ?s = Inr rs" by (rule resources_total)
  then obtain rs where rs: "ControllerResources (ce_gen env) ?s = Inr rs" by blast
  obtain r s1 w1 where d: "doReconcile (ce_client env) rs ?s w' = (r, s1, w1)" by (metis prod_cases3)
  obtain errs where l: "doReconcile_loop (ce_client env) rs ?s w' [] emptyResult = (errs, emptyResult, s1, w1)"
    using doReconcile_loop_of [OF d] by metis
  have "s_invalidConfig s1 \<Longrightarrow> s_validationErrorMessage s1 \<noteq> None"
    using loop_scope [OF l] validateAuthPolicy_message by metis
  then obtain st where "newStatus (ce_now env) s1 original rs = Some st" using newStatus_total by blast
  then show ?thesis
    using rs d by (auto simp: finishReconcile_def UpdateAuthPolicyStatus_def split: sum.splits prod.splits if_splits)
qed

lemma after_no_panic:
  assumes "\<And>m. mset (ce_visit env m) = mset m" and "policy_ok env ap"
    and "\<And>uri doc. ce_getDocument env uri = Inr doc \<Longrightarrow> document_ok doc"
    and "\<And>v. pb_utf8 v \<Longrightarrow> ge_pbValid (ce_gen env) v"
  shows "fst (afterLabels env ap original g w) \<noteq> Panicked"
  using resolveAuthPolicy_returns [of env w ap] finish_no_panic [OF _ assms]
  by (auto simp: afterLabels_def Let_def split: option.splits sum.splits prod.splits)

lemma policy_ok_status: "policy_ok env (InitializeStatus ap) \<longleftrightarrow> policy_ok env ap"
proof -
  have fields: "ap_spec (InitializeStatus ap) = ap_spec ap" "ap_namespace (InitializeStatus ap) = ap_namespace ap"
    by (simp_all add: InitializeStatus_def)
  then have "autoLoginEnabled (InitializeStatus ap) = autoLoginEnabled ap" by (simp add: autoLoginEnabled_def)
  with fields have "ResolveOAuthCredentials rd (InitializeStatus ap) = ResolveOAuthCredentials rd ap"
    if "spec_oauthCredentials (ap_spec ap) = None" for rd
    using that by (simp add: ResolveOAuthCredentials_def)
  then have "client_id_utf8 rd (InitializeStatus ap) = client_id_utf8 rd ap" for rd
    using fields \<open>autoLoginEnabled (InitializeStatus ap) = autoLoginEnabled ap\<close>
    by (auto simp: client_id_utf8_def ResolveOAuthCredentials_def Let_def split: option.splits sum.splits)
  then show ?thesis by (simp add: policy_ok_def policy_texts_def fields)
qed

section \<open>A controller to run\<close>

definition example_document :: discoveryDocument where
  "example_document = \<lparr>dd_issuer = Some ''https://idp'', dd_authorizationEndpoint = Some ''https://idp/authorize'',
     dd_tokenEndpoint = Some ''https://idp/token'', dd_jwksURI = Some ''https://idp/jwks'',
     dd_endSessionEndpoint = Some ''https://idp/logout''\<rparr>"

definition example_controller :: "(objkey, k8s_object) gomap controllerEnv" where
  "example_controller =
     \<lparr>ce_gen = example_env, ce_visit = (\<lambda>m. m), ce_getDocument = (\<lambda>u. Inr example_document),
      ce_reader = (\<lambda>w. \<lparr>rd_secret = (\<lambda>ns n. Inr [(''id'', ''x''), (''secret'', ''y'')]), rd_configMap = (\<lambda>ns n. Inr [])\<rparr>),
      ce_client = store_client no_faults,
      ce_policies = \<lparr>pa_get = (\<lambda>w ns n. PolicyFound example_policy), pa_updateStatus = (\<lambda>w ap. (None, w)),
        pa_retryOnConflict = (\<lambda>f w. f w)\<rparr>,
      ce_patchPolicy = (\<lambda>w ap ap'. (Inr ap', w)),
      ce_metrics = \<lparr>me_namespaceLabels = (\<lambda>n. []), me_listPods = (\<lambda>n ls. Inr [''p1''])\<rparr>,
      ce_now = 7\<rparr>"

section \<open>Properties\<close>

text \<open>C14: no reconciliation of a stored policy panics, whatever the API calls return, when the policy
  passed the CRD's rule for the login, texts read as JSON and the client id are valid UTF-8, the
  encoder accepts patches of such texts, and token endpoints name a port that fits an integer and a
  host of valid UTF-8: the script generator, the nil credentials and the nil validation message are
  never reached.\<close>

theorem reconcile_never_panics:
  assumes "\<And>w ns n ap. pa_get (ce_policies env) w ns n = PolicyFound ap \<Longrightarrow> policy_ok env ap"
    and "\<And>m. mset (ce_visit env m) = mset m"
    and "\<And>uri doc. ce_getDocument env uri = Inr doc \<Longrightarrow> document_ok doc"
    and "\<And>v. pb_utf8 v \<Longrightarrow> ge_pbValid (ce_gen env) v"
  shows "fst (Reconcile env namespace name g w) \<noteq> Panicked"
proof (cases "pa_get (ce_policies env) w namespace name")
  case (PolicyFound stored)
  then have "policy_ok env (InitializeStatus stored)" using assms(1) by (simp add: policy_ok_status)
  note after = after_no_panic [OF assms(2) this assms(3, 4)]
  show ?thesis
    using PolicyFound after by (simp add: Reconcile_def Let_def split: sum.splits prod.splits)
qed (simp_all add: Reconcile_def)

theorem reconcile_never_panics_witness: "fst (Reconcile example_controller ''ns'' ''demo'' [] []) \<noteq> Panicked"
proof (rule reconcile_never_panics)
  have "crd_spec_autologin_ok (ap_spec example_policy)" "list_all utf8_valid (policy_texts example_policy)"
    "client_id_utf8 (ce_reader example_controller []) example_policy" by code_simp+
  then show "policy_ok example_controller ap"
    if "pa_get (ce_policies example_controller) w ns n = PolicyFound ap" for w ns n ap
    using that by (auto simp: policy_ok_def example_controller_def)
  have "document_ok example_document" by code_simp
  then show "document_ok doc" if "ce_getDocument example_controller uri = Inr doc" for uri doc
    using that by (simp add: example_controller_def)
qed (simp_all add: example_controller_def example_env_def)

text \<open>C21: the state derived after a reconciliation of a valid policy is exact: ready when no resource
  failed, pending when the reading or the deletion of an unwanted resource failed, and failed when only
  wanted resources failed.\<close>

theorem reconciliation_state_exact:
  assumes "ControllerResources env s = Inr rs" and "s_descendants s = []" and "\<not> s_invalidConfig s"
    and "doReconcile c rs s w = (r, s', w')"
  shows "DetermineReconciliationState s' rs =
    (if absent_failed rs (reconcile_errors c rs s w) then StatePending
     else if some_failed (reconcile_errors c rs s w) then StateFailed else StateReady)"
  by (rule state_of_run [OF resources_distinct(2) [OF assms(1)] assms(2-4)])

theorem reconciliation_state_exact_witness:
  "\<exists>rs s'. ControllerResources example_env example_run = Inr rs \<and>
     fst (snd (doReconcile (store_client no_faults) rs example_run [])) = s' \<and>
     DetermineReconciliationState s' rs = StateReady"
proof -
  obtain rs s' w' where run: "ControllerResources example_env example_run = Inr rs"
    "doReconcile (store_client no_faults) rs example_run [] = (Inr emptyResult, s', w')"
    by (rule example_reconciled)
  have "\<not> some_failed (reconcile_errors (store_client no_faults) rs example_run [])"
    using succeeded_iff [OF run(2)] by simp
  then have "DetermineReconciliationState s' rs = StateReady"
    using reconciliation_state_exact [OF run(1) _ _ run(2)] absent_failed_some by (auto simp: example_run_def)
  then show ?thesis using run by auto
qed

text \<open>C15: the status written after a reconciliation says ready exactly when the configuration is valid
  and no resource failed; then the phase is Ready and every resource is settled in the cluster.\<close>

theorem ready_iff_reconciled:
  assumes "k8s_api c objects" and "ControllerResources env s = Inr rs" and "selector_wf s"
    and "s_descendants s = []" and "doReconcile c rs s w = (r, s', w')"
    and "newStatus now s' original rs = Some st"
  shows "(st_ready st \<longleftrightarrow> \<not> s_invalidConfig s \<and> r = Inr emptyResult) \<and>
    (st_ready st \<longrightarrow> st_phase st = Some PhaseReady \<and> list_all (settled_in (c_isControlledBy c) (objects w') s) rs)"
proof -
  note ready = ready_state_iff [OF resources_distinct(2) [OF assms(2)] assms(4, 5)]
  have "list_all (settled_in (c_isControlledBy c) (objects w') s) rs" if "r = Inr emptyResult"
    by (rule doReconcile_settles [OF assms(1-3)]) (use assms(5) that in simp)
  then show ?thesis using newStatus_fields(1, 2) [OF assms(6)] ready by auto
qed

theorem ready_iff_reconciled_witness:
  "\<exists>rs s' st. ControllerResources example_env example_run = Inr rs \<and>
     fst (snd (doReconcile (store_client no_faults) rs example_run [])) = s' \<and>
     newStatus 7 s' example_policy rs = Some st \<and> st_ready st"
proof -
  obtain rs s' w' where run: "ControllerResources example_env example_run = Inr rs"
    "doReconcile (store_client no_faults) rs example_run [] = (Inr emptyResult, s', w')"
    by (rule example_reconciled)
  obtain errs where l: "doReconcile_loop (store_client no_faults) rs example_run [] [] emptyResult = (errs, emptyResult, s', w')"
    using doReconcile_loop_of [OF run(2)] by metis
  have valid: "\<not> s_invalidConfig example_run" "s_descendants example_run = []" by (simp_all add: example_run_def)
  obtain st where st: "newStatus 7 s' example_policy rs = Some st"
    using newStatus_total [of s' 7 example_policy rs] loop_scope [OF l] valid by auto
  note ready = ready_iff_reconciled [OF store.k8s_api_axioms [of no_faults] run(1) example_wf valid(2) run(2) st]
  then have "st_ready st" using valid(1) by blast
  then show ?thesis using run st by auto
qed

text \<open>Rebuilding the conditions of an unchanged outcome from the conditions it was given before
  leaves them as they are, whatever the time is: an unchanged condition keeps its transition time.\<close>

lemma conditions_stable:
  assumes "BuildConditions now ap st msg descendants resources existing = Some cs"
  shows "BuildConditions now' ap st msg descendants resources cs = Some cs"
proof -
  have "BuildAuthPolicyCondition now' ap st msg cs \<noteq> None"
    using assms by (auto simp: BuildConditions_def BuildAuthPolicyCondition_def Let_def split: reconciliationState.splits)
  then obtain cs' where cs': "BuildConditions now' ap st msg descendants resources cs = Some cs'"
    by (auto simp: BuildConditions_def)
  with rebuild_same [OF BuildConditions_bare [OF assms], of now'] BuildConditions_bare [OF cs'] show ?thesis by simp
qed

text \<open>Validation marks a policy invalid exactly when one of its rules has a path outside the path
  language, and then records a message.\<close>

lemma validation_marks_invalid:
  "(s_invalidConfig (validateAuthPolicy s) \<longleftrightarrow> \<not> list_all accepted_path (GetPaths (s_authPolicy s))) \<and>
   (s_invalidConfig (validateAuthPolicy s) \<longrightarrow> s_validationErrorMessage (validateAuthPolicy s) \<noteq> None)"
proof -
  have "ValidatePaths (GetPaths (s_authPolicy s)) = Inr () \<longleftrightarrow> list_all accepted_path (GetPaths (s_authPolicy s))"
    by (auto simp: ValidatePaths_Inr_iff validatePath_Inr_iff list_all_iff)
  then show ?thesis
    using validateAuthPolicy_message [of s] by (cases "ValidatePaths (GetPaths (s_authPolicy s))") (auto simp: validateAuthPolicy_def)
qed

text \<open>C30: the log of a reconciliation stays well-formed whatever fails: it has one entry at most for
  each object, and every entry has either an error or a success message.\<close>

theorem descendants_well_formed:
  assumes "s_descendants s = []" and "doReconcile c rs s w = (r, s', w')"
  shows "log_wf s'"
proof -
  obtain errs where l: "doReconcile_loop c rs s w [] emptyResult = (errs, emptyResult, s', w')"
    using doReconcile_loop_of [OF assms(2)] by metis
  show ?thesis by (rule loop_log_wf [OF l]) (simp add: log_wf_def descendant_ids_def assms(1))
qed

theorem descendants_well_formed_witness:
  "\<exists>rs. ControllerResources example_env example_run = Inr rs \<and>
     log_wf (fst (snd (doReconcile (store_client (\<lambda>v k. Some ''down'')) rs example_run [])))"
proof -
  obtain rs where rs: "ControllerResources example_env example_run = Inr rs" using example_resources by blast
  obtain r s' w' where d: "doReconcile (store_client (\<lambda>v k. Some ''down'')) rs example_run [] = (r, s', w')"
    by (metis prod_cases3)
  have "log_wf s'" by (rule descendants_well_formed [OF _ d]) (simp add: example_run_def)
  with rs d show ?thesis by auto
qed

end
