(* ===== verification/OperatorRuns.thy ===== *)
theory OperatorRuns
  imports Convergence
begin

text \<open>
  The operator over time: reconciliations of several policies in any order and any number, with
  errors in between.  The run is a step relation, and its invariants are proved by rule induction:
  foreign objects stay as they are, and policies do not interfere.
\<close>

section \<open>Names do not collide\<close>

text \<open>A scope as the resolver makes it, with the secret named after the policy.\<close>

definition secret_named :: "objkey scope \<Rightarrow> bool" where
  "secret_named s \<longleftrightarrow> alc_envoySecretName (s_autoLoginConfig s) = EnvoySecretName (ap_name (s_authPolicy s))"

definition policy_id :: "objkey scope \<Rightarrow> string \<times> string" where
  "policy_id s = (ap_namespace (s_authPolicy s), ap_name (s_authPolicy s))"

text \<open>The suffixes of the three kinds of authorization policies differ near their ends.\<close>

lemma policy_names_distinct:
  "DenyPolicyName a \<noteq> IgnorePolicyName b" "DenyPolicyName a \<noteq> RequirePolicyName b"
  "IgnorePolicyName a \<noteq> RequirePolicyName b"
proof -
  show "DenyPolicyName a \<noteq> IgnorePolicyName b" "DenyPolicyName a \<noteq> RequirePolicyName b"
    by (auto simp: name_defs dest: arg_cong [where f = last])
  show "IgnorePolicyName a \<noteq> RequirePolicyName b"
    by (auto simp: name_defs dest: arg_cong [where f = "\<lambda>x. rev x ! 8"])
qed

lemma policy_names_inject [simp]:
  "DenyPolicyName a = DenyPolicyName b \<longleftrightarrow> a = b" "IgnorePolicyName a = IgnorePolicyName b \<longleftrightarrow> a = b"
  "RequirePolicyName a = RequirePolicyName b \<longleftrightarrow> a = b" "EnvoyFilterName a = EnvoyFilterName b \<longleftrightarrow> a = b"
  "EnvoySecretName a = EnvoySecretName b \<longleftrightarrow> a = b"
  by (simp_all add: name_defs)

lemma keys_disjoint:
  assumes "secret_named s" and "secret_named s'" and "policy_id s \<noteq> policy_id s'"
  shows "set (policy_keys s) \<inter> set (policy_keys s') = {}"
  using assms policy_names_distinct policy_names_distinct [symmetric]
  by (auto simp: policy_keys_def policy_id_def secret_named_def Let_def)

section \<open>Runs of the operator\<close>

text \<open>
  One step reconciles one of the scopes, with its own outcome: a scope changes between runs when its
  policy does, so that the scopes of a run are a set.
\<close>

inductive operator_run ::
  "'w client \<Rightarrow> generatorEnv set \<Rightarrow> objkey scope set \<Rightarrow> 'w \<Rightarrow> 'w \<Rightarrow> bool"
  for c :: "'w client" and envs :: "generatorEnv set" and scopes :: "objkey scope set" where
  idle: "operator_run c envs scopes w w"
| reconcile: "\<lbrakk>operator_run c envs scopes w w1; s \<in> scopes; env \<in> envs; ControllerResources env s = Inr rs;
    doReconcile c rs s w1 = (r, s', w2)\<rbrakk> \<Longrightarrow> operator_run c envs scopes w w2"

lemma reconcile_effect:
  assumes "k8s_api c objects" and "ControllerResources env s = Inr rs" and "selector_wf s"
    and "doReconcile c rs s w = (r, s', w')"
  shows "k \<notin> set (policy_keys s) \<Longrightarrow> objects w' k = objects w k"
    and "objects w k = Some o' \<Longrightarrow> \<not> c_isControlledBy c o' (s_authPolicy s) \<Longrightarrow> objects w' k = Some o'"
proof -
  obtain errs where l: "doReconcile_loop c rs s w [] emptyResult = (errs, emptyResult, s', w')"
    using doReconcile_loop_of [OF assms(4)] by metis
  note law = resources_lawful [OF assms(2, 3)]
  show "k \<notin> set (policy_keys s) \<Longrightarrow> objects w' k = objects w k"
    using k8s_api.loop_frame [OF assms(1) law l, of k] resource_keys [OF assms(2)] by simp
  show "objects w k = Some o' \<Longrightarrow> \<not> c_isControlledBy c o' (s_authPolicy s) \<Longrightarrow> objects w' k = Some o'"
    using k8s_api.loop_unowned [OF assms(1) law l, of k] by blast
qed

lemma run_frames:
  assumes "operator_run c envs scopes w w'" and "k8s_api c objects" and "\<forall>s \<in> scopes. selector_wf s"
  shows "\<forall>s \<in> scopes. k \<notin> set (policy_keys s) \<Longrightarrow> objects w' k = objects w k"
    and "\<forall>s \<in> scopes. \<not> c_isControlledBy c o' (s_authPolicy s) \<Longrightarrow> objects w k = Some o' \<Longrightarrow> objects w' k = Some o'"
  using assms(1)
proof (induction rule: operator_run.induct)
  case (reconcile w w1 s env rs r s' w2)
  note effect = reconcile_effect [OF assms(2) reconcile.hyps(4) _ reconcile.hyps(5)]
  { case 1 then show ?case using reconcile.IH(1) effect(1) assms(3) reconcile.hyps(2) by simp }
  { case 2 then show ?case using reconcile.IH(2) effect(2) assms(3) reconcile.hyps(2) by simp }
qed simp_all

lemma settled_objs_cong:
  "objs (resource_key s r) = objs' (resource_key s r) \<Longrightarrow> settled_in ctl objs s r = settled_in ctl objs' s r"
  by (simp add: settled_in_def)

text \<open>An object that no policy controls.\<close>

definition foreign_object :: k8s_object where
  "foreign_object = SecretObj \<lparr>sec_meta = buildObjectMeta ''demo-envoy-secret'' ''ns'', sec_type = ''Opaque'', sec_data = []\<rparr>"

section \<open>Properties\<close>

text \<open>C18: whatever reconciliations the operator carries out, in any order and with any errors, an
  object that none of its policies controls is never changed or deleted, even one with the name of a
  resource of a policy.\<close>

theorem operator_spares_foreign:
  assumes "k8s_api c objects" and "operator_run c envs scopes w w'" and "\<forall>s \<in> scopes. selector_wf s"
    and "objects w k = Some o'" and "\<forall>s \<in> scopes. \<not> c_isControlledBy c o' (s_authPolicy s)"
  shows "objects w' k = Some o'"
  by (rule run_frames(2) [OF assms(2, 1, 3, 5, 4)])

theorem operator_spares_foreign_witness:
  "\<exists>w'. operator_run (store_client no_faults) {example_env} {example_run} [(obj_key foreign_object, foreign_object)] w' \<and>
     map_of w' (obj_key foreign_object) = Some foreign_object"
proof -
  let ?c = "store_client no_faults" and ?w = "[(obj_key foreign_object, foreign_object)]"
  obtain rs where rs: "ControllerResources example_env example_run = Inr rs" using example_resources by blast
  obtain r s' w' where d: "doReconcile ?c rs example_run ?w = (r, s', w')" by (metis prod_cases3)
  have run: "operator_run ?c {example_env} {example_run} ?w w'"
    by (rule operator_run.reconcile [OF operator_run.idle _ _ rs d]) simp_all
  have "\<not> c_isControlledBy ?c foreign_object (s_authPolicy example_run)"
    by (simp add: store_client_def foreign_object_def controller_of_def buildObjectMeta_def)
  then have "map_of w' (obj_key foreign_object) = Some foreign_object"
    using operator_spares_foreign [OF store.k8s_api_axioms [of no_faults] run] example_wf by simp
  with run show ?thesis by blast
qed

text \<open>Once the resources of a policy are settled, no reconciliations of other policies unsettle
  them: policies with different names or namespaces never share an object.\<close>

lemma policies_do_not_interfere:
  assumes "k8s_api c objects" and "ControllerResources env s = Inr rs" and "secret_named s"
    and "list_all (settled_in (c_isControlledBy c) (objects w) s) rs"
    and "operator_run c envs scopes w w'"
    and "\<forall>s' \<in> scopes. selector_wf s' \<and> secret_named s' \<and> policy_id s' \<noteq> policy_id s"
  shows "list_all (settled_in (c_isControlledBy c) (objects w') s) rs"
proof -
  have "objects w' (resource_key s r) = objects w (resource_key s r)" if "r \<in> set rs" for r
  proof (rule run_frames(1) [OF assms(5, 1)])
    have "resource_key s r \<in> set (policy_keys s)" using that resource_keys [OF assms(2)] by (metis image_eqI set_map)
    then show "\<forall>s' \<in> scopes. resource_key s r \<notin> set (policy_keys s')"
      using keys_disjoint [OF _ assms(3)] assms(6) by blast
  qed (use assms(6) in blast)
  then show ?thesis using assms(4) settled_objs_cong [of "objects w'" s _ "objects w"] by (simp add: list_all_iff)
qed

end
