(* ===== verification/PolicyCore.thy ===== *)
theory PolicyCore
  imports Watches Lifecycle OperatorRuns
begin

text \<open>
  What a reconciliation reads of a policy.  Labels and status do not matter: two policies with the
  same core are resolved and turned into resources alike.  What is read besides the policy are the
  secrets and config maps that it refers to.
\<close>

section \<open>The core of a policy\<close>

definition noStatus :: authPolicyStatus where
  "noStatus = \<lparr>st_observedGeneration = 0, st_conditions = [], st_phase = None, st_message = [], st_ready = False\<rparr>"

definition core :: "authPolicy \<Rightarrow> authPolicy" where
  "core ap = ap\<lparr>ap_labels := [], ap_status := noStatus\<rparr>"

lemma core_eqD:
  assumes "core a = core b"
  shows "ap_name a = ap_name b" "ap_namespace a = ap_namespace b" "ap_uid a = ap_uid b"
    "ap_generation a = ap_generation b" "ap_deletionTimestamp a = ap_deletionTimestamp b" "ap_spec a = ap_spec b"
    "ap_kind a = ap_kind b"
  using arg_cong [OF assms, of ap_name] arg_cong [OF assms, of ap_namespace] arg_cong [OF assms, of ap_uid]
    arg_cong [OF assms, of ap_generation] arg_cong [OF assms, of ap_deletionTimestamp] arg_cong [OF assms, of ap_spec]
    arg_cong [OF assms, of ap_kind]
  by (simp_all add: core_def)

lemma core_InitializeStatus [simp]: "core (InitializeStatus ap) = core ap"
  by (simp add: core_def InitializeStatus_def)

lemma script_core: "ap_spec ap = ap_spec ap' \<Longrightarrow> GenerateLuaScript ap cfg uris = GenerateLuaScript ap' cfg uris"
  unfolding GenerateLuaScript_def by simp

lemma resolve_core:
  assumes "core ap = core ap'"
  shows "resolveAuthPolicy env w ap' = map_option (map_sum id (\<lambda>s. s\<lparr>s_authPolicy := ap'\<rparr>)) (resolveAuthPolicy env w ap)"
proof -
  note eq = core_eqD [OF assms]
  have "ResolveOAuthCredentials rd ap = ResolveOAuthCredentials rd ap'" for rd
    unfolding ResolveOAuthCredentials_def autoLoginEnabled_def eq ..
  moreover have "ResolveDiscoveryDocument v d ap = ResolveDiscoveryDocument v d ap'" for v d
    unfolding ResolveDiscoveryDocument_def autoLoginEnabled_def policy_text_def eq ..
  moreover have "ResolveAutoLoginConfig ap uris = ResolveAutoLoginConfig ap' uris" for uris
    unfolding ResolveAutoLoginConfig_def eq script_core [OF eq(6)] ..
  ultimately show ?thesis
    using eq by (auto simp: resolveAuthPolicy_def bind_eq_Some_conv map_option_case split: sum.splits option.splits Option.bind_splits)
qed

lemma with_policy:
  "s_authPolicy (s\<lparr>s_authPolicy := ap\<rparr>) = ap" "s_audiences (s\<lparr>s_authPolicy := ap\<rparr>) = s_audiences s"
  "s_autoLoginConfig (s\<lparr>s_authPolicy := ap\<rparr>) = s_autoLoginConfig s"
  "s_oauthCredentials (s\<lparr>s_authPolicy := ap\<rparr>) = s_oauthCredentials s"
  "s_identityProviderUris (s\<lparr>s_authPolicy := ap\<rparr>) = s_identityProviderUris s"
  "s_invalidConfig (s\<lparr>s_authPolicy := ap\<rparr>) = s_invalidConfig s"
  by simp_all

lemma generators_core:
  assumes "core ap = core (s_authPolicy s)"
  shows "deny_GetDesired (s\<lparr>s_authPolicy := ap\<rparr>) meta = deny_GetDesired s meta"
    and "ignore_GetDesired (s\<lparr>s_authPolicy := ap\<rparr>) meta = ignore_GetDesired s meta"
    and "require_GetDesired nc (s\<lparr>s_authPolicy := ap\<rparr>) meta = require_GetDesired nc s meta"
    and "requestauthentication_GetDesired (s\<lparr>s_authPolicy := ap\<rparr>) meta = requestauthentication_GetDesired s meta"
    and "secret_GetDesired env (s\<lparr>s_authPolicy := ap\<rparr>) meta = secret_GetDesired env s meta"
    and "envoyfilter_GetDesired env (s\<lparr>s_authPolicy := ap\<rparr>) meta = envoyfilter_GetDesired env s meta"
proof -
  note eq = core_eqD [OF assms]
  note shared = constructBaseConditionsForDenyPolicy_def constructBaseConditions_def ConstructAcceptedResources_def
    DenyAuthorizationPolicy_def AllowAuthorizationPolicy_def mkAuthorizationPolicy_def
    GetRequireAuthRequestMatchers_def GetIgnoreAuthRequestMatchers_def with_policy eq
  show "deny_GetDesired (s\<lparr>s_authPolicy := ap\<rparr>) meta = deny_GetDesired s meta"
    unfolding deny_GetDesired_def shared ..
  show "ignore_GetDesired (s\<lparr>s_authPolicy := ap\<rparr>) meta = ignore_GetDesired s meta"
    unfolding ignore_GetDesired_def shared ..
  show "require_GetDesired nc (s\<lparr>s_authPolicy := ap\<rparr>) meta = require_GetDesired nc s meta"
    unfolding require_GetDesired_def constructSpecifiedPathsAllowRules_def constructUnspecifiedPathsAllowRule_def shared ..
  show "requestauthentication_GetDesired (s\<lparr>s_authPolicy := ap\<rparr>) meta = requestauthentication_GetDesired s meta"
    unfolding requestauthentication_GetDesired_def shared ..
  show "secret_GetDesired env (s\<lparr>s_authPolicy := ap\<rparr>) meta = secret_GetDesired env s meta"
    unfolding secret_GetDesired_def autoLoginActive_def shared ..
  show "envoyfilter_GetDesired env (s\<lparr>s_authPolicy := ap\<rparr>) meta = envoyfilter_GetDesired env s meta"
    unfolding envoyfilter_GetDesired_def autoLoginActive_def clusterPatchValue_def GetLuaScriptConfigPatch_def
      GetOAuthSidecarConfigPatchValue_def oauth_config_def shared ..
qed

lemma resources_core:
  assumes "core ap = core (s_authPolicy s)"
  shows "ControllerResources env (s\<lparr>s_authPolicy := ap\<rparr>) = ControllerResources env s"
  unfolding ControllerResources_def secretResource_def envoyFilterResource_def requestAuthenticationResource_def
    denyAuthorizationPolicyResource_def ignoreAuthorizationPolicyResource_def requireAuthorizationPolicyResource_def
    generators_core [OF assms] with_policy core_eqD [OF assms] ..

lemma validate_core:
  assumes "core ap = core (s_authPolicy s)"
  shows "validateAuthPolicy (s\<lparr>s_authPolicy := ap\<rparr>) = (validateAuthPolicy s)\<lparr>s_authPolicy := ap\<rparr>"
proof -
  have "GetPaths ap = GetPaths (s_authPolicy s)"
    using core_eqD [OF assms] by (simp add: GetPaths_def)
  then show ?thesis by (simp add: validateAuthPolicy_def split: sum.splits)
qed

section \<open>What a policy is resolved from\<close>

definition secret_refs :: "authPolicy \<Rightarrow> string list" where
  "secret_refs ap =
     (case spec_oauthCredentials (ap_spec ap) of None \<Rightarrow> [] | Some ref \<Rightarrow> [oc_secretRef ref]) @
     List.map_filter (\<lambda>a. Option.bind (aa_valueFrom a) (\<lambda>vf. map_option kr_name (vf_secretKeyRef vf)))
       (spec_allowedAudiences (ap_spec ap))"

definition configMap_refs :: "authPolicy \<Rightarrow> string list" where
  "configMap_refs ap =
     List.map_filter (\<lambda>a. Option.bind (aa_valueFrom a) (\<lambda>vf. map_option kr_name (vf_configMapKeyRef vf)))
       (spec_allowedAudiences (ap_spec ap))"

lemma audiences_reads:
  assumes "\<And>a vf ref. a \<in> set as \<Longrightarrow> aa_valueFrom a = Some vf \<Longrightarrow> vf_secretKeyRef vf = Some ref \<Longrightarrow>
      rd_secret rd ns (kr_name ref) = rd_secret rd' ns (kr_name ref)"
    and "\<And>a vf ref. a \<in> set as \<Longrightarrow> aa_valueFrom a = Some vf \<Longrightarrow> vf_configMapKeyRef vf = Some ref \<Longrightarrow>
      rd_configMap rd ns (kr_name ref) = rd_configMap rd' ns (kr_name ref)"
  shows "ResolveAudiences rd ns as = ResolveAudiences rd' ns as"
  using assms
proof (induction as)
  case (Cons a as)
  have "resolveAudienceRef rd ns vf = resolveAudienceRef rd' ns vf" if "aa_valueFrom a = Some vf" for vf
    using Cons.prems(1, 2) [of a vf] that by (simp add: resolveAudienceRef_def split: option.splits)
  moreover have "ResolveAudiences rd ns as = ResolveAudiences rd' ns as"
    by (rule Cons.IH) (metis Cons.prems list.set_intros(2))+
  ultimately show ?case by (simp split: option.splits sum.splits)
qed simp

lemma ref_in_refs:
  "a \<in> set (spec_allowedAudiences (ap_spec ap)) \<Longrightarrow> aa_valueFrom a = Some vf \<Longrightarrow> vf_secretKeyRef vf = Some ref \<Longrightarrow>
     kr_name ref \<in> set (secret_refs ap)"
  "a \<in> set (spec_allowedAudiences (ap_spec ap)) \<Longrightarrow> aa_valueFrom a = Some vf \<Longrightarrow> vf_configMapKeyRef vf = Some ref \<Longrightarrow>
     kr_name ref \<in> set (configMap_refs ap)"
  by (force simp: secret_refs_def configMap_refs_def List.map_filter_def)+

lemma resolve_reads:
  assumes "\<And>n. n \<in> set (secret_refs ap) \<Longrightarrow>
      rd_secret (ce_reader env w) (ap_namespace ap) n = rd_secret (ce_reader env w') (ap_namespace ap) n"
    and "\<And>n. n \<in> set (configMap_refs ap) \<Longrightarrow>
      rd_configMap (ce_reader env w) (ap_namespace ap) n = rd_configMap (ce_reader env w') (ap_namespace ap) n"
  shows "resolveAuthPolicy env w ap = resolveAuthPolicy env w' ap"
proof -
  have "oc_secretRef ref \<in> set (secret_refs ap)" if "spec_oauthCredentials (ap_spec ap) = Some ref" for ref
    using that by (simp add: secret_refs_def)
  then have "ResolveOAuthCredentials (ce_reader env w) ap = ResolveOAuthCredentials (ce_reader env w') ap"
    using assms(1) by (simp add: ResolveOAuthCredentials_def split: option.splits)
  moreover have "ResolveAudiences (ce_reader env w) (ap_namespace ap) (spec_allowedAudiences (ap_spec ap)) =
      ResolveAudiences (ce_reader env w') (ap_namespace ap) (spec_allowedAudiences (ap_spec ap))"
    by (rule audiences_reads) (blast intro: assms ref_in_refs)+
  ultimately show ?thesis by (simp only: resolveAuthPolicy_def)
qed

lemma refs_core: "core a = core b \<Longrightarrow> secret_refs a = secret_refs b \<and> configMap_refs a = configMap_refs b"
  using core_eqD(6) [of a b] by (simp add: secret_refs_def configMap_refs_def)

text \<open>The random bytes, the deep comparisons and the clock of one reconciliation.\<close>

definition at_run :: "'w controllerEnv \<Rightarrow> runChoices \<Rightarrow> nat \<Rightarrow> 'w controllerEnv" where
  "at_run env rb t = env\<lparr>ce_gen := (ce_gen env)\<lparr>ge_run := rb\<rparr>, ce_now := t\<rparr>"

lemma at_run_fields [simp]:
  "ce_client (at_run env rb t) = ce_client env" "ce_policies (at_run env rb t) = ce_policies env"
  "ce_reader (at_run env rb t) = ce_reader env" "ce_patchPolicy (at_run env rb t) = ce_patchPolicy env"
  "ce_visit (at_run env rb t) = ce_visit env" "ce_getDocument (at_run env rb t) = ce_getDocument env"
  "ce_gen (at_run env rb t) = (ce_gen env)\<lparr>ge_run := rb\<rparr>"
  by (simp_all add: at_run_def)

lemma resolve_at_run [simp]: "resolveAuthPolicy (at_run env rb t) w ap = resolveAuthPolicy env w ap"
  by (simp only: resolveAuthPolicy_def at_run_fields)

lemma resolved_named:
  assumes "resolveAuthPolicy env w ap = Some (Inr s)"
  shows "s_authPolicy s = ap" and "alc_envoySecretName (s_autoLoginConfig s) = EnvoySecretName (ap_name ap)"
    and "s_descendants s = []"
proof -
  have "alc_envoySecretName cfg = EnvoySecretName (ap_name ap)" if "ResolveAutoLoginConfig ap uris = Some cfg" for uris cfg
    using that by (auto simp: ResolveAutoLoginConfig_def SetSaneDefaults_def Let_def split: option.splits if_splits)
  then show "s_authPolicy s = ap" and "alc_envoySecretName (s_autoLoginConfig s) = EnvoySecretName (ap_name ap)"
    and "s_descendants s = []"
    using assms
    by (cases "ResolveAudiences (ce_reader env w) (ap_namespace ap) (spec_allowedAudiences (ap_spec ap))";
        fastforce simp: resolveAuthPolicy_def bind_eq_Some_conv split: sum.splits)+
qed

end
