(* ===== verification/Cluster.thy ===== *)
theory Cluster
  imports PolicyCore
begin

text \<open>
  The cluster around the operator: its stored objects, policies and config maps behind one view, and
  the locale of what the controller's calls promise about them.  The phases of a reconciliation follow,
  then when the objects of a policy are settled and what a well-formed cluster is.
\<close>

section \<open>The cluster\<close>

record 'w clusterView =
  cv_objects :: "'w \<Rightarrow> objkey \<Rightarrow> k8s_object option"
  cv_policies :: "'w \<Rightarrow> string \<Rightarrow> string \<Rightarrow> authPolicy option"
  cv_configMaps :: "'w \<Rightarrow> string \<Rightarrow> string \<Rightarrow> (objectMeta \<times> labels) option"
  cv_lister :: "'w \<Rightarrow> policy_lister"

definition secret_key :: "string \<Rightarrow> string \<Rightarrow> objkey" where
  "secret_key ns n = \<lparr>k_kind = ''Secret'', k_namespace = ns, k_name = n\<rparr>"

definition same_policies :: "'w clusterView \<Rightarrow> 'w \<Rightarrow> 'w \<Rightarrow> bool" where
  "same_policies v w w' \<longleftrightarrow>
     (\<forall>ns n. map_option core (cv_policies v w' ns n) = map_option core (cv_policies v w ns n))"

text \<open>A write of labels or status.\<close>

definition quiet_write :: "'w clusterView \<Rightarrow> 'w \<Rightarrow> 'w \<Rightarrow> bool" where
  "quiet_write v w w' \<longleftrightarrow>
     cv_objects v w' = cv_objects v w \<and> cv_configMaps v w' = cv_configMaps v w \<and> same_policies v w w'"

lemma quiet_write_refl [simp]: "quiet_write v w w"
  by (simp add: quiet_write_def same_policies_def)

lemma quiet_write_trans: "quiet_write v w w' \<Longrightarrow> quiet_write v w' w'' \<Longrightarrow> quiet_write v w w''"
  by (simp add: quiet_write_def same_policies_def)

locale cluster = k8s_api "ce_client env" "cv_objects v"
  for env :: "'w controllerEnv" and v :: "'w clusterView" +
  assumes create_keeps: "c_create (ce_client env) w o' = (e, w') \<Longrightarrow>
      cv_policies v w' = cv_policies v w \<and> cv_configMaps v w' = cv_configMaps v w"
    and patch_keeps: "c_patch (ce_client env) w old new = (e, w') \<Longrightarrow>
      cv_policies v w' = cv_policies v w \<and> cv_configMaps v w' = cv_configMaps v w"
    and delete_keeps: "c_delete (ce_client env) w o' = (e, w') \<Longrightarrow>
      cv_policies v w' = cv_policies v w \<and> cv_configMaps v w' = cv_configMaps v w"
    and control_by_uid: "c_isControlledBy (ce_client env) o' ap \<longleftrightarrow>
      map_option or_uid (controller_of (obj_meta o')) = Some (ap_uid ap)"
    and reference_owner: "c_setControllerReference (ce_client env) ap o' = Inr o'' \<Longrightarrow>
      controller_of (obj_meta o'') = Some (policy_owner ap)"
    and policy_found: "pa_get (ce_policies env) w ns n = PolicyFound ap \<Longrightarrow> cv_policies v w ns n = Some ap"
    and policy_notfound: "pa_get (ce_policies env) w ns n = PolicyNotFound \<Longrightarrow> cv_policies v w ns n = None"
    and policy_key: "cv_policies v w ns n = Some ap \<Longrightarrow> ap_namespace ap = ns \<and> ap_name ap = n"
    and status_quiet: "pa_updateStatus (ce_policies env) w ap = (e, w') \<Longrightarrow> quiet_write v w w'"
    and retry_repeats: "reflp R \<Longrightarrow> transp R \<Longrightarrow> (\<And>w. R w (snd (f w))) \<Longrightarrow>
      R w (snd (pa_retryOnConflict (ce_policies env) f w))"
    and patch_quiet: "ce_patchPolicy env w ap ap' = (r, w') \<Longrightarrow> core ap' = core ap \<Longrightarrow> quiet_write v w w'"
    and reader_secret: "cv_objects v w (secret_key ns n) = cv_objects v w' (secret_key ns n) \<Longrightarrow>
      rd_secret (ce_reader env w) ns n = rd_secret (ce_reader env w') ns n"
    and reader_configMap: "cv_configMaps v w ns n = cv_configMaps v w' ns n \<Longrightarrow>
      rd_configMap (ce_reader env w) ns n = rd_configMap (ce_reader env w') ns n"
    and lister_complete: "cv_lister v w ns = Inr items \<Longrightarrow> cv_policies v w ns n = Some ap \<Longrightarrow>
      \<lparr>nn_namespace = ns, nn_name = n\<rparr> \<in> set items"
begin

lemma run_keeps:
  "ReconcileControllerResource (ce_client env) r s w = (e, s', w') \<Longrightarrow>
     cv_policies v w' = cv_policies v w \<and> cv_configMaps v w' = cv_configMaps v w"
  by (auto simp: outcome_defs dest: create_keeps patch_keeps delete_keeps split: outcome_splits)

lemma doReconcile_keeps:
  assumes "doReconcile (ce_client env) rs s w = (r, s', w')"
  shows "cv_policies v w' = cv_policies v w" and "cv_configMaps v w' = cv_configMaps v w"
proof -
  obtain errs where l: "doReconcile_loop (ce_client env) rs s w [] emptyResult = (errs, emptyResult, s', w')"
    using doReconcile_loop_of [OF assms] by metis
  have "(cv_policies v w' = cv_policies v w \<and> cv_configMaps v w' = cv_configMaps v w) \<and> s_authPolicy s' = s_authPolicy s"
    by (rule loop_invariant [where P = "\<lambda>w'. cv_policies v w' = cv_policies v w \<and> cv_configMaps v w' = cv_configMaps v w", OF l])
       (auto dest: run_keeps)
  then show "cv_policies v w' = cv_policies v w" and "cv_configMaps v w' = cv_configMaps v w" by simp_all
qed

lemma UpdateStatus_quiet:
  assumes "UpdateStatus me (ce_policies env) ap g w = (e, g', w')"
  shows "quiet_write v w w'"
proof -
  have "quiet_write v w (snd (statusAttempt (ce_policies env) ap w))" for w
  proof -
    have "quiet_write v w (snd (pa_updateStatus (ce_policies env) w a))" for a
      by (rule status_quiet [OF prod.collapse [symmetric]])
    then show ?thesis by (simp add: statusAttempt_def split: policy_result.splits)
  qed
  moreover have "reflp (quiet_write v)" "transp (quiet_write v)"
    by (auto simp: reflp_def transp_def intro: quiet_write_trans)
  ultimately have "quiet_write v w (snd (pa_retryOnConflict (ce_policies env) (statusAttempt (ce_policies env) ap) w))"
    using retry_repeats [of "quiet_write v" "statusAttempt (ce_policies env) ap" w] by blast
  then show ?thesis using assms by (auto simp: UpdateStatus_def split: prod.splits option.splits)
qed

lemma UpdateAuthPolicyStatus_quiet:
  "UpdateAuthPolicyStatus me (ce_policies env) now s original rs g w = Some (g', w') \<Longrightarrow> quiet_write v w w'"
  by (auto simp: UpdateAuthPolicyStatus_def split: if_splits prod.splits dest: UpdateStatus_quiet)

text \<open>The phases of a reconciliation: quiet writes around the one that brings the objects to their states.\<close>

lemma afterLabels_phases:
  assumes "afterLabels (at_run env rb t) ap original g w0 = (out, g', w')"
  shows "quiet_write v w0 w' \<and> out \<noteq> Reconciled emptyResult \<or>
    (\<exists>s rs r s' w1. resolveAuthPolicy env w0 ap = Some (Inr s) \<and>
      ControllerResources ((ce_gen env)\<lparr>ge_run := rb\<rparr>) (validateAuthPolicy s) = Inr rs \<and>
      doReconcile (ce_client env) rs (validateAuthPolicy s) w0 = (r, s', w1) \<and> quiet_write v w1 w' \<and>
      (out = Panicked \<or> out = (case r of Inl errs \<Rightarrow> Failed errs | Inr result \<Rightarrow> Reconciled result)))"
proof (cases "resolveAuthPolicy env w0 ap")
  case None
  then show ?thesis using assms by (simp add: afterLabels_def)
next
  case (Some res)
  show ?thesis
  proof (cases res)
    case (Inl e)
    then show ?thesis
      using assms Some by (auto simp: afterLabels_def Let_def split: prod.splits option.splits dest: UpdateStatus_quiet)
  next
    case (Inr s)
    then have fin: "finishReconcile (at_run env rb t) original (validateAuthPolicy s) g w0 = (out, g', w')"
      using assms Some by (simp add: afterLabels_def)
    obtain r s' w1 where "\<And>rs. ControllerResources ((ce_gen env)\<lparr>ge_run := rb\<rparr>) (validateAuthPolicy s) = Inr rs \<Longrightarrow>
        doReconcile (ce_client env) rs (validateAuthPolicy s) w0 = (r, s', w1)"
      by (metis prod_cases3 sum.inject(2))
    then show ?thesis
      using fin Some Inr
      by (fastforce simp: finishReconcile_def dest: UpdateAuthPolicyStatus_quiet split: sum.splits option.splits)
  qed
qed

lemma Reconcile_phases:
  assumes "Reconcile (at_run env rb t) ns n g w = (out, g', w')"
  obtains (quiet) "quiet_write v w w'"
      "\<And>ap. out = Reconciled emptyResult \<Longrightarrow> cv_policies v w ns n = Some ap \<Longrightarrow> ap_deletionTimestamp ap \<noteq> None"
  | (full) ap w0 s rs r s' w1 where "cv_policies v w ns n = Some ap" "ap_deletionTimestamp ap = None"
      "quiet_write v w w0" "resolveAuthPolicy env w0 (InitializeStatus ap) = Some (Inr s)"
      "ControllerResources ((ce_gen env)\<lparr>ge_run := rb\<rparr>) (validateAuthPolicy s) = Inr rs"
      "doReconcile (ce_client env) rs (validateAuthPolicy s) w0 = (r, s', w1)" "quiet_write v w1 w'"
      "out = Panicked \<or> out = (case r of Inl errs \<Rightarrow> Failed errs | Inr result \<Rightarrow> Reconciled result)"
proof (cases "pa_get (ce_policies env) w ns n")
  case PolicyNotFound
  show ?thesis
    by (rule quiet) (use policy_notfound [OF PolicyNotFound] assms PolicyNotFound in \<open>auto simp: Reconcile_def\<close>)
next
  case (PolicyError e)
  show ?thesis by (rule quiet) (use assms PolicyError in \<open>auto simp: Reconcile_def\<close>)
next
  case (PolicyFound ap)
  note stored = policy_found [OF PolicyFound]
  define ap1 where "ap1 = InitializeStatus ap"
  show ?thesis
  proof (cases "ap_deletionTimestamp ap")
    case (Some d)
    show ?thesis
      by (rule quiet) (use assms PolicyFound stored Some in \<open>auto simp: Reconcile_def InitializeStatus_def\<close>)
  next
    case None
    then have live: "ap_deletionTimestamp ap1 = None" by (simp add: ap1_def InitializeStatus_def)
    define original where "original = ap1\<lparr>ap_labels := maps_Copy (ap_labels ap1) AuthPolicyStandardLabels\<rparr>"
    have core: "core original = core ap1" by (simp add: original_def core_def)
    have "(\<exists>w0 original'. quiet_write v w w0 \<and> afterLabels (at_run env rb t) ap1 original' g w0 = (out, g', w')) \<or>
        quiet_write v w w' \<and> out \<noteq> Reconciled emptyResult"
      using assms PolicyFound live patch_quiet [OF _ core]
      by (auto simp: Reconcile_def Let_def ap1_def [symmetric] original_def [symmetric] split: if_splits prod.splits sum.splits)
    then consider (failed) "quiet_write v w w'" "out \<noteq> Reconciled emptyResult"
      | (after) w0 original' where "quiet_write v w w0" "afterLabels (at_run env rb t) ap1 original' g w0 = (out, g', w')"
      by blast
    then show ?thesis
    proof cases
      case failed
      then show ?thesis by (intro quiet) auto
    next
      case after
      from afterLabels_phases [OF after(2)] show ?thesis
      proof (elim disjE conjE exE)
        assume "quiet_write v w0 w'" "out \<noteq> Reconciled emptyResult"
        then show ?thesis using quiet_write_trans [OF after(1)] by (intro quiet) auto
      qed (use full [OF stored None after(1)] in \<open>simp_all add: ap1_def\<close>)
    qed
  qed
qed

end

section \<open>Settled policies\<close>

definition policy_settled ::
  "'w controllerEnv \<Rightarrow> 'w clusterView \<Rightarrow> runChoices set \<Rightarrow> 'w \<Rightarrow> authPolicy \<Rightarrow> bool" where
  "policy_settled env v RB w ap \<longleftrightarrow>
     (\<exists>rb \<in> RB. \<exists>s rs. resolveAuthPolicy env w (InitializeStatus ap) = Some (Inr s) \<and>
        ControllerResources ((ce_gen env)\<lparr>ge_run := rb\<rparr>) (validateAuthPolicy s) = Inr rs \<and>
        list_all (settled_in (c_isControlledBy (ce_client env)) (cv_objects v w) (validateAuthPolicy s)) rs)"

definition own_keys :: "string \<Rightarrow> string \<Rightarrow> objkey list" where
  "own_keys ns name =
     map (\<lambda>(k, n). \<lparr>k_kind = k, k_namespace = ns, k_name = n\<rparr>)
       [(''Secret'', EnvoySecretName name), (''EnvoyFilter'', EnvoyFilterName name),
        (''RequestAuthentication'', name), (''AuthorizationPolicy'', DenyPolicyName name),
        (''AuthorizationPolicy'', IgnorePolicyName name), (''AuthorizationPolicy'', RequirePolicyName name)]"

lemma own_keys_policy:
  "secret_named s \<Longrightarrow> policy_keys s = own_keys (ap_namespace (s_authPolicy s)) (ap_name (s_authPolicy s))"
  by (simp add: policy_keys_def own_keys_def secret_named_def Let_def)

lemma own_keys_disjoint: "k \<in> set (own_keys ns n) \<Longrightarrow> k \<in> set (own_keys ns' n') \<Longrightarrow> ns = ns' \<and> n = n'"
  using policy_names_distinct policy_names_distinct [symmetric] by (auto simp: own_keys_def)

lemma own_secret: "secret_key ns' r \<in> set (own_keys ns n) \<Longrightarrow> r = EnvoySecretName n"
  by (auto simp: own_keys_def secret_key_def)

lemma resolved_scope_facts:
  assumes "resolveAuthPolicy env w (InitializeStatus ap) = Some (Inr s)"
  shows "s_authPolicy (validateAuthPolicy s) = InitializeStatus ap"
    and "secret_named (validateAuthPolicy s)"
    and "policy_keys (validateAuthPolicy s) = own_keys (ap_namespace ap) (ap_name ap)"
proof -
  note named = resolved_named [OF assms]
  show ap: "s_authPolicy (validateAuthPolicy s) = InitializeStatus ap" using named(1) by simp
  show sn: "secret_named (validateAuthPolicy s)"
    using named by (simp add: secret_named_def)
  show "policy_keys (validateAuthPolicy s) = own_keys (ap_namespace ap) (ap_name ap)"
    using own_keys_policy [OF sn] ap by (simp add: InitializeStatus_def)
qed

definition uncontrolled :: "(k8s_object \<Rightarrow> authPolicy \<Rightarrow> bool) \<Rightarrow> k8s_object option \<Rightarrow> authPolicy \<Rightarrow> bool" where
  "uncontrolled controlled x ap \<longleftrightarrow> (\<forall>o'. x = Some o' \<longrightarrow> \<not> controlled o' ap)"

lemma settled_transfer_one:
  assumes "settled_in controlled objs s r"
    and "objs' (resource_key s r) = objs (resource_key s r) \<or>
      uncontrolled controlled (objs (resource_key s r)) (s_authPolicy s) \<and>
      uncontrolled controlled (objs' (resource_key s r)) (s_authPolicy s)"
  shows "settled_in controlled objs' s r"
  using assms by (auto simp: settled_in_def uncontrolled_def split: option.splits)

context cluster
begin

lemma controlled_core: "core a = core b \<Longrightarrow> c_isControlledBy (ce_client env) o' a = c_isControlledBy (ce_client env) o' b"
  using core_eqD(3) [of a b] by (simp add: control_by_uid)

lemma settled_core:
  assumes "core ap = core (s_authPolicy s)"
  shows "settled_in (c_isControlledBy (ce_client env)) objs (s\<lparr>s_authPolicy := ap\<rparr>) r =
    settled_in (c_isControlledBy (ce_client env)) objs s r"
  using core_eqD [OF assms] controlled_core [OF assms]
  by (simp add: settled_in_def resource_key_def split: option.splits)

text \<open>The scope of a policy whose labels, status or unrelated surroundings changed.\<close>

lemma resolve_transfer:
  assumes "resolveAuthPolicy env w (InitializeStatus ap) = Some (Inr s)" and "core ap' = core ap"
    and "\<And>r. r \<in> set (secret_refs ap) \<Longrightarrow>
      cv_objects v w (secret_key (ap_namespace ap) r) = cv_objects v w' (secret_key (ap_namespace ap) r)"
    and "\<And>r. r \<in> set (configMap_refs ap) \<Longrightarrow> cv_configMaps v w (ap_namespace ap) r = cv_configMaps v w' (ap_namespace ap) r"
  obtains s' where "resolveAuthPolicy env w' (InitializeStatus ap') = Some (Inr s')"
    "validateAuthPolicy s' = (validateAuthPolicy s)\<lparr>s_authPolicy := InitializeStatus ap'\<rparr>"
    "core (InitializeStatus ap') = core (s_authPolicy (validateAuthPolicy s))"
    "\<And>ge. ControllerResources ge (validateAuthPolicy s') = ControllerResources ge (validateAuthPolicy s)"
proof -
  let ?i = "InitializeStatus ap" and ?i' = "InitializeStatus ap'"
  have ci: "core ?i' = core ?i" using assms(2) by simp
  have cs: "core ?i' = core (s_authPolicy s)" using ci resolved_named(1) [OF assms(1)] by simp
  have ns: "ap_namespace ?i = ap_namespace ap" "secret_refs ?i = secret_refs ap" "configMap_refs ?i = configMap_refs ap"
    by (simp_all add: InitializeStatus_def secret_refs_def configMap_refs_def)
  have "resolveAuthPolicy env w' ?i = Some (Inr s)"
    using resolve_reads [of ?i env w w'] reader_secret [OF assms(3)] reader_configMap [OF assms(4)] ns assms(1) by simp
  then have res: "resolveAuthPolicy env w' ?i' = Some (Inr (s\<lparr>s_authPolicy := ?i'\<rparr>))"
    using resolve_core [OF ci [symmetric], of env w'] by simp
  have val: "validateAuthPolicy (s\<lparr>s_authPolicy := ?i'\<rparr>) = (validateAuthPolicy s)\<lparr>s_authPolicy := ?i'\<rparr>"
    by (rule validate_core [OF cs])
  have cv: "core ?i' = core (s_authPolicy (validateAuthPolicy s))" using cs by simp
  show thesis by (rule that [OF res val cv]) (simp add: val resources_core [OF cv])
qed

lemma settled_transfer:
  assumes "policy_settled env v RB w ap" and "core ap' = core ap"
    and "\<And>r. r \<in> set (secret_refs ap) \<Longrightarrow>
      cv_objects v w (secret_key (ap_namespace ap) r) = cv_objects v w' (secret_key (ap_namespace ap) r)"
    and "\<And>r. r \<in> set (configMap_refs ap) \<Longrightarrow> cv_configMaps v w (ap_namespace ap) r = cv_configMaps v w' (ap_namespace ap) r"
    and "\<And>k. k \<in> set (own_keys (ap_namespace ap) (ap_name ap)) \<Longrightarrow> cv_objects v w' k = cv_objects v w k \<or>
      uncontrolled (c_isControlledBy (ce_client env)) (cv_objects v w k) ap \<and>
      uncontrolled (c_isControlledBy (ce_client env)) (cv_objects v w' k) ap"
  shows "policy_settled env v RB w' ap'"
proof -
  let ?ctl = "c_isControlledBy (ce_client env)"
  obtain rb s rs where rb: "rb \<in> RB" and res: "resolveAuthPolicy env w (InitializeStatus ap) = Some (Inr s)"
    and rs: "ControllerResources ((ce_gen env)\<lparr>ge_run := rb\<rparr>) (validateAuthPolicy s) = Inr rs"
    and st: "list_all (settled_in ?ctl (cv_objects v w) (validateAuthPolicy s)) rs"
    using assms(1) unfolding policy_settled_def by blast
  note facts = resolved_scope_facts [OF res]
  obtain s' where s': "resolveAuthPolicy env w' (InitializeStatus ap') = Some (Inr s')"
    "validateAuthPolicy s' = (validateAuthPolicy s)\<lparr>s_authPolicy := InitializeStatus ap'\<rparr>"
    "core (InitializeStatus ap') = core (s_authPolicy (validateAuthPolicy s))"
    "ControllerResources ((ce_gen env)\<lparr>ge_run := rb\<rparr>) (validateAuthPolicy s') = Inr rs"
    using resolve_transfer [OF res assms(2-4)] rs by metis
  have "settled_in ?ctl (cv_objects v w') (validateAuthPolicy s') r" if "r \<in> set rs" for r
    unfolding s'(2) settled_core [OF s'(3)]
  proof (rule settled_transfer_one)
    let ?k = "resource_key (validateAuthPolicy s) r"
    show "settled_in ?ctl (cv_objects v w) (validateAuthPolicy s) r" using st that by (simp add: list_all_iff)
    have "?k \<in> set (own_keys (ap_namespace ap) (ap_name ap))"
      using resource_keys [OF rs] facts(3) that by (metis image_eqI set_map)
    from assms(5) [OF this] show "cv_objects v w' ?k = cv_objects v w ?k \<or>
        uncontrolled ?ctl (cv_objects v w ?k) (s_authPolicy (validateAuthPolicy s)) \<and>
        uncontrolled ?ctl (cv_objects v w' ?k) (s_authPolicy (validateAuthPolicy s))"
      using controlled_core [of ap "InitializeStatus ap"] facts(1) by (simp add: uncontrolled_def)
  qed
  then show ?thesis using rb s'(1, 4) unfolding policy_settled_def list_all_iff by blast
qed

end

section \<open>Well-formed clusters\<close>

definition keys_ok :: "'w clusterView \<Rightarrow> 'w \<Rightarrow> bool" where
  "keys_ok v w \<longleftrightarrow> (\<forall>k o'. cv_objects v w k = Some o' \<longrightarrow> obj_key o' = k) \<and>
     (\<forall>ns n x. cv_configMaps v w ns n = Some x \<longrightarrow> om_namespace (fst x) = ns)"

definition uids_unique :: "'w clusterView \<Rightarrow> 'w \<Rightarrow> bool" where
  "uids_unique v w \<longleftrightarrow> (\<forall>ns n a ns' n' b. cv_policies v w ns n = Some a \<longrightarrow> cv_policies v w ns' n' = Some b \<longrightarrow>
     ap_uid a = ap_uid b \<longrightarrow> ns = ns' \<and> n = n')"

definition owned_by :: "objectMeta \<Rightarrow> namespacedName \<Rightarrow> bool" where
  "owned_by m q \<longleftrightarrow> owner_requests m = [q] \<and> IsOwnedByAuthPolicy m"

definition owners_true :: "'w controllerEnv \<Rightarrow> 'w clusterView \<Rightarrow> 'w \<Rightarrow> bool" where
  "owners_true env v w \<longleftrightarrow> (\<forall>k o' ns n ap. cv_objects v w k = Some o' \<longrightarrow> cv_policies v w ns n = Some ap \<longrightarrow>
     c_isControlledBy (ce_client env) o' ap \<longrightarrow> owned_by (obj_meta o') \<lparr>nn_namespace = ns, nn_name = n\<rparr>)"

definition inputs_foreign :: "'w clusterView \<Rightarrow> 'w \<Rightarrow> bool" where
  "inputs_foreign v w \<longleftrightarrow> (\<forall>ns n ap. cv_policies v w ns n = Some ap \<longrightarrow>
     (\<forall>r \<in> set (secret_refs ap). (\<forall>m. r \<noteq> EnvoySecretName m) \<and>
        (\<forall>x. cv_objects v w (secret_key ns r) = Some x \<longrightarrow> \<not> IsOwnedByAuthPolicy (obj_meta x))) \<and>
     (\<forall>r \<in> set (configMap_refs ap). \<forall>x. cv_configMaps v w ns r = Some x \<longrightarrow> \<not> IsOwnedByAuthPolicy (fst x)))"

definition selectors_ok :: "'w clusterView \<Rightarrow> 'w \<Rightarrow> bool" where
  "selectors_ok v w \<longleftrightarrow> (\<forall>ns n ap. cv_policies v w ns n = Some ap \<longrightarrow>
     wf_map (ws_matchLabels (spec_selector (ap_spec ap))))"

definition world_ok :: "'w controllerEnv \<Rightarrow> 'w clusterView \<Rightarrow> 'w \<Rightarrow> bool" where
  "world_ok env v w \<longleftrightarrow> keys_ok v w \<and> uids_unique v w \<and> owners_true env v w \<and> inputs_foreign v w \<and> selectors_ok v w"

lemma inputs_foreignD:
  assumes "inputs_foreign v w" and "cv_policies v w ns n = Some ap"
  shows "r \<in> set (secret_refs ap) \<Longrightarrow> r \<noteq> EnvoySecretName m"
    and "r \<in> set (secret_refs ap) \<Longrightarrow> cv_objects v w (secret_key ns r) = Some x \<Longrightarrow> \<not> IsOwnedByAuthPolicy (obj_meta x)"
    and "r \<in> set (configMap_refs ap) \<Longrightarrow> cv_configMaps v w ns r = Some y \<Longrightarrow> \<not> IsOwnedByAuthPolicy (fst y)"
  using assms unfolding inputs_foreign_def by blast+

lemma same_policiesE:
  assumes "same_policies v w w'" and "cv_policies v w' ns n = Some ap'"
  obtains ap where "cv_policies v w ns n = Some ap" "core ap = core ap'"
  using assms unfolding same_policies_def by (metis option.map_sel option.map_disc_iff option.sel option.collapse option.discI)

context cluster
begin

lemma world_ok_same_policies:
  assumes "world_ok env v w" and "same_policies v w w'" and "cv_objects v w' = cv_objects v w"
    and "cv_configMaps v w' = cv_configMaps v w"
  shows "world_ok env v w'"
proof -
  have "uids_unique v w'"
    unfolding uids_unique_def
  proof (intro allI impI)
    fix ns n a ns' n' b
    assume "cv_policies v w' ns n = Some a" "cv_policies v w' ns' n' = Some b" "ap_uid a = ap_uid b"
    then show "ns = ns' \<and> n = n'"
      using assms(1) unfolding world_ok_def uids_unique_def
      by (elim same_policiesE [OF assms(2)]) (metis core_eqD(3))
  qed
  moreover have "owners_true env v w'"
    unfolding owners_true_def assms(3)
  proof (intro allI impI)
    fix k o' ns n ap
    assume "cv_objects v w k = Some o'" "cv_policies v w' ns n = Some ap" "c_isControlledBy (ce_client env) o' ap"
    then show "owned_by (obj_meta o') \<lparr>nn_namespace = ns, nn_name = n\<rparr>"
      using assms(1) unfolding world_ok_def owners_true_def
      by (elim same_policiesE [OF assms(2)]) (metis controlled_core)
  qed
  moreover have "inputs_foreign v w'"
    unfolding inputs_foreign_def assms(3, 4)
  proof (intro allI impI)
    fix ns n ap'
    assume "cv_policies v w' ns n = Some ap'"
    then obtain ap where ap: "cv_policies v w ns n = Some ap" "core ap = core ap'"
      by (rule same_policiesE [OF assms(2)])
    from refs_core [OF ap(2)] ap(1) assms(1) show "(\<forall>r \<in> set (secret_refs ap'). (\<forall>m. r \<noteq> EnvoySecretName m) \<and>
        (\<forall>x. cv_objects v w (secret_key ns r) = Some x \<longrightarrow> \<not> IsOwnedByAuthPolicy (obj_meta x))) \<and>
      (\<forall>r \<in> set (configMap_refs ap'). \<forall>x. cv_configMaps v w ns r = Some x \<longrightarrow> \<not> IsOwnedByAuthPolicy (fst x))"
      unfolding world_ok_def inputs_foreign_def by metis
  qed
  moreover have "selectors_ok v w'"
    unfolding selectors_ok_def
    using assms(1) same_policiesE [OF assms(2)] core_eqD(6) unfolding world_ok_def selectors_ok_def by metis
  ultimately show ?thesis using assms(1, 3, 4) by (simp add: world_ok_def keys_ok_def)
qed

text \<open>A resource of a policy that is brought to its state keeps the cluster well-formed.\<close>

lemma owned_by_cong:
  "om_owners (obj_meta a) = om_owners (obj_meta b) \<Longrightarrow> obj_key a = obj_key b \<Longrightarrow>
     owned_by (obj_meta a) = owned_by (obj_meta b)"
  by (rule ext) (simp add: owned_by_def owner_requests_def controller_of_def obj_key_def IsOwnedByAuthPolicy_def split: option.splits)

lemma policy_owned_by:
  assumes "controller_of m = Some (policy_owner ap)" and "om_namespace m = ap_namespace ap"
  shows "owned_by m (policy_request ap)"
proof -
  have "policy_owner ap \<in> set (om_owners m)" using assms(1) by (auto simp: controller_of_def find_Some_iff)
  then have "IsOwnedByAuthPolicy m"
    by (force simp: IsOwnedByAuthPolicy_def list_ex_iff policy_owner_def authPolicyGroup_def authPolicyVersion_def authPolicyKind_def)
  with policy_owner_requests [OF assms] show ?thesis by (simp add: owned_by_def)
qed

lemma run_object_ok:
  assumes "lawful s r" and "ReconcileControllerResource (ce_client env) r s w = (e, s', w')"
    and "world_ok env v w" and "cv_policies v w ns n = Some ap" and "core ap = core (s_authPolicy s)"
    and "cv_objects v w' (resource_key s r) = Some o'"
  shows "obj_key o' = resource_key s r"
    and "cv_policies v w ns' n' = Some ap' \<Longrightarrow> c_isControlledBy (ce_client env) o' ap' \<Longrightarrow>
      owned_by (obj_meta o') \<lparr>nn_namespace = ns', nn_name = n'\<rparr>"
proof -
  let ?k = "resource_key s r" and ?ctl = "c_isControlledBy (ce_client env)" and ?ap = "s_authPolicy s"
  note ok = assms(3) [unfolded world_ok_def keys_ok_def uids_unique_def owners_true_def]
  consider (old) "cv_objects v w ?k = Some o'"
    | (created) d owners where "rr_desired r = Some d" "o' = set_owners owners d"
        "c_setControllerReference (ce_client env) ?ap d = Inr o'"
    | (updated) cur d where "cv_objects v w ?k = Some cur" "rr_desired r = Some d" "o' = rr_updateFields r cur d"
    using run_cases [OF assms(1, 2)] assms(6) by (auto simp: run_effect_def Let_def split: option.splits)
  then have "obj_key o' = ?k \<and> (cv_policies v w ns' n' = Some ap' \<longrightarrow> ?ctl o' ap' \<longrightarrow>
      owned_by (obj_meta o') \<lparr>nn_namespace = ns', nn_name = n'\<rparr>)"
  proof cases
    case old
    then show ?thesis using ok by blast
  next
    case created
    have key: "obj_key o' = ?k" using created(2) lawfulE(1) [OF assms(1) created(1)] by simp
    have ctl: "controller_of (obj_meta o') = Some (policy_owner ?ap)" by (rule reference_owner [OF created(3)])
    have "om_namespace (obj_meta o') = ap_namespace ?ap" using key by (simp add: obj_key_def resource_key_def)
    from policy_owned_by [OF ctl this] have "owned_by (obj_meta o') \<lparr>nn_namespace = ns, nn_name = n\<rparr>"
      using policy_key [OF assms(4)] core_eqD [OF assms(5)] by (simp add: policy_request_def)
    moreover have "ap_uid ap = ap_uid ap'" if "?ctl o' ap'"
      using that ctl core_eqD(3) [OF assms(5)] by (simp add: control_by_uid)
    ultimately show ?thesis using key ok assms(4) by blast
  next
    case updated
    note law = lawfulE(4, 5) [OF assms(1) updated(2), of cur]
    have key: "obj_key cur = ?k" using ok updated(1) by blast
    have "owned_by (obj_meta o') = owned_by (obj_meta cur)"
      unfolding updated(3) by (rule owned_by_cong [OF law(2, 1)])
    moreover have "?ctl o' ap' = ?ctl cur ap'" unfolding updated(3) by (rule control_by_owners [OF law(2)])
    moreover have "obj_key o' = ?k" using law(1) updated(3) key by simp
    moreover have "owned_by (obj_meta cur) \<lparr>nn_namespace = ns', nn_name = n'\<rparr>"
      if "cv_policies v w ns' n' = Some ap'" "?ctl cur ap'"
      using ok updated(1) that by blast
    ultimately show ?thesis by simp
  qed
  then show "obj_key o' = ?k" and "cv_policies v w ns' n' = Some ap' \<Longrightarrow> ?ctl o' ap' \<Longrightarrow>
      owned_by (obj_meta o') \<lparr>nn_namespace = ns', nn_name = n'\<rparr>"
    by blast+
qed

lemma run_world_ok:
  assumes "lawful s r" and "ReconcileControllerResource (ce_client env) r s w = (e, s', w')"
    and "world_ok env v w" and "cv_policies v w ns n = Some ap" and "core ap = core (s_authPolicy s)"
    and "resource_key s r \<in> set (own_keys ns n)"
  shows "world_ok env v w'"
proof -
  let ?k = "resource_key s r"
  note keeps = run_keeps [OF assms(2)]
  note frame = run_frame [OF assms(1, 2)]
  note object = run_object_ok [OF assms(1-5)]
  note ok = assms(3) [unfolded world_ok_def]
  have "keys_ok v w'"
    using ok keeps frame object(1) unfolding keys_ok_def by metis
  moreover have "owners_true env v w'"
    using ok keeps frame object(2) unfolding owners_true_def by metis
  moreover have "inputs_foreign v w'"
  proof -
    have "cv_objects v w' (secret_key ns' r') = cv_objects v w (secret_key ns' r')"
      if "\<forall>m. r' \<noteq> EnvoySecretName m" for ns' r'
      using frame [of "secret_key ns' r'"] own_secret [of ns' r' ns n] assms(6) that by metis
    then show ?thesis using ok keeps unfolding inputs_foreign_def by metis
  qed
  ultimately show ?thesis using ok keeps by (simp add: world_ok_def uids_unique_def selectors_ok_def)
qed

lemma doReconcile_world_ok:
  assumes "doReconcile (ce_client env) rs s w = (r, s', w')" and "ControllerResources ge s = Inr rs"
    and "world_ok env v w" and "cv_policies v w ns n = Some ap" and "core ap = core (s_authPolicy s)"
    and "secret_named s"
  shows "world_ok env v w'"
proof -
  obtain errs where l: "doReconcile_loop (ce_client env) rs s w [] emptyResult = (errs, emptyResult, s', w')"
    using doReconcile_loop_of [OF assms(1)] by metis
  have wf: "selector_wf s"
    using assms(3, 4) core_eqD(6) [OF assms(5)] unfolding world_ok_def selectors_ok_def selector_wf_def by metis
  note law = resources_lawful [OF assms(2) wf]
  have keys: "policy_keys s = own_keys ns n"
    using own_keys_policy [OF assms(6)] policy_key [OF assms(4)] core_eqD [OF assms(5)] by simp
  have "(world_ok env v w' \<and> cv_policies v w' = cv_policies v w) \<and> s_authPolicy s' = s_authPolicy s"
  proof (rule loop_invariant [where P = "\<lambda>w'. world_ok env v w' \<and> cv_policies v w' = cv_policies v w", OF l])
    fix r s1 w1 e s2 w2
    assume r: "r \<in> set rs" "s_authPolicy s1 = s_authPolicy s"
      and st: "world_ok env v w1 \<and> cv_policies v w1 = cv_policies v w" "ReconcileControllerResource (ce_client env) r s1 w1 = (e, s2, w2)"
    have "lawful s1 r" using r law lawful_cong [OF r(2)] by (simp add: list_all_iff)
    moreover have "resource_key s1 r \<in> set (own_keys ns n)"
      using resource_keys [OF assms(2)] keys r resource_key_cong [OF r(2)] by (metis image_eqI set_map)
    ultimately have "world_ok env v w2"
      using run_world_ok [OF _ st(2)] st(1) assms(4, 5) r(2) by simp
    then show "world_ok env v w2 \<and> cv_policies v w2 = cv_policies v w" using run_keeps [OF st(2)] st(1) by simp
  qed (use assms(3) in simp)
  then show ?thesis by simp
qed

end

end
