(* ===== verification/ControlLoop.thy ===== *)
theory ControlLoop
  imports Cluster
begin

text \<open>
  The controller with its queue of requests.  A step reconciles one request, and events of what it
  changed enqueue others through the watches of \<open>SetupWithManager\<close>; in between, others change the
  cluster in any way.  As long as the changes of others are orderly, every policy without a request
  is settled.
\<close>

section \<open>The control loop\<close>

record 'w operatorState =
  os_world :: 'w
  os_queue :: "namespacedName set"
  os_gauge :: gauge

text \<open>The requests of the events that tell the controller of a changed cluster.\<close>

definition changed_requests :: "'w clusterView \<Rightarrow> 'w \<Rightarrow> 'w \<Rightarrow> namespacedName set" where
  "changed_requests v w w' =
     {q. (\<exists>ns n. cv_policies v w ns n \<noteq> cv_policies v w' ns n \<and>
            q \<in> set (SetupWithManager (cv_lister v w') (PolicyChange (cv_policies v w ns n) (cv_policies v w' ns n)))) \<or>
         (\<exists>k. cv_objects v w k \<noteq> cv_objects v w' k \<and>
            q \<in> set (SetupWithManager (cv_lister v w') (ObjectChange (cv_objects v w k) (cv_objects v w' k)))) \<or>
         (\<exists>ns n. cv_configMaps v w ns n \<noteq> cv_configMaps v w' ns n \<and>
            q \<in> set (SetupWithManager (cv_lister v w')
              (ConfigMapChange (map_option fst (cv_configMaps v w ns n)) (map_option fst (cv_configMaps v w' ns n)))))}"

text \<open>A worker takes a request from the queue, which comes back unless the reconciliation succeeds.\<close>

inductive process_step ::
  "'w controllerEnv \<Rightarrow> 'w clusterView \<Rightarrow> runChoices set \<Rightarrow> 'w operatorState \<Rightarrow> 'w operatorState \<Rightarrow> bool"
  for env :: "'w controllerEnv" and v :: "'w clusterView" and RB :: "runChoices set" where
  process: "\<lbrakk>q \<in> os_queue st; rb \<in> RB;
     Reconcile (at_run env rb t) (nn_namespace q) (nn_name q) (os_gauge st) (os_world st) = (out, g', w')\<rbrakk> \<Longrightarrow>
     process_step env v RB st
       \<lparr>os_world = w',
        os_queue = (os_queue st - {q}) \<union> changed_requests v (os_world st) w' \<union>
          (if out = Reconciled emptyResult then {} else {q}),
        os_gauge = g'\<rparr>"

text \<open>
  Others change the cluster in any way, and the requests of its events arrive, as far as the handlers
  make them: not for a failed listing, and not for the secrets and config maps that an AuthPolicy
  owns. More requests, as from a resync, do no harm.
\<close>

inductive control_step ::
  "'w controllerEnv \<Rightarrow> 'w clusterView \<Rightarrow> runChoices set \<Rightarrow> 'w operatorState \<Rightarrow> 'w operatorState \<Rightarrow> bool"
  for env :: "'w controllerEnv" and v :: "'w clusterView" and RB :: "runChoices set" where
  work: "process_step env v RB st st' \<Longrightarrow> control_step env v RB st st'"
| external: "os_queue st \<union> changed_requests v (os_world st) w' \<subseteq> Q' \<Longrightarrow>
     control_step env v RB st (st\<lparr>os_world := w', os_queue := Q'\<rparr>)"

inductive_cases process_stepE: "process_step env v RB st st'"

inductive_cases control_stepE: "control_step env v RB st st'"

inductive_simps control_step_iff: "control_step env v RB st st'"

section \<open>Orderly changes\<close>

text \<open>
  What the guarantees ask of the others who change the cluster: afterwards it is well-formed again
  (\<open>world_ok\<close>: unique uids, truthful owner references, and no policy refers to a secret or config map
  that an AuthPolicy owns), a changed spec has a new generation, as the API server sees to, and the
  policies of each namespace can be listed when the events of the change are handled.
\<close>

definition generations_tell :: "'w clusterView \<Rightarrow> 'w \<Rightarrow> 'w \<Rightarrow> bool" where
  "generations_tell v w w' \<longleftrightarrow> (\<forall>ns n a b. cv_policies v w ns n = Some a \<longrightarrow> cv_policies v w' ns n = Some b \<longrightarrow>
     ap_generation a = ap_generation b \<longrightarrow> core a = core b)"

definition listable :: "'w clusterView \<Rightarrow> 'w \<Rightarrow> bool" where
  "listable v w \<longleftrightarrow> (\<forall>ns. \<exists>items. cv_lister v w ns = Inr items)"

definition orderly_change :: "'w controllerEnv \<Rightarrow> 'w clusterView \<Rightarrow> 'w \<Rightarrow> 'w \<Rightarrow> bool" where
  "orderly_change env v w w' \<longleftrightarrow> world_ok env v w' \<and> generations_tell v w w' \<and> listable v w'"

definition orderly_step ::
  "'w controllerEnv \<Rightarrow> 'w clusterView \<Rightarrow> runChoices set \<Rightarrow> 'w operatorState \<Rightarrow> 'w operatorState \<Rightarrow> bool" where
  "orderly_step env v RB st st' \<longleftrightarrow>
     control_step env v RB st st' \<and>
     (process_step env v RB st st' \<or> orderly_change env v (os_world st) (os_world st'))"

lemma process_orderly: "process_step env v RB st st' \<Longrightarrow> orderly_step env v RB st st'"
  by (simp add: orderly_step_def control_step.work)

definition unqueued_settled ::
  "'w controllerEnv \<Rightarrow> 'w clusterView \<Rightarrow> runChoices set \<Rightarrow> 'w operatorState \<Rightarrow> bool" where
  "unqueued_settled env v RB st \<longleftrightarrow>
     (\<forall>ns n ap. cv_policies v (os_world st) ns n = Some ap \<longrightarrow> ap_deletionTimestamp ap = None \<longrightarrow>
        \<lparr>nn_namespace = ns, nn_name = n\<rparr> \<notin> os_queue st \<longrightarrow> policy_settled env v RB (os_world st) ap)"

lemma mapped_requests_subset:
  "(\<And>a. old = Some a \<or> new = Some a \<Longrightarrow> set (f a) \<subseteq> S) \<Longrightarrow> set (mapped_requests f old new) \<subseteq> S"
  by (auto simp: mapped_requests_def split: option.splits)

lemma mapped_requestsI: "old = Some a \<or> new = Some a \<Longrightarrow> q \<in> set (f a) \<Longrightarrow> q \<in> set (mapped_requests f old new)"
  unfolding set_mapped_requests by blast

lemma changed_requestsI:
  "cv_policies v w ns n \<noteq> cv_policies v w' ns n \<Longrightarrow>
     q \<in> set (SetupWithManager (cv_lister v w') (PolicyChange (cv_policies v w ns n) (cv_policies v w' ns n))) \<Longrightarrow>
     q \<in> changed_requests v w w'"
  "cv_objects v w k \<noteq> cv_objects v w' k \<Longrightarrow>
     q \<in> set (SetupWithManager (cv_lister v w') (ObjectChange (cv_objects v w k) (cv_objects v w' k))) \<Longrightarrow>
     q \<in> changed_requests v w w'"
  "cv_configMaps v w ns n \<noteq> cv_configMaps v w' ns n \<Longrightarrow>
     q \<in> set (SetupWithManager (cv_lister v w')
       (ConfigMapChange (map_option fst (cv_configMaps v w ns n)) (map_option fst (cv_configMaps v w' ns n)))) \<Longrightarrow>
     q \<in> changed_requests v w w'"
  unfolding changed_requests_def by blast+

context cluster
begin

subsection \<open>Changes that matter are told\<close>

lemma policy_change_told:
  assumes "cv_policies v w' ns n = Some ap'" and "\<lparr>nn_namespace = ns, nn_name = n\<rparr> \<notin> changed_requests v w w'"
    and "generations_tell v w w'"
  shows "\<exists>ap. cv_policies v w ns n = Some ap \<and> core ap = core ap'"
proof -
  have req: "policy_request ap' = \<lparr>nn_namespace = ns, nn_name = n\<rparr>"
    using policy_key [OF assms(1)] by (simp add: policy_request_def)
  show ?thesis
  proof (cases "cv_policies v w ns n = Some ap'")
    case False
    have "policy_request ap' \<notin> set (for_requests (cv_policies v w ns n) (Some ap'))"
      using changed_requestsI(1) [of v w ns n w' "policy_request ap'"] assms(1, 2) False req by auto
    then obtain ap where "cv_policies v w ns n = Some ap" "ap_generation ap = ap_generation ap'"
      by (auto simp: set_for_requests)
    then show ?thesis using assms(1, 3) unfolding generations_tell_def by blast
  qed blast
qed

lemma enqueues_listed:
  assumes "listable v w'" and "cv_policies v w' ns n = Some ap"
  shows "\<lparr>nn_namespace = ns, nn_name = n\<rparr> \<in> set (EnqueueAuthPoliciesInNamespace (cv_lister v w') ns)"
  using assms enqueue_listed lister_complete unfolding listable_def by metis

lemma secret_kind: "obj_key x = secret_key ns r \<Longrightarrow> \<exists>s. x = SecretObj s \<and> om_namespace (sec_meta s) = ns"
  by (cases x) (auto simp: obj_key_def secret_key_def)

lemma secret_change_told:
  assumes "listable v w'" and "cv_policies v w' ns n = Some ap'" and "keys_ok v w" and "keys_ok v w'"
    and "cv_objects v w (secret_key ns r) = Some x \<or> cv_objects v w' (secret_key ns r) = Some x"
    and "\<not> IsOwnedByAuthPolicy (obj_meta x)"
    and "cv_objects v w (secret_key ns r) \<noteq> cv_objects v w' (secret_key ns r)"
  shows "\<lparr>nn_namespace = ns, nn_name = n\<rparr> \<in> changed_requests v w w'"
proof -
  have "obj_key x = secret_key ns r" using assms(3-5) unfolding keys_ok_def by blast
  from secret_kind [OF this] obtain s where s: "x = SecretObj s" "om_namespace (sec_meta s) = ns" by blast
  have "\<lparr>nn_namespace = ns, nn_name = n\<rparr> \<in> set (case secret_watched x of None \<Rightarrow> [] | Some y \<Rightarrow> secret_EventHandler (cv_lister v w') y)"
    using enqueues_listed [OF assms(1, 2)] assms(6) s by simp
  from changed_requestsI(2) [OF assms(7)] mapped_requestsI [where f = "\<lambda>x. case secret_watched x of None \<Rightarrow> [] | Some y \<Rightarrow> secret_EventHandler (cv_lister v w') y", OF assms(5) this]
  show ?thesis by simp
qed

lemma configMap_change_told:
  assumes "listable v w'" and "cv_policies v w' ns n = Some ap'" and "keys_ok v w" and "keys_ok v w'"
    and "cv_configMaps v w ns r = Some x \<or> cv_configMaps v w' ns r = Some x"
    and "\<not> IsOwnedByAuthPolicy (fst x)" and "cv_configMaps v w ns r \<noteq> cv_configMaps v w' ns r"
  shows "\<lparr>nn_namespace = ns, nn_name = n\<rparr> \<in> changed_requests v w w'"
proof -
  have "om_namespace (fst x) = ns" using assms(3-5) unfolding keys_ok_def by blast
  then have told: "\<lparr>nn_namespace = ns, nn_name = n\<rparr> \<in> set (configmap_EventHandler (cv_lister v w') (WatchedConfigMap (fst x)))"
    using enqueues_listed [OF assms(1, 2)] assms(6) by simp
  have "map_option fst (cv_configMaps v w ns r) = Some (fst x) \<or> map_option fst (cv_configMaps v w' ns r) = Some (fst x)"
    using assms(5) by (metis option.map(2))
  from changed_requestsI(3) [OF assms(7)] mapped_requestsI [where f = "\<lambda>m. configmap_EventHandler (cv_lister v w') (WatchedConfigMap m)", OF this told]
  show ?thesis by simp
qed

lemma owned_change_told:
  assumes "cv_objects v w k = Some o' \<or> cv_objects v w' k = Some o'"
    and "owned_by (obj_meta o') q" and "cv_objects v w k \<noteq> cv_objects v w' k"
  shows "q \<in> changed_requests v w w'"
proof -
  have "q \<in> set (owner_requests (obj_meta o'))" using assms(2) by (simp add: owned_by_def)
  from changed_requestsI(2) [OF assms(3)] mapped_requestsI [where f = "\<lambda>x. owner_requests (obj_meta x)", OF assms(1) this]
  show ?thesis by simp
qed

subsection \<open>Steps of others\<close>

text \<open>The inputs and the own objects of a policy that gets no request did not change.\<close>

lemma external_secret:
  assumes "world_ok env v w" and "world_ok env v w'" and "listable v w'" and "cv_policies v w ns n = Some ap"
    and "cv_policies v w' ns n = Some ap'" and "core ap = core ap'"
    and "\<lparr>nn_namespace = ns, nn_name = n\<rparr> \<notin> changed_requests v w w'" and "r \<in> set (secret_refs ap)"
  shows "cv_objects v w (secret_key ns r) = cv_objects v w' (secret_key ns r)"
proof (rule ccontr)
  note ok = assms(1) [unfolded world_ok_def] and ok' = assms(2) [unfolded world_ok_def]
  assume diff: "cv_objects v w (secret_key ns r) \<noteq> cv_objects v w' (secret_key ns r)"
  then obtain x where x: "cv_objects v w (secret_key ns r) = Some x \<or> cv_objects v w' (secret_key ns r) = Some x"
    by (metis option.exhaust)
  have r': "r \<in> set (secret_refs ap')" using assms(8) refs_core [OF assms(6)] by simp
  have "\<not> IsOwnedByAuthPolicy (obj_meta x)"
    using x inputs_foreignD(2) [OF _ assms(4, 8)] inputs_foreignD(2) [OF _ assms(5) r'] ok ok' by blast
  from secret_change_told [OF assms(3, 5) _ _ x this] show False using ok ok' diff assms(7) by simp
qed

lemma external_configMap:
  assumes "world_ok env v w" and "world_ok env v w'" and "listable v w'" and "cv_policies v w ns n = Some ap"
    and "cv_policies v w' ns n = Some ap'" and "core ap = core ap'"
    and "\<lparr>nn_namespace = ns, nn_name = n\<rparr> \<notin> changed_requests v w w'" and "r \<in> set (configMap_refs ap)"
  shows "cv_configMaps v w ns r = cv_configMaps v w' ns r"
proof (rule ccontr)
  note ok = assms(1) [unfolded world_ok_def] and ok' = assms(2) [unfolded world_ok_def]
  assume diff: "cv_configMaps v w ns r \<noteq> cv_configMaps v w' ns r"
  then obtain x where x: "cv_configMaps v w ns r = Some x \<or> cv_configMaps v w' ns r = Some x"
    by (metis option.exhaust)
  have r': "r \<in> set (configMap_refs ap')" using assms(8) refs_core [OF assms(6)] by simp
  have "\<not> IsOwnedByAuthPolicy (fst x)"
    using x inputs_foreignD(3) [OF _ assms(4, 8)] inputs_foreignD(3) [OF _ assms(5) r'] ok ok' by blast
  from configMap_change_told [OF assms(3, 5) _ _ x this] show False using ok ok' diff assms(7) by simp
qed

lemma external_own:
  assumes "world_ok env v w" and "world_ok env v w'" and "cv_policies v w ns n = Some ap"
    and "cv_policies v w' ns n = Some ap'" and "core ap = core ap'"
    and "\<lparr>nn_namespace = ns, nn_name = n\<rparr> \<notin> changed_requests v w w'"
  shows "cv_objects v w' k = cv_objects v w k \<or>
    uncontrolled (c_isControlledBy (ce_client env)) (cv_objects v w k) ap \<and>
    uncontrolled (c_isControlledBy (ce_client env)) (cv_objects v w' k) ap"
proof -
  have "\<not> c_isControlledBy (ce_client env) o' ap"
    if o': "cv_objects v w k = Some o' \<or> cv_objects v w' k = Some o'" and diff: "cv_objects v w' k \<noteq> cv_objects v w k" for o'
  proof
    assume "c_isControlledBy (ce_client env) o' ap"
    then have "owned_by (obj_meta o') \<lparr>nn_namespace = ns, nn_name = n\<rparr>"
      using o' assms(1-4) controlled_core [OF assms(5)] unfolding world_ok_def owners_true_def by blast
    from owned_change_told [OF o' this] show False using diff assms(6) by simp
  qed
  then show ?thesis by (auto simp: uncontrolled_def)
qed

lemma external_settled:
  assumes "world_ok env v w" and "world_ok env v w'" and "generations_tell v w w'" and "listable v w'"
    and "cv_policies v w' ns n = Some ap'" and "\<lparr>nn_namespace = ns, nn_name = n\<rparr> \<notin> changed_requests v w w'"
    and "\<And>ap. cv_policies v w ns n = Some ap \<Longrightarrow> core ap = core ap' \<Longrightarrow> policy_settled env v RB w ap"
  shows "policy_settled env v RB w' ap'"
proof -
  obtain ap where ap: "cv_policies v w ns n = Some ap" "core ap = core ap'"
    using policy_change_told [OF assms(5, 6, 3)] by blast
  have "ap_namespace ap = ns" using policy_key [OF ap(1)] by simp
  then show ?thesis
    using external_secret [OF assms(1, 2, 4) ap(1) assms(5) ap(2) assms(6)]
      external_configMap [OF assms(1, 2, 4) ap(1) assms(5) ap(2) assms(6)]
      external_own [OF assms(1, 2) ap(1) assms(5) ap(2) assms(6)]
    by (intro settled_transfer [OF assms(7) [OF ap] ap(2) [symmetric]]) simp_all
qed

subsection \<open>Steps of the operator\<close>

lemma doReconcile_frame:
  assumes "ControllerResources ge s = Inr rs" and "selector_wf s" and "doReconcile (ce_client env) rs s w = (r, s', w')"
    and "k \<notin> set (policy_keys s)"
  shows "cv_objects v w' k = cv_objects v w k"
  by (rule reconcile_effect(1) [OF k8s_api_axioms assms])

text \<open>What a full reconciliation starts from: the scope belongs to the stored policy.\<close>

lemma full_scope:
  assumes "cv_policies v w ns n = Some stored" and "quiet_write v w w0" and "world_ok env v w"
    and "resolveAuthPolicy env w0 (InitializeStatus stored) = Some (Inr s)"
  obtains stored0 where "cv_policies v w0 ns n = Some stored0" "core stored0 = core stored"
    "core stored0 = core (s_authPolicy (validateAuthPolicy s))" "world_ok env v w0"
    "selector_wf (validateAuthPolicy s)" "policy_keys (validateAuthPolicy s) = own_keys ns n"
proof -
  note facts = resolved_scope_facts [OF assms(4)]
  have ok0: "world_ok env v w0" using assms(2) world_ok_same_policies [OF assms(3)] by (simp add: quiet_write_def)
  have "map_option core (cv_policies v w0 ns n) = Some (core stored)"
    using assms(1, 2) by (simp add: quiet_write_def same_policies_def)
  then obtain stored0 where s0: "cv_policies v w0 ns n = Some stored0" "core stored0 = core stored" by auto
  have core0: "core stored0 = core (s_authPolicy (validateAuthPolicy s))" using facts(1) s0(2) by simp
  have wf: "selector_wf (validateAuthPolicy s)"
    using ok0 s0(1) core_eqD(6) [OF core0] unfolding world_ok_def selectors_ok_def selector_wf_def by metis
  have keys: "policy_keys (validateAuthPolicy s) = own_keys ns n" using facts(3) policy_key [OF assms(1)] by simp
  show thesis by (rule that [OF s0 core0 ok0 wf keys])
qed

lemma full_settles:
  assumes "cv_policies v w ns n = Some stored" and "quiet_write v w w0" and "world_ok env v w"
    and "resolveAuthPolicy env w0 (InitializeStatus stored) = Some (Inr s)"
    and "ControllerResources ((ce_gen env)\<lparr>ge_run := rb\<rparr>) (validateAuthPolicy s) = Inr rs"
    and "doReconcile (ce_client env) rs (validateAuthPolicy s) w0 = (Inr result, s', w1)"
    and "quiet_write v w1 w'" and "rb \<in> RB"
  shows "policy_settled env v RB w' stored"
proof -
  let ?i = "InitializeStatus stored"
  obtain stored0 where s0: "cv_policies v w0 ns n = Some stored0" "core stored0 = core stored"
    and ok0: "world_ok env v w0" and wf: "selector_wf (validateAuthPolicy s)"
    and keys: "policy_keys (validateAuthPolicy s) = own_keys ns n"
    using full_scope [OF assms(1-4)] by metis
  have "resolveAuthPolicy env w1 ?i = resolveAuthPolicy env w0 ?i"
  proof (rule resolve_reads)
    fix x assume x: "x \<in> set (secret_refs ?i)"
    then have "x \<in> set (secret_refs stored0)" using refs_core [of stored0 ?i] s0(2) by simp
    then have "x \<noteq> EnvoySecretName n" using ok0 inputs_foreignD(1) [OF _ s0(1)] unfolding world_ok_def by blast
    then have "secret_key (ap_namespace ?i) x \<notin> set (own_keys ns n)" using own_secret by blast
    then have "cv_objects v w1 (secret_key (ap_namespace ?i) x) = cv_objects v w0 (secret_key (ap_namespace ?i) x)"
      using doReconcile_frame [OF assms(5) wf assms(6)] keys by simp
    then show "rd_secret (ce_reader env w1) (ap_namespace ?i) x = rd_secret (ce_reader env w0) (ap_namespace ?i) x"
      by (rule reader_secret)
  qed (rule reader_configMap, simp add: doReconcile_keeps(2) [OF assms(6)])
  with assms(4) have "resolveAuthPolicy env w1 ?i = Some (Inr s)" by simp
  moreover have "list_all (settled_in (c_isControlledBy (ce_client env)) (cv_objects v w1) (validateAuthPolicy s)) rs"
    by (rule doReconcile_settles [OF k8s_api_axioms assms(5) wf assms(6)])
  ultimately have "policy_settled env v RB w1 stored" using assms(5, 8) unfolding policy_settled_def by blast
  then show ?thesis by (rule settled_transfer) (use assms(7) in \<open>simp_all add: quiet_write_def\<close>)
qed

text \<open>What a reconciliation does to the cluster.\<close>

lemma Reconcile_effect:
  assumes "Reconcile (at_run env rb t) ns n g w = (out, g', w')" and "world_ok env v w"
  shows "same_policies v w w' \<and> cv_configMaps v w' = cv_configMaps v w \<and> world_ok env v w' \<and>
    (\<forall>k. k \<notin> set (own_keys ns n) \<longrightarrow> cv_objects v w' k = cv_objects v w k)"
  using assms(1)
proof (cases rule: Reconcile_phases)
  case quiet
  then show ?thesis using world_ok_same_policies [OF assms(2)] by (auto simp: quiet_write_def)
next
  case (full stored w0 s rs r s' w1)
  obtain stored0 where s0: "cv_policies v w0 ns n = Some stored0" "core stored0 = core (s_authPolicy (validateAuthPolicy s))"
    and ok0: "world_ok env v w0" and wf: "selector_wf (validateAuthPolicy s)"
    and keys: "policy_keys (validateAuthPolicy s) = own_keys ns n"
    using full_scope [OF full(1, 3) assms(2) full(4)] by metis
  have "world_ok env v w1"
    by (rule doReconcile_world_ok [OF full(6, 5) ok0 s0 resolved_scope_facts(2) [OF full(4)]])
  then have "world_ok env v w'" using full(7) world_ok_same_policies by (simp add: quiet_write_def)
  then show ?thesis
    using full(3, 7) doReconcile_keeps [OF full(6)] doReconcile_frame [OF full(5) wf full(6)] keys
    by (simp add: quiet_write_def same_policies_def)
qed

lemma Reconcile_settles:
  assumes "Reconcile (at_run env rb t) ns n g w = (Reconciled emptyResult, g', w')" and "world_ok env v w"
    and "rb \<in> RB" and "cv_policies v w ns n = Some ap" and "ap_deletionTimestamp ap = None"
  shows "policy_settled env v RB w' ap"
  using assms(1)
proof (cases rule: Reconcile_phases)
  case quiet
  then show ?thesis using assms(4, 5) by blast
next
  case (full stored w0 s rs r s' w1)
  then obtain result where "r = Inr result" by (cases r) auto
  then show ?thesis
    using full_settles [OF full(1, 3) assms(2) full(4, 5) _ full(7) assms(3)] full(1, 6) assms(4) by simp
qed

text \<open>A reconciliation writes nothing that a policy refers to, and keeps other policies settled.\<close>

lemma Reconcile_inputs:
  assumes "Reconcile (at_run env rb t) ns' n' g w = (out, g', w')" and "world_ok env v w"
    and "cv_policies v w ns n = Some ap"
  shows "r \<in> set (secret_refs ap) \<Longrightarrow>
      cv_objects v w (secret_key (ap_namespace ap) r) = cv_objects v w' (secret_key (ap_namespace ap) r)"
    and "cv_configMaps v w (ap_namespace ap) x = cv_configMaps v w' (ap_namespace ap) x"
proof -
  note effect = Reconcile_effect [OF assms(1, 2)]
  show "cv_objects v w (secret_key (ap_namespace ap) r) = cv_objects v w' (secret_key (ap_namespace ap) r)"
    if "r \<in> set (secret_refs ap)"
  proof -
    have "r \<noteq> EnvoySecretName n'" using inputs_foreignD(1) [OF _ assms(3) that] assms(2) by (simp add: world_ok_def)
    then have "secret_key (ap_namespace ap) r \<notin> set (own_keys ns' n')" using own_secret by blast
    then show ?thesis using effect by simp
  qed
  show "cv_configMaps v w (ap_namespace ap) x = cv_configMaps v w' (ap_namespace ap) x" using effect by simp
qed

lemma Reconcile_others:
  assumes "Reconcile (at_run env rb t) ns' n' g w = (out, g', w')" and "world_ok env v w"
    and "cv_policies v w ns n = Some ap" and "core ap' = core ap" and "(ns, n) \<noteq> (ns', n')"
    and "policy_settled env v RB w ap"
  shows "policy_settled env v RB w' ap'"
proof (rule settled_transfer [OF assms(6, 4) Reconcile_inputs [OF assms(1-3)]])
  fix k assume "k \<in> set (own_keys (ap_namespace ap) (ap_name ap))"
  then have "k \<notin> set (own_keys ns' n')" using own_keys_disjoint policy_key [OF assms(3)] assms(5) by blast
  then show "cv_objects v w' k = cv_objects v w k \<or>
      uncontrolled (c_isControlledBy (ce_client env)) (cv_objects v w k) ap \<and>
      uncontrolled (c_isControlledBy (ce_client env)) (cv_objects v w' k) ap"
    using Reconcile_effect [OF assms(1, 2)] by simp
qed

lemma process_keeps:
  assumes "process_step env v RB st st'" and "world_ok env v (os_world st)" and "unqueued_settled env v RB st"
  shows "world_ok env v (os_world st') \<and> unqueued_settled env v RB st'"
proof -
  obtain q rb t out g' w' where 1: "q \<in> os_queue st" "rb \<in> RB"
    "Reconcile (at_run env rb t) (nn_namespace q) (nn_name q) (os_gauge st) (os_world st) = (out, g', w')"
    "st' = \<lparr>os_world = w', os_queue = (os_queue st - {q}) \<union> changed_requests v (os_world st) w' \<union>
      (if out = Reconciled emptyResult then {} else {q}), os_gauge = g'\<rparr>"
    using assms(1) by (rule process_stepE) (rule that)
  let ?w = "os_world st"
  note effect = Reconcile_effect [OF 1(3) assms(2)]
  have "policy_settled env v RB w' ap'"
    if ap': "cv_policies v w' ns n = Some ap'" "ap_deletionTimestamp ap' = None"
      and nq: "\<lparr>nn_namespace = ns, nn_name = n\<rparr> \<notin> os_queue st'" for ns n ap'
  proof -
    obtain ap where ap: "cv_policies v ?w ns n = Some ap" "core ap = core ap'"
      using same_policiesE [OF _ ap'(1)] effect by blast
    have live: "ap_deletionTimestamp ap = None" using core_eqD(5) [OF ap(2)] ap'(2) by simp
    show ?thesis
    proof (cases "(ns, n) = (nn_namespace q, nn_name q)")
      case True
      then have "q = \<lparr>nn_namespace = ns, nn_name = n\<rparr>" by simp
      then have out: "out = Reconciled emptyResult" using nq 1(4) by (auto split: if_splits)
      have "policy_settled env v RB w' ap"
        using Reconcile_settles [OF 1(3) [unfolded out] assms(2) 1(2)] ap(1) live True by simp
      then show ?thesis by (rule settled_transfer) (simp_all add: ap(2))
    next
      case False
      then have "\<lparr>nn_namespace = ns, nn_name = n\<rparr> \<notin> os_queue st" using nq 1(4) by auto
      then have "policy_settled env v RB ?w ap" using assms(3) ap(1) live unfolding unqueued_settled_def by blast
      from Reconcile_others [OF 1(3) assms(2) ap(1) ap(2) [symmetric] False this] show ?thesis .
    qed
  qed
  then show ?thesis using effect 1(4) by (auto simp: unqueued_settled_def)
qed

lemma control_keeps:
  assumes "orderly_step env v RB st st'" and "world_ok env v (os_world st)" and "unqueued_settled env v RB st"
  shows "world_ok env v (os_world st') \<and> unqueued_settled env v RB st'"
proof (cases "process_step env v RB st st'")
  case True
  then show ?thesis using process_keeps assms(2, 3) by blast
next
  case False
  then have step: "control_step env v RB st st'" and "orderly_change env v (os_world st) (os_world st')"
    using assms(1) by (auto simp: orderly_step_def)
  then have orderly: "world_ok env v (os_world st')" "generations_tell v (os_world st) (os_world st')"
    "listable v (os_world st')"
    by (simp_all add: orderly_change_def)
  have queue: "os_queue st \<union> changed_requests v (os_world st) (os_world st') \<subseteq> os_queue st'"
    using False step by (auto simp: control_step_iff)
  have "policy_settled env v RB (os_world st') ap'"
    if ap': "cv_policies v (os_world st') ns n = Some ap'" "ap_deletionTimestamp ap' = None"
      and nq: "\<lparr>nn_namespace = ns, nn_name = n\<rparr> \<notin> os_queue st'" for ns n ap'
  proof (rule external_settled [OF assms(2) orderly ap'(1)])
    show "\<lparr>nn_namespace = ns, nn_name = n\<rparr> \<notin> changed_requests v (os_world st) (os_world st')" using queue nq by blast
    fix ap assume "cv_policies v (os_world st) ns n = Some ap" "core ap = core ap'"
    then show "policy_settled env v RB (os_world st) ap"
      using assms(3) queue nq core_eqD(5) [of ap ap'] ap'(2) unfolding unqueued_settled_def by auto
  qed
  then show ?thesis using orderly(1) by (simp add: unqueued_settled_def)
qed

lemma control_run_keeps:
  assumes "(orderly_step env v RB)\<^sup>*\<^sup>* st st'" and "world_ok env v (os_world st)" and "unqueued_settled env v RB st"
  shows "world_ok env v (os_world st') \<and> unqueued_settled env v RB st'"
  using assms by (induction rule: rtranclp_induct) (use control_keeps in blast)+

end

definition all_queued :: "'w clusterView \<Rightarrow> 'w operatorState \<Rightarrow> bool" where
  "all_queued v st \<longleftrightarrow> (\<forall>ns n ap. cv_policies v (os_world st) ns n = Some ap \<longrightarrow>
     \<lparr>nn_namespace = ns, nn_name = n\<rparr> \<in> os_queue st)"

lemma all_queued_settled: "all_queued v st \<Longrightarrow> unqueued_settled env v RB st"
  by (auto simp: all_queued_def unqueued_settled_def)

end
