(* ===== verification/Draining.thy ===== *)
theory Draining
  imports ControlLoop
begin

text \<open>
  The queue runs empty: in a cluster whose calls are answered, and without changes by others, every
  reconciliation leaves less work.
\<close>

section \<open>Draining the queue\<close>

text \<open>
  What a policy needs to be reconciled: it resolves, its resources can be built with any random bytes
  drawn, and no other owner holds one of its six names.
\<close>

definition healthy_policy ::
  "'w controllerEnv \<Rightarrow> 'w clusterView \<Rightarrow> runChoices set \<Rightarrow> 'w \<Rightarrow> authPolicy \<Rightarrow> bool" where
  "healthy_policy env v RB w ap \<longleftrightarrow>
     (\<exists>s. resolveAuthPolicy env w (InitializeStatus ap) = Some (Inr s) \<and>
        (\<forall>rb \<in> RB. \<exists>rs. ControllerResources ((ce_gen env)\<lparr>ge_run := rb\<rparr>) (validateAuthPolicy s) = Inr rs)) \<and>
     list_all (unobstructed (c_isControlledBy (ce_client env)) (cv_objects v w) ap) (own_keys (ap_namespace ap) (ap_name ap))"

definition healthy ::
  "'w controllerEnv \<Rightarrow> 'w clusterView \<Rightarrow> runChoices set \<Rightarrow> 'w \<Rightarrow> bool" where
  "healthy env v RB w \<longleftrightarrow> (\<forall>ns n ap. cv_policies v w ns n = Some ap \<longrightarrow> ap_deletionTimestamp ap = None \<longrightarrow>
     healthy_policy env v RB w ap)"

locale reliable_cluster = cluster + reliable_api "ce_client env" "cv_objects v" +
  assumes policy_stored: "cv_policies v w ns n = Some ap \<Longrightarrow> pa_get (ce_policies env) w ns n = PolicyFound ap"
    and policy_absent: "cv_policies v w ns n = None \<Longrightarrow> pa_get (ce_policies env) w ns n = PolicyNotFound"
    and label_patch: "cv_policies v w (ap_namespace ap) (ap_name ap) \<noteq> None \<Longrightarrow>
      \<exists>patched w'. ce_patchPolicy env w ap ap' = (Inr patched, w')"
begin

lemma unobstructed_core:
  "core a = core b \<Longrightarrow> unobstructed (c_isControlledBy (ce_client env)) objs a k =
     unobstructed (c_isControlledBy (ce_client env)) objs b k"
  using controlled_core [of a b] by (simp add: unobstructed_def)

text \<open>With its calls answered, the reconciliation of a policy in good health succeeds.\<close>

lemma finish_succeeds:
  assumes "resolveAuthPolicy env w (InitializeStatus ap) = Some (Inr s)"
    and "ControllerResources ((ce_gen env)\<lparr>ge_run := rb\<rparr>) (validateAuthPolicy s) = Inr rs"
    and "selector_wf (validateAuthPolicy s)"
    and "list_all (unobstructed (c_isControlledBy (ce_client env)) (cv_objects v w) ap) (own_keys (ap_namespace ap) (ap_name ap))"
  shows "fst (finishReconcile (at_run env rb t) original (validateAuthPolicy s) g w) = Reconciled emptyResult"
proof -
  let ?s = "validateAuthPolicy s"
  note facts = resolved_scope_facts [OF assms(1)]
  have "list_all (unobstructed (c_isControlledBy (ce_client env)) (cv_objects v w) (s_authPolicy ?s)) (policy_keys ?s)"
    using assms(4) unobstructed_core [of ap "InitializeStatus ap"] facts by (simp add: list_all_iff)
  from doReconcile_succeeds [OF reliable_api_axioms assms(2, 3) this] obtain s' w1 where
    d: "doReconcile (ce_client env) rs ?s w = (Inr emptyResult, s', w1)" by blast
  obtain errs where l: "doReconcile_loop (ce_client env) rs ?s w [] emptyResult = (errs, emptyResult, s', w1)"
    using doReconcile_loop_of [OF d] by metis
  have "s_invalidConfig s' \<Longrightarrow> s_validationErrorMessage s' \<noteq> None"
    using loop_scope [OF l] validateAuthPolicy_message [of s] by simp
  then obtain st where "newStatus (ce_now (at_run env rb t)) s' original rs = Some st" using newStatus_total by blast
  then show ?thesis
    using assms(2) d by (simp add: finishReconcile_def UpdateAuthPolicyStatus_def split: prod.splits)
qed

lemma Reconcile_succeeds:
  assumes "world_ok env v w" and "healthy env v RB w" and "rb \<in> RB"
  shows "fst (Reconcile (at_run env rb t) ns n g w) = Reconciled emptyResult"
proof (cases "cv_policies v w ns n")
  case None
  then show ?thesis using policy_absent by (simp add: Reconcile_def)
next
  case (Some ap)
  note get = policy_stored [OF Some]
  show ?thesis
  proof (cases "ap_deletionTimestamp ap")
    case (Some d)
    then show ?thesis using get by (simp add: Reconcile_def InitializeStatus_def)
  next
    case None
    let ?i = "InitializeStatus ap"
    have h: "healthy_policy env v RB w ap" using assms(2) Some None unfolding healthy_def by blast
    have after: "fst (afterLabels (at_run env rb t) ?i original g w0) = Reconciled emptyResult"
      if q: "quiet_write v w w0" for w0 original
    proof -
      obtain s rs where s: "resolveAuthPolicy env w ?i = Some (Inr s)"
        and rs: "ControllerResources ((ce_gen env)\<lparr>ge_run := rb\<rparr>) (validateAuthPolicy s) = Inr rs"
        using h assms(3) unfolding healthy_policy_def by blast
      have "resolveAuthPolicy env w0 ?i = resolveAuthPolicy env w ?i"
        by (rule resolve_reads; rule reader_secret reader_configMap) (use q in \<open>simp_all add: quiet_write_def\<close>)
      with s have s0: "resolveAuthPolicy env w0 ?i = Some (Inr s)" by simp
      have "selector_wf (validateAuthPolicy s)" using full_scope [OF Some q assms(1) s0] by metis
      from finish_succeeds [OF s0 rs this] show ?thesis
        using h q s0 by (simp add: afterLabels_def healthy_policy_def quiet_write_def)
    qed
    define original where "original = ?i\<lparr>ap_labels := maps_Copy (ap_labels ?i) AuthPolicyStandardLabels\<rparr>"
    have "cv_policies v w (ap_namespace ?i) (ap_name ?i) \<noteq> None"
      using Some policy_key [OF Some] by (simp add: InitializeStatus_def)
    from label_patch [OF this] obtain patched w0 where p: "ce_patchPolicy env w ?i original = (Inr patched, w0)" by blast
    have "quiet_write v w w0" by (rule patch_quiet [OF p]) (simp add: original_def core_def)
    with after p get None show ?thesis
      by (simp add: Reconcile_def InitializeStatus_def original_def Let_def)
  qed
qed

end

text \<open>Random bytes can be drawn and values encoded; and no comparison sees more than the values.\<close>

definition secrets_built :: "'w controllerEnv \<Rightarrow> runChoices set \<Rightarrow> bool" where
  "secrets_built env RB \<longleftrightarrow> (\<forall>rb \<in> RB. rc_randomBytes rb 32 \<noteq> None) \<and> (\<forall>x. ge_yamlMarshal (ce_gen env) x \<noteq> None)"

definition exact_comparisons :: "runChoices set \<Rightarrow> bool" where
  "exact_comparisons RB \<longleftrightarrow> (\<forall>rb \<in> RB. exact_comparison rb)"

context reliable_cluster
begin

text \<open>With exact comparisons the reconciliation of a settled policy writes no object.\<close>

lemma Reconcile_idle:
  assumes "Reconcile (at_run env rb t) ns n g w = (out, g', w')" and "world_ok env v w"
    and "cv_policies v w ns n = Some ap" and "policy_settled env v RB w ap"
    and "rb \<in> RB" and "secrets_built env RB" and "exact_comparisons RB"
  shows "cv_objects v w' = cv_objects v w"
  using assms(1)
proof (cases rule: Reconcile_phases)
  case quiet
  then show ?thesis by (simp add: quiet_write_def)
next
  case (full stored w0 s rs r s' w1)
  then have stored: "stored = ap" using assms(3) by simp
  obtain rb0 s0 rs0 where rb0: "rb0 \<in> RB" and s0: "resolveAuthPolicy env w (InitializeStatus ap) = Some (Inr s0)"
    and rs0: "ControllerResources ((ce_gen env)\<lparr>ge_run := rb0\<rparr>) (validateAuthPolicy s0) = Inr rs0"
    and st0: "list_all (settled_in (c_isControlledBy (ce_client env)) (cv_objects v w) (validateAuthPolicy s0)) rs0"
    using assms(4) unfolding policy_settled_def by blast
  have "resolveAuthPolicy env w0 (InitializeStatus ap) = resolveAuthPolicy env w (InitializeStatus ap)"
    by (rule resolve_reads; rule reader_secret reader_configMap) (use full(3) in \<open>simp_all add: quiet_write_def\<close>)
  then have s: "s = s0" using s0 full(4) stored by simp
  have gen: "(ce_gen env)\<lparr>ge_run := rb0\<rparr>\<lparr>ge_run := rb\<rparr> = (ce_gen env)\<lparr>ge_run := rb\<rparr>" by simp
  have "list_all (settled_in (c_isControlledBy (ce_client env)) (cv_objects v w) (validateAuthPolicy s0)) rs"
    by (rule resources_settled_random [OF rs0 full(5) [unfolded s gen [symmetric]] _ _ _ st0])
       (use rb0 assms(5, 6) in \<open>simp_all add: secrets_built_def\<close>)
  then have st: "list_all (settled_in (c_isControlledBy (ce_client env)) (cv_objects v w0) (validateAuthPolicy s)) rs"
    using full(3) s by (simp add: quiet_write_def)
  have "keys_ok v w0" using full(3) assms(2) by (simp add: world_ok_def keys_ok_def quiet_write_def)
  then have get: "c_get (ce_client env) w0 k \<noteq> GetError x" for k x
    using get_stored [of w0 k] get_absent [of w0 k] unfolding keys_ok_def
    by (cases "cv_objects v w0 k") auto
  obtain errs where l: "doReconcile_loop (ce_client env) rs (validateAuthPolicy s) w0 [] emptyResult = (errs, emptyResult, s', w1)"
    using doReconcile_loop_of [OF full(6)] by metis
  have "exact_comparison (ge_run ((ce_gen env)\<lparr>ge_run := rb\<rparr>))"
    using assms(5, 7) by (simp add: exact_comparisons_def)
  note exact = resources_exact [OF full(5) this]
  have "[] = errs \<and> emptyResult = emptyResult \<and> w1 = w0"
    using loop_idle [OF st get exact l] by metis
  then have "w1 = w0" by blast
  then show ?thesis using full(3, 7) by (simp add: quiet_write_def)
qed

text \<open>A reconciliation in good health leaves every object under the policy's names to the policy.\<close>

lemma Reconcile_unobstructed:
  assumes "Reconcile (at_run env rb t) ns n g w = (out, g', w')" and "world_ok env v w"
    and "cv_policies v w ns n = Some ap"
    and "unobstructed (c_isControlledBy (ce_client env)) (cv_objects v w) ap k"
  shows "unobstructed (c_isControlledBy (ce_client env)) (cv_objects v w') ap k"
  using assms(1)
proof (cases rule: Reconcile_phases)
  case quiet
  then show ?thesis using assms(4) by (simp add: quiet_write_def)
next
  case (full stored w0 s rs r s' w1)
  then have stored: "stored = ap" using assms(3) by simp
  have core: "core ap = core (s_authPolicy (validateAuthPolicy s))"
    using resolved_scope_facts(1) [OF full(4)] stored by simp
  have wf: "selector_wf (validateAuthPolicy s)" using full_scope [OF full(1, 3) assms(2) full(4)] by metis
  have "unobstructed (c_isControlledBy (ce_client env)) (cv_objects v w0) (s_authPolicy (validateAuthPolicy s)) k"
    using assms(4) full(3) unobstructed_core [OF core] by (simp add: quiet_write_def)
  from doReconcile_unobstructed [OF k8s_api_axioms full(5) wf full(6) this]
  show ?thesis using full(7) unobstructed_core [OF core] by (simp add: quiet_write_def)
qed

lemma ownerD:
  "world_ok env v w \<Longrightarrow> cv_objects v w k = Some o' \<Longrightarrow> cv_policies v w ns n = Some ap \<Longrightarrow>
     c_isControlledBy (ce_client env) o' ap \<Longrightarrow> owned_by (obj_meta o') \<lparr>nn_namespace = ns, nn_name = n\<rparr>"
  unfolding world_ok_def owners_true_def by blast

lemma Reconcile_owned:
  assumes "Reconcile (at_run env rb t) ns n g w = (out, g', w')" and "world_ok env v w" and "healthy env v RB w"
    and "cv_objects v w k \<noteq> cv_objects v w' k" and "cv_objects v w k = Some o' \<or> cv_objects v w' k = Some o'"
  shows "owned_by (obj_meta o') \<lparr>nn_namespace = ns, nn_name = n\<rparr>"
proof -
  let ?ctl = "c_isControlledBy (ce_client env)"
  note effect = Reconcile_effect [OF assms(1, 2)]
  have k: "k \<in> set (own_keys ns n)" using effect assms(4) by metis
  obtain ap where ap: "cv_policies v w ns n = Some ap" "ap_deletionTimestamp ap = None"
    using assms(1)
  proof (cases rule: Reconcile_phases)
    case quiet
    then show ?thesis using assms(4) by (simp add: quiet_write_def)
  qed (use that in blast)
  then have "healthy_policy env v RB w ap" using assms(3) unfolding healthy_def by blast
  then have un: "unobstructed ?ctl (cv_objects v w) ap k"
    using k policy_key [OF ap(1)] by (simp add: healthy_policy_def list_all_iff)
  have ctl: "?ctl o' ap"
    using assms(5) un Reconcile_unobstructed [OF assms(1, 2) ap(1) un] unfolding unobstructed_def by blast
  have "map_option core (cv_policies v w' ns n) = Some (core ap)" using effect ap(1) by (simp add: same_policies_def)
  then obtain ap' where ap': "cv_policies v w' ns n = Some ap'" "core ap' = core ap" by auto
  have "?ctl o' ap'" using ctl controlled_core [OF ap'(2)] by simp
  then show ?thesis
    using assms(5) ownerD [OF _ _ ap(1) ctl] ownerD [OF _ _ ap'(1)] assms(2) effect by blast
qed

lemma owned_events:
  assumes "\<And>o'. old = Some o' \<or> new = Some o' \<Longrightarrow> owned_by (obj_meta o') q"
  shows "set (SetupWithManager l (ObjectChange old new)) \<subseteq> {q}"
proof -
  have "set (case secret_watched o' of None \<Rightarrow> [] | Some x \<Rightarrow> secret_EventHandler l x) \<subseteq> {q}"
    if "old = Some o' \<or> new = Some o'" for o'
    using assms [OF that] by (cases o') (simp_all add: owned_by_def)
  moreover have "set (owner_requests (obj_meta o')) \<subseteq> {q}" if "old = Some o' \<or> new = Some o'" for o'
    using assms [OF that] by (simp add: owned_by_def)
  ultimately show ?thesis unfolding SetupWithManager.simps set_append by (intro Un_least mapped_requests_subset)
qed

text \<open>Its events enqueue no one else.\<close>

lemma Reconcile_requests:
  assumes "Reconcile (at_run env rb t) ns n g w = (out, g', w')" and "world_ok env v w" and "healthy env v RB w"
  shows "changed_requests v w w' \<subseteq> {\<lparr>nn_namespace = ns, nn_name = n\<rparr>}"
    and "cv_objects v w' = cv_objects v w \<Longrightarrow> changed_requests v w w' = {}"
proof -
  let ?ctl = "c_isControlledBy (ce_client env)"
  note effect = Reconcile_effect [OF assms(1, 2)]
  have policies: "for_requests (cv_policies v w a b) (cv_policies v w' a b) = []" for a b
  proof -
    have "map_option core (cv_policies v w' a b) = map_option core (cv_policies v w a b)"
      using effect by (simp add: same_policies_def)
    then show ?thesis
      by (cases "cv_policies v w a b"; cases "cv_policies v w' a b") (auto simp: for_requests_def dest!: core_eqD(4))
  qed
  have objects: "set (SetupWithManager (cv_lister v w') (ObjectChange (cv_objects v w k) (cv_objects v w' k))) \<subseteq>
      {\<lparr>nn_namespace = ns, nn_name = n\<rparr>}" if "cv_objects v w k \<noteq> cv_objects v w' k" for k
    using Reconcile_owned [OF assms that] by (intro owned_events) blast
  show "changed_requests v w w' \<subseteq> {\<lparr>nn_namespace = ns, nn_name = n\<rparr>}"
    using effect policies objects unfolding changed_requests_def SetupWithManager.simps(1) by (auto simp del: SetupWithManager.simps)
  show "changed_requests v w w' = {}" if "cv_objects v w' = cv_objects v w"
    using effect policies that by (auto simp: changed_requests_def)
qed

end

text \<open>How often a request may still be taken: twice when its policy is not settled.\<close>

definition pending ::
  "'w controllerEnv \<Rightarrow> 'w clusterView \<Rightarrow> runChoices set \<Rightarrow> 'w \<Rightarrow> namespacedName \<Rightarrow> nat" where
  "pending env v RB w q =
     (if \<exists>ap. cv_policies v w (nn_namespace q) (nn_name q) = Some ap \<and> ap_deletionTimestamp ap = None \<and>
           \<not> policy_settled env v RB w ap
      then 2 else 1)"

definition work_left ::
  "'w controllerEnv \<Rightarrow> 'w clusterView \<Rightarrow> runChoices set \<Rightarrow> 'w operatorState \<Rightarrow> nat" where
  "work_left env v RB st = (\<Sum>q \<in> os_queue st. pending env v RB (os_world st) q)"

lemma pending_bounds: "1 \<le> pending env v RB w q" "pending env v RB w q \<le> 2"
  by (simp_all add: pending_def)

lemma work_left_bound: "finite (os_queue st) \<Longrightarrow> work_left env v RB st \<le> 2 * card (os_queue st)"
  using sum_bounded_above [of "os_queue st" "pending env v RB (os_world st)" 2, OF pending_bounds(2)]
  by (simp add: work_left_def mult.commute)

context reliable_cluster
begin

lemma Reconcile_healthy:
  assumes "Reconcile (at_run env rb t) ns n g w = (out, g', w')" and "world_ok env v w" and "healthy env v RB w"
  shows "healthy env v RB w'"
  unfolding healthy_def
proof (intro allI impI)
  fix ns2 n2 ap' assume ap': "cv_policies v w' ns2 n2 = Some ap'" "ap_deletionTimestamp ap' = None"
  note effect = Reconcile_effect [OF assms(1, 2)]
  obtain ap where ap: "cv_policies v w ns2 n2 = Some ap" "core ap = core ap'"
    using same_policiesE [OF _ ap'(1)] effect by blast
  note name = policy_key [OF ap(1)] policy_key [OF ap'(1)]
  have h: "healthy_policy env v RB w ap"
    using assms(3) ap core_eqD(5) [OF ap(2)] ap'(2) unfolding healthy_def by simp
  then obtain s where s: "resolveAuthPolicy env w (InitializeStatus ap) = Some (Inr s)"
    "\<forall>rb \<in> RB. \<exists>rs. ControllerResources ((ce_gen env)\<lparr>ge_run := rb\<rparr>) (validateAuthPolicy s) = Inr rs"
    unfolding healthy_policy_def by blast
  obtain s' where "resolveAuthPolicy env w' (InitializeStatus ap') = Some (Inr s')"
    "\<And>ge. ControllerResources ge (validateAuthPolicy s') = ControllerResources ge (validateAuthPolicy s)"
    using resolve_transfer [OF s(1) ap(2) [symmetric] Reconcile_inputs [OF assms(1, 2) ap(1)]] by metis
  moreover have "unobstructed (c_isControlledBy (ce_client env)) (cv_objects v w') ap' k" if "k \<in> set (own_keys ns2 n2)" for k
  proof -
    have un: "unobstructed (c_isControlledBy (ce_client env)) (cv_objects v w) ap k"
      using h that name by (simp add: healthy_policy_def list_all_iff)
    show ?thesis
    proof (cases "(ns2, n2) = (ns, n)")
      case True
      then show ?thesis
        using Reconcile_unobstructed [OF assms(1, 2) _ un] ap(1) unobstructed_core [OF ap(2)] by simp
    next
      case False
      then have "k \<notin> set (own_keys ns n)" using own_keys_disjoint that by blast
      then show ?thesis using effect un unobstructed_core [OF ap(2)] by (simp add: unobstructed_def)
    qed
  qed
  ultimately show "healthy_policy env v RB w' ap'"
    using s(2) name by (simp add: healthy_policy_def list_all_iff)
qed

lemma pending_others:
  assumes "Reconcile (at_run env rb t) (nn_namespace q) (nn_name q) g w = (out, g', w')" and "world_ok env v w"
    and "q' \<noteq> q"
  shows "pending env v RB w' q' \<le> pending env v RB w q'"
proof -
  have "policy_settled env v RB w' ap'"
    if ap': "cv_policies v w' (nn_namespace q') (nn_name q') = Some ap'" "ap_deletionTimestamp ap' = None"
      and settled: "pending env v RB w q' = 1" for ap'
  proof -
    obtain ap where ap: "cv_policies v w (nn_namespace q') (nn_name q') = Some ap" "core ap = core ap'"
      using same_policiesE [OF _ ap'(1)] Reconcile_effect [OF assms(1, 2)] by blast
    have "policy_settled env v RB w ap"
      using settled ap(1) core_eqD(5) [OF ap(2)] ap'(2) by (auto simp: pending_def split: if_splits)
    moreover have "(nn_namespace q', nn_name q') \<noteq> (nn_namespace q, nn_name q)" using assms(3) by (cases q; cases q') simp
    ultimately show ?thesis using Reconcile_others [OF assms(1, 2) ap(1) ap(2) [symmetric]] by blast
  qed
  then show ?thesis using pending_bounds [of env v RB w q'] by (auto simp: pending_def split: if_splits)
qed

lemma pending_done:
  assumes "Reconcile (at_run env rb t) (nn_namespace q) (nn_name q) g w = (Reconciled emptyResult, g', w')"
    and "world_ok env v w" and "rb \<in> RB"
  shows "pending env v RB w' q = 1"
proof -
  have "policy_settled env v RB w' ap'"
    if ap': "cv_policies v w' (nn_namespace q) (nn_name q) = Some ap'" "ap_deletionTimestamp ap' = None" for ap'
  proof -
    obtain ap where ap: "cv_policies v w (nn_namespace q) (nn_name q) = Some ap" "core ap = core ap'"
      using same_policiesE [OF _ ap'(1)] Reconcile_effect [OF assms(1, 2)] by blast
    have "policy_settled env v RB w' ap"
      using Reconcile_settles [OF assms ap(1)] core_eqD(5) [OF ap(2)] ap'(2) by simp
    then show ?thesis by (rule settled_transfer) (simp_all add: ap(2))
  qed
  then show ?thesis by (auto simp: pending_def)
qed

lemma pending_changed:
  assumes "Reconcile (at_run env rb t) (nn_namespace q) (nn_name q) g w = (out, g', w')" and "world_ok env v w"
    and "rb \<in> RB" and "secrets_built env RB" and "exact_comparisons RB" and "cv_objects v w' \<noteq> cv_objects v w"
  shows "pending env v RB w q = 2"
  using assms(1)
proof (cases rule: Reconcile_phases)
  case quiet
  then show ?thesis using assms(6) by (simp add: quiet_write_def)
next
  case (full ap w0 s rs r s' w1)
  then show ?thesis using Reconcile_idle [OF assms(1, 2) full(1) _ assms(3-5)] assms(6) by (auto simp: pending_def)
qed

text \<open>Every request that is taken leaves less work.\<close>

lemma process_decreases:
  assumes "process_step env v RB st st'" and "world_ok env v (os_world st)" and "healthy env v RB (os_world st)"
    and "secrets_built env RB" and "exact_comparisons RB" and "finite (os_queue st)"
  shows "work_left env v RB st' < work_left env v RB st" and "finite (os_queue st')"
    and "healthy env v RB (os_world st')"
proof -
  obtain q rb t out g' w' where st: "q \<in> os_queue st" "rb \<in> RB"
    "Reconcile (at_run env rb t) (nn_namespace q) (nn_name q) (os_gauge st) (os_world st) = (out, g', w')"
    "st' = \<lparr>os_world = w', os_queue = (os_queue st - {q}) \<union> changed_requests v (os_world st) w' \<union>
      (if out = Reconciled emptyResult then {} else {q}), os_gauge = g'\<rparr>"
    using assms(1) by (rule process_stepE) (rule that)
  let ?w = "os_world st" and ?Q = "os_queue st - {q}"
  let ?p = "pending env v RB ?w" and ?p' = "pending env v RB w'"
  have out: "out = Reconciled emptyResult" using Reconcile_succeeds [OF assms(2, 3) st(2)] st(3) by (metis fst_conv)
  note run = st(3) [unfolded out]
  have ch: "changed_requests v ?w w' \<subseteq> {q}" using Reconcile_requests(1) [OF run assms(2, 3)] by (cases q) simp
  have sum: "sum ?p' ?Q \<le> sum ?p ?Q" by (rule sum_mono) (use pending_others [OF run assms(2)] in auto)
  have old: "work_left env v RB st = sum ?p ?Q + ?p q"
    unfolding work_left_def using sum.remove [OF assms(6) st(1), of ?p] by simp
  have "work_left env v RB st' < work_left env v RB st \<and> finite (os_queue st')"
  proof (cases "changed_requests v ?w w' = {}")
    case True
    then show ?thesis
      using st(4) out old sum pending_bounds(1) [of env v RB ?w q] assms(6) by (simp add: work_left_def)
  next
    case False
    then have "changed_requests v ?w w' = {q}" using ch by blast
    then have Q: "os_queue st' = os_queue st" using st(1, 4) out by auto
    have "cv_objects v w' \<noteq> cv_objects v ?w" using Reconcile_requests(2) [OF run assms(2, 3)] False by blast
    then have "?p q = 2" by (rule pending_changed [OF run assms(2) st(2) assms(4, 5)])
    moreover have "?p' q = 1" by (rule pending_done [OF run assms(2) st(2)])
    moreover have "work_left env v RB st' = sum ?p' ?Q + ?p' q"
      unfolding work_left_def Q using sum.remove [OF assms(6) st(1), of ?p'] st(4) by simp
    ultimately show ?thesis using old sum Q assms(6) by simp
  qed
  then show "work_left env v RB st' < work_left env v RB st" and "finite (os_queue st')" by simp_all
  show "healthy env v RB (os_world st')" using Reconcile_healthy [OF run assms(2, 3)] st(4) by simp
qed

lemma process_run:
  assumes "((process_step env v RB) ^^ k) st st'" and "world_ok env v (os_world st)" and "healthy env v RB (os_world st)"
    and "secrets_built env RB" and "exact_comparisons RB" and "finite (os_queue st)" and "unqueued_settled env v RB st"
  shows "work_left env v RB st' + k \<le> work_left env v RB st \<and> finite (os_queue st') \<and> healthy env v RB (os_world st') \<and>
    world_ok env v (os_world st') \<and> unqueued_settled env v RB st'"
  using assms(1)
proof (induction k arbitrary: st')
  case (Suc k)
  then obtain st1 where "((process_step env v RB) ^^ k) st st1" and step: "process_step env v RB st1 st'" by auto
  note inv = Suc.IH [OF this(1)]
  show ?case
    using inv process_decreases [OF step _ _ assms(4, 5)] process_keeps [OF step] by fastforce
qed (use assms in simp)

lemma process_run_policies:
  assumes "((process_step env v RB) ^^ k) st st'" and "world_ok env v (os_world st)"
  shows "same_policies v (os_world st) (os_world st') \<and> world_ok env v (os_world st')"
  using assms(1)
proof (induction k arbitrary: st')
  case (Suc k)
  then obtain st1 where "((process_step env v RB) ^^ k) st st1" and step: "process_step env v RB st1 st'" by auto
  note inv = Suc.IH [OF this(1)]
  from step show ?case
  proof (rule process_stepE)
    fix q rb t out g' w'
    assume run: "Reconcile (at_run env rb t) (nn_namespace q) (nn_name q) (os_gauge st1) (os_world st1) = (out, g', w')"
      and st': "st' = \<lparr>os_world = w', os_queue = (os_queue st1 - {q}) \<union> changed_requests v (os_world st1) w' \<union>
        (if out = Reconciled emptyResult then {} else {q}), os_gauge = g'\<rparr>"
    from Reconcile_effect [OF run] inv st' show ?case by (simp add: same_policies_def)
  qed
qed (use assms(2) in \<open>simp add: same_policies_def\<close>)

text \<open>A request in the queue can be taken, so that the work comes to its end.\<close>

lemma process_exists:
  assumes "os_queue st \<noteq> {}" and "RB \<noteq> {}"
  shows "\<exists>st'. process_step env v RB st st'"
proof -
  obtain q rb where "q \<in> os_queue st" "rb \<in> RB" using assms by blast
  then show ?thesis by (meson process_step.process prod_cases3)
qed

lemma queue_drains:
  assumes "world_ok env v (os_world st)" and "healthy env v RB (os_world st)" and "secrets_built env RB" and "exact_comparisons RB"
    and "finite (os_queue st)" and "unqueued_settled env v RB st" and "RB \<noteq> {}"
  shows "\<exists>k st'. ((process_step env v RB) ^^ k) st st' \<and> os_queue st' = {}"
  using assms
proof (induction "work_left env v RB st" arbitrary: st rule: less_induct)
  case less
  show ?case
  proof (cases "os_queue st = {}")
    case True
    then show ?thesis by (intro exI [of _ 0]) simp
  next
    case False
    obtain st1 where step: "process_step env v RB st st1" using process_exists [OF False less.prems(7)] by blast
    note dec = process_decreases [OF step less.prems(1-5)] and keeps = process_keeps [OF step less.prems(1, 6)]
    obtain k st' where "((process_step env v RB) ^^ k) st1 st'" "os_queue st' = {}"
      using less.hyps [OF dec(1) _ dec(3) less.prems(3, 4) dec(2) _ less.prems(7)] keeps by blast
    with relpowp_Suc_I2 [of "process_step env v RB", OF step] show ?thesis by blast
  qed
qed

end

end
