(* ===== verification/Enforcement.thy ===== *)
theory Enforcement
  imports Convergence
begin

text \<open>
  From the AuthPolicy to the decision: after a reconciliation without errors the authorization
  policies the cluster stores for a policy decide like the generated ones, and so never admit what
  the AuthPolicy does not.  The update functions leave the action of a policy alone; that the stored
  policies had their action is therefore a hypothesis, and its failure is not repaired.
\<close>

section \<open>The stored policies\<close>

definition azp_key :: "objkey scope \<Rightarrow> string \<Rightarrow> objkey" where
  "azp_key s name = \<lparr>k_kind = ''AuthorizationPolicy'', k_namespace = ap_namespace (s_authPolicy s), k_name = name\<rparr>"

text \<open>The policy under a key, when the AuthPolicy controls it.\<close>

definition stored_policy ::
  "(k8s_object \<Rightarrow> authPolicy \<Rightarrow> bool) \<Rightarrow> (objkey \<Rightarrow> k8s_object option) \<Rightarrow> objkey scope \<Rightarrow> string \<Rightarrow> authorizationPolicy option" where
  "stored_policy controlled objs s name =
     (case objs (azp_key s name) of None \<Rightarrow> None
      | Some o' \<Rightarrow> if controlled o' (s_authPolicy s) then asAuthorizationPolicy o' else None)"

definition stored_policies ::
  "(k8s_object \<Rightarrow> authPolicy \<Rightarrow> bool) \<Rightarrow> (objkey \<Rightarrow> k8s_object option) \<Rightarrow> objkey scope \<Rightarrow> authorizationPolicy list" where
  "stored_policies controlled objs s =
     (let name = ap_name (s_authPolicy s)
      in List.map_filter (stored_policy controlled objs s) [DenyPolicyName name, IgnorePolicyName name, RequirePolicyName name])"

text \<open>What is stored under the three names has the action it was created with.\<close>

definition action_kept :: "(objkey \<Rightarrow> k8s_object option) \<Rightarrow> objkey \<Rightarrow> action \<Rightarrow> bool" where
  "action_kept objs k a \<longleftrightarrow>
     (\<forall>o'. objs k = Some o' \<longrightarrow> obj_key o' = k \<and> (\<forall>p. o' = AuthorizationPolicyObj p \<longrightarrow> azp_action p = a))"

definition actions_kept :: "(objkey \<Rightarrow> k8s_object option) \<Rightarrow> objkey scope \<Rightarrow> bool" where
  "actions_kept objs s \<longleftrightarrow>
     (let name = ap_name (s_authPolicy s)
      in action_kept objs (azp_key s (DenyPolicyName name)) DENY \<and>
         action_kept objs (azp_key s (IgnorePolicyName name)) ALLOW \<and>
         action_kept objs (azp_key s (RequirePolicyName name)) ALLOW)"

section \<open>Actions are kept\<close>

lemma set_owners_policy:
  "set_owners owners (AuthorizationPolicyObj p) = AuthorizationPolicyObj (p\<lparr>azp_meta := (azp_meta p)\<lparr>om_owners := owners\<rparr>\<rparr>)"
  by (simp add: set_owners_def)

lemma policy_owners_key [simp]:
  "obj_key (AuthorizationPolicyObj (p\<lparr>azp_meta := (azp_meta p)\<lparr>om_owners := owners\<rparr>\<rparr>)) = obj_key (AuthorizationPolicyObj p)"
  by (simp add: obj_key_def)

lemma update_keeps_action:
  "liftUpdate asAuthorizationPolicy AuthorizationPolicyObj AuthorizationPolicyUpdateFields cur d = AuthorizationPolicyObj q \<Longrightarrow>
     \<exists>p. cur = AuthorizationPolicyObj p \<and> azp_action q = azp_action p"
  by (cases cur; cases d) (auto simp: liftUpdate_def AuthorizationPolicyUpdateFields_def)

context k8s_api
begin

lemma run_keeps_action:
  assumes "lawful s r" and "ReconcileControllerResource c r s w = (e, s', w')"
    and "r = authorizationPolicyResource env name desired" and "\<And>d. desired = Some d \<Longrightarrow> azp_action d = a"
    and "action_kept (objects w) (resource_key s r) a"
  shows "action_kept (objects w') (resource_key s r) a"
proof (cases desired)
  case None
  then show ?thesis
    using run_cases [OF assms(1, 2)] assms(3, 5)
    by (auto simp: run_effect_def action_kept_def authorizationPolicyResource_def Let_def split: option.splits)
next
  case (Some p)
  then have d: "rr_desired r = Some (AuthorizationPolicyObj p)" "azp_action p = a"
    using assms(3, 4) by (auto simp: authorizationPolicyResource_def)
  have up: "rr_updateFields r = liftUpdate asAuthorizationPolicy AuthorizationPolicyObj AuthorizationPolicyUpdateFields"
    using assms(3) by (simp add: authorizationPolicyResource_def)
  note key = lawfulE(1, 4) [OF assms(1) d(1)]
  show ?thesis
    using run_cases [OF assms(1, 2)] assms(5) d key
    by (auto simp: run_effect_def action_kept_def set_owners_policy up Let_def
        dest!: update_keeps_action split: option.splits)
qed

lemma loop_keeps_action:
  assumes "list_all (lawful s) rfs" and "distinct (map (resource_key s) rfs)"
    and "doReconcile_loop c rfs s w errs result = (errs', result', s', w')"
    and "r0 \<in> set rfs" and "r0 = authorizationPolicyResource env name desired"
    and "\<And>d. desired = Some d \<Longrightarrow> azp_action d = a"
    and "action_kept (objects w) (resource_key s r0) a"
  shows "action_kept (objects w') (resource_key s r0) a"
proof -
  have "action_kept (objects w') (resource_key s r0) a \<and> s_authPolicy s' = s_authPolicy s"
  proof (rule loop_invariant [where P = "\<lambda>w. action_kept (objects w) (resource_key s r0) a", OF assms(3)])
    fix r s1 w1 e s2 w2
    assume r: "r \<in> set rfs" "s_authPolicy s1 = s_authPolicy s"
      and st: "action_kept (objects w1) (resource_key s r0) a" "ReconcileControllerResource c r s1 w1 = (e, s2, w2)"
    note keys = resource_key_cong [OF r(2)]
    have law: "lawful s1 r" using r(1) assms(1) lawful_cong [OF r(2)] by (simp add: list_all_iff)
    show "action_kept (objects w2) (resource_key s r0) a"
    proof (cases "resource_key s r = resource_key s r0")
      case True
      then have "r = r0" using assms(2, 4) r(1) by (auto simp: distinct_map inj_on_def)
      then show ?thesis using run_keeps_action [OF law st(2) _ assms(6)] assms(5) st(1) keys by simp
    next
      case False
      then show ?thesis using run_frame [OF law st(2)] st(1) keys by (simp add: action_kept_def)
    qed
  qed (rule assms(7))
  then show ?thesis by simp
qed

end

section \<open>Stored and generated policies agree\<close>

definition decisive :: "authorizationPolicy \<Rightarrow> action \<times> rule list" where
  "decisive p = (azp_action p, azp_rules p)"

lemma policy_kind: "obj_kind o' = ''AuthorizationPolicy'' \<Longrightarrow> \<exists>p. o' = AuthorizationPolicyObj p"
  by (cases o') auto

lemma settled_stored:
  assumes "settled_in controlled objs s (authorizationPolicyResource env name desired)"
    and "action_kept objs (azp_key s name) a" and "\<And>d. desired = Some d \<Longrightarrow> azp_action d = a"
  shows "map_option decisive (stored_policy controlled objs s name) = map_option decisive desired"
proof -
  have key: "resource_key s (authorizationPolicyResource env name desired) = azp_key s name"
    by (simp add: resource_key_def azp_key_def authorizationPolicyResource_def)
  show ?thesis
  proof (cases "objs (azp_key s name)")
    case None
    then show ?thesis
      using assms(1) key by (cases desired) (auto simp: settled_in_def stored_policy_def authorizationPolicyResource_def)
  next
    case (Some o')
    then have "obj_key o' = azp_key s name" using assms(2) by (simp add: action_kept_def)
    then obtain p where p: "o' = AuthorizationPolicyObj p"
      using policy_kind [of o'] by (auto simp: obj_key_def azp_key_def)
    then show ?thesis
      using Some assms key
      by (cases desired) (auto simp: settled_in_def stored_policy_def action_kept_def authorizationPolicyResource_def
          decisive_def)
  qed
qed

lemma map_filter_decisive:
  "map f (List.map_filter g xs) = List.map_filter (\<lambda>x. x) (map (\<lambda>x. map_option f (g x)) xs)"
  by (induction xs) (auto simp: List.map_filter_simps split: option.splits)

context istio_engine
begin

text \<open>The decision depends on the actions and the rules only.\<close>

lemma allows_cong:
  assumes "map decisive ps = map decisive ps'" and "\<exists>p \<in> set ps. azp_action p = ALLOW"
  shows "allows ps q = allows ps' q"
proof -
  have sets: "decisive ` set ps = decisive ` set ps'" using assms(1) by (metis set_map)
  have iff: "(\<exists>p \<in> set ps. azp_action p = a \<and> policy_matches vm q p) \<longleftrightarrow>
      (\<exists>x \<in> decisive ` set ps. fst x = a \<and> list_ex (rule_matches vm q) (snd x))" for ps a
    by (auto simp: decisive_def policy_matches_def)
  have some: "\<exists>p \<in> set ps'. azp_action p = ALLOW"
  proof -
    have "ALLOW \<in> fst ` (decisive ` set ps)" using assms(2) by (force simp: decisive_def)
    then show ?thesis unfolding sets by (force simp: decisive_def)
  qed
  show ?thesis unfolding allows_iff [OF assms(2)] allows_iff [OF some] iff sets by blast
qed

end

text \<open>Settled resources with their actions are stored policies that decide like the generated ones.\<close>

lemma policy_resources_in:
  assumes "ControllerResources env s = Inr rs"
  defines "meta \<equiv> \<lambda>n. buildObjectMeta n (ap_namespace (s_authPolicy s))"
    and "name \<equiv> ap_name (s_authPolicy s)"
  shows "authorizationPolicyResource env (DenyPolicyName name) (deny_GetDesired s (meta (DenyPolicyName name))) \<in> set rs"
    and "authorizationPolicyResource env (IgnorePolicyName name) (ignore_GetDesired s (meta (IgnorePolicyName name))) \<in> set rs"
    and "authorizationPolicyResource env (RequirePolicyName name)
      (require_GetDesired (ge_newcap env) s (meta (RequirePolicyName name))) \<in> set rs"
  using assms by (auto simp: ControllerResources_def res_bind_Inr_iff denyAuthorizationPolicyResource_def
      ignoreAuthorizationPolicyResource_def requireAuthorizationPolicyResource_def Let_def)

lemma policy_resource_key [simp]: "resource_key s (authorizationPolicyResource env n desired) = azp_key s n"
  by (simp add: resource_key_def azp_key_def authorizationPolicyResource_def)

lemma settled_decisive:
  assumes "ControllerResources env s = Inr rs" and "list_all (settled_in controlled objs s) rs" and "actions_kept objs s"
  shows "map decisive (stored_policies controlled objs s) = map decisive (access_policies (ge_newcap env) s)"
proof -
  let ?name = "ap_name (s_authPolicy s)"
  let ?meta = "\<lambda>n. buildObjectMeta n (ap_namespace (s_authPolicy s))"
  let ?stored = "stored_policy controlled objs s"
  have agree: "map_option decisive (?stored n) = map_option decisive desired"
    if "authorizationPolicyResource env n desired \<in> set rs" "action_kept objs (azp_key s n) a"
      "\<And>d. desired = Some d \<Longrightarrow> azp_action d = a" for n desired a
    by (rule settled_stored [where env = env, OF _ that(2, 3)]) (use assms(2) that(1) in \<open>simp add: list_all_iff\<close>)
  note mem = policy_resources_in [OF assms(1)] and kept = assms(3) [unfolded actions_kept_def Let_def]
  have "map_option decisive (?stored (DenyPolicyName ?name)) =
      map_option decisive (deny_GetDesired s (?meta (DenyPolicyName ?name)))"
    by (rule agree [OF mem(1)]) (use kept deny_action in blast)+
  moreover have "map_option decisive (?stored (IgnorePolicyName ?name)) =
      map_option decisive (ignore_GetDesired s (?meta (IgnorePolicyName ?name)))"
    by (rule agree [OF mem(2)]) (use kept ignore_action in blast)+
  moreover have "map_option decisive (?stored (RequirePolicyName ?name)) =
      map_option decisive (require_GetDesired (ge_newcap env) s (?meta (RequirePolicyName ?name)))"
    by (rule agree [OF mem(3)]) (use kept require_action in blast)+
  ultimately show ?thesis
    unfolding stored_policies_def access_policies_def Let_def map_filter_decisive by (simp only: list.map)
qed

lemma reconcile_keeps_actions:
  assumes "k8s_api c objects" and "ControllerResources env s = Inr rs" and "selector_wf s"
    and "doReconcile c rs s w = (r, s', w')" and "actions_kept (objects w) s"
  shows "actions_kept (objects w') s"
proof -
  obtain errs where l: "doReconcile_loop c rs s w [] emptyResult = (errs, emptyResult, s', w')"
    using doReconcile_loop_of [OF assms(4)] by metis
  have kept: "action_kept (objects w') (azp_key s n) a"
    if "authorizationPolicyResource env n desired \<in> set rs" "action_kept (objects w) (azp_key s n) a"
      "\<And>d. desired = Some d \<Longrightarrow> azp_action d = a" for n desired a
    using k8s_api.loop_keeps_action [OF assms(1) resources_lawful [OF assms(2, 3)] resources_distinct(1) [OF assms(2)]
        l that(1) refl] that(2, 3) by simp
  note mem = policy_resources_in [OF assms(2)] and old = assms(5) [unfolded actions_kept_def Let_def]
  show ?thesis
    unfolding actions_kept_def Let_def
    using kept [OF mem(1)] kept [OF mem(2)] kept [OF mem(3)] old deny_action ignore_action require_action by blast
qed

lemma stored_decisive:
  assumes "k8s_api c objects" and "ControllerResources env s = Inr rs" and "selector_wf s"
    and "doReconcile c rs s w = (Inr result, s', w')" and "actions_kept (objects w) s"
  shows "map decisive (stored_policies (c_isControlledBy c) (objects w') s) = map decisive (access_policies (ge_newcap env) s)"
  by (rule settled_decisive [OF assms(2) doReconcile_settles [OF assms(1-4)] reconcile_keeps_actions [OF assms]])

lemma require_in_policies:
  assumes "growth newcap" and "well_formed_scope s"
  shows "\<exists>p \<in> set (access_policies newcap s). azp_action p = ALLOW"
proof -
  let ?meta = "buildObjectMeta (RequirePolicyName (ap_name (s_authPolicy s))) (ap_namespace (s_authPolicy s))"
  obtain p where p: "require_GetDesired newcap s ?meta = Some p"
    using growth.require_exists [OF assms] by blast
  then have "p \<in> set (access_policies newcap s)" unfolding access_policies_def Let_def set_map_filter_opts by simp
  then show ?thesis using require_action [OF p] by blast
qed

lemma settled_enforce:
  assumes "ControllerResources env s = Inr rs" and "list_all (settled_in controlled objs s) rs" and "actions_kept objs s"
    and "istio_engine allows vm" and "growth (ge_newcap env)" and "well_formed_scope s"
  shows "allows (stored_policies controlled objs s) q = allows (access_policies (ge_newcap env) s) q"
  by (rule istio_engine.allows_cong [OF assms(4) settled_decisive [OF assms(1-3), symmetric]
        require_in_policies [OF assms(5, 6)], symmetric])

section \<open>Properties\<close>

text \<open>C6: after a reconciliation without errors of an enabled, valid AuthPolicy whose matchers name
  paths and whose conditions name values, the authorization policies that the cluster stores for it
  admit exactly the requests that the generated policies admit, and none that the AuthPolicy does not
  admit, provided that nobody changed the action of a stored policy.\<close>

theorem stored_policies_enforce:
  assumes "k8s_api c objects" and "ControllerResources env s = Inr rs" and "selector_wf s"
    and "doReconcile c rs s w = (Inr result, s', w')" and "actions_kept (objects w) s"
    and "istio_engine allows vm" and "growth (ge_newcap env)" and "well_formed_scope s"
  shows "allows (stored_policies (c_isControlledBy c) (objects w') s) q = allows (access_policies (ge_newcap env) s) q \<and>
    (allows (stored_policies (c_isControlledBy c) (objects w') s) q \<longrightarrow> intended_access vm s q)"
  using settled_enforce [OF assms(2) doReconcile_settles [OF assms(1-4)] reconcile_keeps_actions [OF assms(1-5)] assms(6-8)]
    access_sound [OF assms(6-8), of q] by simp

theorem stored_policies_enforce_witness:
  "\<exists>w'. \<not> istio_reference (=) (stored_policies (c_isControlledBy (store_client no_faults)) (map_of w') example_run)
     \<lparr>rq_path = ''/private'', rq_method = ''GET'', rq_claims = []\<rparr>"
proof -
  let ?q = "\<lparr>rq_path = ''/private'', rq_method = ''GET'', rq_claims = []\<rparr>"
  obtain rs s' w' where run: "ControllerResources example_env example_run = Inr rs"
    "doReconcile (store_client no_faults) rs example_run [] = (Inr emptyResult, s', w')"
    by (rule example_reconciled)
  have wf: "well_formed_scope example_run" by code_simp
  have kept: "actions_kept (map_of []) example_run" by (simp add: actions_kept_def action_kept_def Let_def)
  have gr: "growth (ge_newcap example_env)" by (simp add: example_env_def go_growth.growth_axioms)
  note enforce = stored_policies_enforce [OF store.k8s_api_axioms [of no_faults] run(1) example_wf run(2) kept
      reference.istio_engine_axioms gr wf]
  have "\<not> intended_access (=) example_run ?q" by code_simp
  with enforce [of "(=)" ?q] show ?thesis by blast
qed

text \<open>C36: a stored authorization policy whose action was changed, here a DENY policy turned into an
  ALLOW policy, is never repaired: whatever its reconciliation does and however the deep comparisons
  turn out, an ALLOW policy is stored afterwards; and with exact comparisons the reconciliation
  succeeds and writes nothing.\<close>

theorem action_drift_unrepaired:
  assumes "k8s_api c objects" and "selector_wf s"
    and "deny_GetDesired s (buildObjectMeta (DenyPolicyName (ap_name (s_authPolicy s))) (ap_namespace (s_authPolicy s))) = Some d"
    and "objects w (azp_key s (DenyPolicyName (ap_name (s_authPolicy s)))) = Some cur"
    and "cur = set_owners owners (AuthorizationPolicyObj (d\<lparr>azp_action := ALLOW\<rparr>))"
    and "c_isControlledBy c cur (s_authPolicy s)"
    and "c_get c w (azp_key s (DenyPolicyName (ap_name (s_authPolicy s)))) = Found cur"
    and "ReconcileControllerResource c (denyAuthorizationPolicyResource env s) s w = (e, s', w')"
  shows "(\<exists>p. objects w' (azp_key s (DenyPolicyName (ap_name (s_authPolicy s)))) = Some (AuthorizationPolicyObj p) \<and>
      azp_action p = ALLOW) \<and>
    (exact_comparison (ge_run env) \<longrightarrow> e = None \<and> w' = w)"
proof -
  let ?r = "denyAuthorizationPolicyResource env s" and ?k = "azp_key s (DenyPolicyName (ap_name (s_authPolicy s)))"
  have r: "?r = authorizationPolicyResource env (DenyPolicyName (ap_name (s_authPolicy s))) (Some d)"
    using assms(3) by (simp add: denyAuthorizationPolicyResource_def Let_def)
  have law: "lawful s ?r" using policy_resources_lawful [OF assms(2)] by blast
  have des: "rr_desired ?r = Some (AuthorizationPolicyObj d)" by (simp add: r authorizationPolicyResource_def)
  have key: "resource_key s ?r = ?k" by (simp add: r)
  have up: "rr_updateFields ?r = liftUpdate asAuthorizationPolicy AuthorizationPolicyObj AuthorizationPolicyUpdateFields"
    by (simp add: r authorizationPolicyResource_def)
  have "\<exists>p. objects w' ?k = Some (AuthorizationPolicyObj p) \<and> azp_action p = ALLOW"
    using k8s_api.run_cases [OF assms(1) law assms(8)] assms(4, 5) des
    by (auto simp: k8s_api.run_effect_def [OF assms(1)] key up set_owners_policy liftUpdate_def
        AuthorizationPolicyUpdateFields_def Let_def)
  moreover have "e = None \<and> w' = w" if exact: "exact_comparison (ge_run env)"
  proof -
    have "carries (set_owners owners (AuthorizationPolicyObj d)) (AuthorizationPolicyObj d)"
      by (rule lawfulE(2) [OF law des])
    then have "carries cur (AuthorizationPolicyObj d)" by (simp add: assms(5) set_owners_policy)
    then have "settled_in (c_isControlledBy c) (objects w) s ?r"
      using assms(4, 6) des key by (simp add: settled_in_def)
    moreover have "\<not> rr_shouldUpdate ?r x y" if "rr_desired ?r = Some y" "carries x y" for x y
      using that carried_left_alone(4) [OF exact] by (cases x) (auto simp: r authorizationPolicyResource_def liftShould_def)
    ultimately have "\<exists>s'. ReconcileControllerResource c ?r s w = (None, s', w)"
      by (intro k8s_api.run_idle [OF assms(1)]) (simp_all add: key assms(7))
    then show ?thesis using assms(8) by simp
  qed
  ultimately show ?thesis by blast
qed

theorem action_drift_unrepaired_witness:
  "\<exists>d w s'. azp_action d = DENY \<and>
     map_of w (azp_key example_run ''demo-deny-auth-rules'') =
       Some (set_owners [policy_owner example_policy] (AuthorizationPolicyObj (d\<lparr>azp_action := ALLOW\<rparr>))) \<and>
     ReconcileControllerResource (store_client no_faults) (denyAuthorizationPolicyResource example_env example_run) example_run w = (None, s', w)"
proof -
  let ?n = "DenyPolicyName (ap_name (s_authPolicy example_run))"
  let ?meta = "buildObjectMeta ?n (ap_namespace (s_authPolicy example_run))"
  let ?run = "ReconcileControllerResource (store_client no_faults) (denyAuthorizationPolicyResource example_env example_run) example_run"
  have n: "?n = ''demo-deny-auth-rules''" by (simp add: example_run_def example_policy_def DenyPolicyName_def)
  have "deny_GetDesired example_run ?meta \<noteq> None" by code_simp
  then obtain d where d: "deny_GetDesired example_run ?meta = Some d" by blast
  let ?cur = "set_owners [policy_owner example_policy] (AuthorizationPolicyObj (d\<lparr>azp_action := ALLOW\<rparr>))"
  let ?w = "[(azp_key example_run ?n, ?cur)]"
  have key: "obj_key ?cur = azp_key example_run ?n"
    using deny_gen.meta_given [OF d] by (simp add: set_owners_def obj_key_def azp_key_def buildObjectMeta_def)
  have ctl: "c_isControlledBy (store_client no_faults) ?cur (s_authPolicy example_run)"
    by (simp add: store_client_def example_run_def controller_of_def policy_owner_def)
  have get: "c_get (store_client no_faults) ?w (azp_key example_run ?n) = Found ?cur"
    using key by (simp add: store_client_def no_faults_def)
  have stored: "map_of ?w (azp_key example_run ?n) = Some ?cur" by simp
  obtain e s' w' where run: "?run ?w = (e, s', w')" by (metis prod_cases3)
  have "exact_comparison (ge_run example_env)" by (simp add: exact_comparison_def example_env_def)
  with action_drift_unrepaired [OF store.k8s_api_axioms [of no_faults] example_wf d stored refl ctl get run]
  have "?run ?w = (None, s', ?w)" using run by simp
  then show ?thesis using deny_action [OF d] n stored by (intro exI [of _ d] exI [of _ ?w] exI [of _ s']) simp
qed

end
