(* ===== verification/ClusterStore.thy ===== *)
theory ClusterStore
  imports Draining Enforcement
begin

text \<open>
  A cluster to run: the view and the calls over maps, with which the locales of the control loop are
  interpreted, and a start state with one policy, from which the witnesses of the control loop run.
\<close>

section \<open>A store\<close>

text \<open>
  A cluster over maps of objects, policies and config maps, with the client of \<open>store_client\<close> and its
  faults.  The other parameters of the controller are those of a given environment.
\<close>

record apiState =
  as_objects :: "(objkey, k8s_object) gomap"
  as_policies :: "(string \<times> string, authPolicy) gomap"
  as_configMaps :: "(string \<times> string, objectMeta \<times> labels) gomap"

definition stored_authPolicy :: "apiState \<Rightarrow> string \<Rightarrow> string \<Rightarrow> authPolicy option" where
  "stored_authPolicy w ns n =
     (case map_of (as_policies w) (ns, n) of
        None \<Rightarrow> None
      | Some ap \<Rightarrow> if ap_namespace ap = ns \<and> ap_name ap = n then Some ap else None)"

definition put_policy :: "authPolicy \<Rightarrow> apiState \<Rightarrow> apiState" where
  "put_policy ap w = w\<lparr>as_policies := AList.update (ap_namespace ap, ap_name ap) ap (as_policies w)\<rparr>"

definition on_objects ::
  "((objkey, k8s_object) gomap \<Rightarrow> 'e \<times> (objkey, k8s_object) gomap) \<Rightarrow> apiState \<Rightarrow> 'e \<times> apiState" where
  "on_objects f w = (let (e, objs) = f (as_objects w) in (e, w\<lparr>as_objects := objs\<rparr>))"

definition state_client :: "faults \<Rightarrow> apiState client" where
  "state_client f =
     \<lparr>c_get = (\<lambda>w. c_get (store_client f) (as_objects w)),
      c_create = (\<lambda>w o'. on_objects (\<lambda>m. c_create (store_client f) m o') w),
      c_patch = (\<lambda>w old new. on_objects (\<lambda>m. c_patch (store_client f) m old new) w),
      c_delete = (\<lambda>w o'. on_objects (\<lambda>m. c_delete (store_client f) m o') w),
      c_setControllerReference = c_setControllerReference (store_client f),
      c_isControlledBy = c_isControlledBy (store_client f)\<rparr>"

definition state_reader :: "apiState \<Rightarrow> clusterReader" where
  "state_reader w =
     \<lparr>rd_secret = (\<lambda>ns n. case map_of (as_objects w) (secret_key ns n) of
        Some (SecretObj x) \<Rightarrow> Inr (sec_data x) | _ \<Rightarrow> Inl ''not found''),
      rd_configMap = (\<lambda>ns n. case map_of (as_configMaps w) (ns, n) of
        Some (m, data) \<Rightarrow> Inr data | None \<Rightarrow> Inl ''not found'')\<rparr>"

definition state_policies :: "apiState policyApi" where
  "state_policies =
     \<lparr>pa_get = (\<lambda>w ns n. case stored_authPolicy w ns n of None \<Rightarrow> PolicyNotFound | Some ap \<Rightarrow> PolicyFound ap),
      pa_updateStatus = (\<lambda>w ap. case stored_authPolicy w (ap_namespace ap) (ap_name ap) of
        None \<Rightarrow> (Some ''not found'', w)
      | Some cur \<Rightarrow> (None, put_policy (cur\<lparr>ap_status := ap_status ap\<rparr>) w)),
      pa_retryOnConflict = (\<lambda>f w. f w)\<rparr>"

definition state_patchPolicy :: "apiState \<Rightarrow> authPolicy \<Rightarrow> authPolicy \<Rightarrow> (string + authPolicy) \<times> apiState" where
  "state_patchPolicy w ap ap' =
     (case stored_authPolicy w (ap_namespace ap) (ap_name ap) of
        None \<Rightarrow> (Inl ''not found'', w)
      | Some cur \<Rightarrow> (let new = cur\<lparr>ap_labels := ap_labels ap'\<rparr> in (Inr new, put_policy new w)))"

definition state_controller :: "faults \<Rightarrow> apiState controllerEnv \<Rightarrow> apiState controllerEnv" where
  "state_controller f env =
     env\<lparr>ce_reader := state_reader, ce_client := state_client f, ce_policies := state_policies,
       ce_patchPolicy := state_patchPolicy\<rparr>"

definition state_view :: "apiState clusterView" where
  "state_view =
     \<lparr>cv_objects = (\<lambda>w. map_of (as_objects w)), cv_policies = stored_authPolicy,
      cv_configMaps = (\<lambda>w ns n. map_of (as_configMaps w) (ns, n)),
      cv_lister = (\<lambda>w ns. Inr (map (\<lambda>((ns, n), _). \<lparr>nn_namespace = ns, nn_name = n\<rparr>)
        (filter (\<lambda>((ns', n), _). ns' = ns) (as_policies w))))\<rparr>"

lemma stored_name: "stored_authPolicy w ns n = Some ap \<Longrightarrow> ap_namespace ap = ns \<and> ap_name ap = n"
  by (auto simp: stored_authPolicy_def split: option.splits if_splits)

lemma fst_on_objects [simp]: "fst (on_objects f w) = fst (f (as_objects w))"
  by (simp add: on_objects_def split_beta Let_def)

lemma stored_put:
  "stored_authPolicy (put_policy ap w) ns n =
     (if (ns, n) = (ap_namespace ap, ap_name ap) then Some ap else stored_authPolicy w ns n)"
  by (auto simp: stored_authPolicy_def put_policy_def update_conv')

lemma put_quiet:
  assumes "stored_authPolicy w (ap_namespace ap) (ap_name ap) = Some cur" and "core ap = core cur"
  shows "quiet_write state_view w (put_policy ap w)"
  using assms by (auto simp: quiet_write_def same_policies_def state_view_def stored_put)
    (simp_all add: put_policy_def)

interpretation state_objects: k8s_api "state_client f" "\<lambda>w. map_of (as_objects w)" for f
proof (unfold_locales, goal_cases)
  case (1 w k o')
  then show ?case using store.get_found by (simp add: state_client_def)
next
  case (2 w k)
  then show ?case using store.get_notfound by (simp add: state_client_def)
next
  case (3 w o' w')
  then show ?case by (auto simp: state_client_def on_objects_def dest: store.create_ok split: prod.splits)
next
  case (4 w o' e w')
  then show ?case by (auto simp: state_client_def on_objects_def dest: store.create_error split: prod.splits)
next
  case (5 w old new w')
  then show ?case by (auto simp: state_client_def on_objects_def dest: store.patch_ok split: prod.splits)
next
  case (6 w old new e w')
  then show ?case by (auto simp: state_client_def on_objects_def dest: store.patch_error split: prod.splits)
next
  case (7 w o' w')
  then show ?case by (auto simp: state_client_def on_objects_def dest: store.delete_ok split: prod.splits)
next
  case (8 w o' e w')
  then show ?case by (auto simp: state_client_def on_objects_def dest: store.delete_error split: prod.splits)
next
  case (9 ap o' o'')
  then show ?case using store.set_reference [of f ap o' o''] by (simp add: state_client_def)
next
  case (10 o' o'' ap)
  then show ?case by (simp add: state_client_def store.control_by_owners [OF 10])
qed

lemma state_controller_fields [simp]:
  "ce_client (state_controller f env) = state_client f" "ce_reader (state_controller f env) = state_reader"
  "ce_policies (state_controller f env) = state_policies" "ce_patchPolicy (state_controller f env) = state_patchPolicy"
  "ce_gen (state_controller f env) = ce_gen env" "ce_visit (state_controller f env) = ce_visit env"
  "ce_getDocument (state_controller f env) = ce_getDocument env"
  by (simp_all add: state_controller_def)

lemma on_objects_keeps:
  "on_objects f w = (e, w') \<Longrightarrow> as_policies w' = as_policies w \<and> as_configMaps w' = as_configMaps w"
  by (auto simp: on_objects_def split: prod.splits)

lemma same_view:
  assumes "as_policies w' = as_policies w" and "as_configMaps w' = as_configMaps w"
  shows "cv_policies state_view w' = cv_policies state_view w \<and> cv_configMaps state_view w' = cv_configMaps state_view w"
  using assms by (simp add: state_view_def stored_authPolicy_def fun_eq_iff)

text \<open>Status updates and label patches are quiet.\<close>

lemma stored_quiet:
  assumes "stored_authPolicy w (ap_namespace ap) (ap_name ap) = Some cur"
  shows "quiet_write state_view w (put_policy (cur\<lparr>ap_status := x\<rparr>) w)"
    and "quiet_write state_view w (put_policy (cur\<lparr>ap_labels := y\<rparr>) w)"
  using put_quiet [of w "cur\<lparr>ap_status := x\<rparr>" cur] put_quiet [of w "cur\<lparr>ap_labels := y\<rparr>" cur]
    assms stored_name [OF assms] by (simp_all add: core_def)

lemma status_quiet: "pa_updateStatus state_policies w ap = (e, w') \<Longrightarrow> quiet_write state_view w w'"
  using stored_quiet(1) [of w ap] by (auto simp: state_policies_def split: option.splits)

lemma label_quiet: "state_patchPolicy w ap ap' = (r, w') \<Longrightarrow> quiet_write state_view w w'"
  using stored_quiet(2) [of w ap] by (auto simp: state_patchPolicy_def Let_def split: option.splits)

lemma client_quiet:
  "c_create (state_client f) w o' = (e, w') \<or> c_patch (state_client f) w old o' = (e, w') \<or>
     c_delete (state_client f) w o' = (e, w') \<Longrightarrow>
     cv_policies state_view w' = cv_policies state_view w \<and> cv_configMaps state_view w' = cv_configMaps state_view w"
  using same_view [of w' w] on_objects_keeps [of _ w e w'] by (simp add: state_client_def) blast

interpretation state: cluster "state_controller f env" state_view for f env
proof (rule cluster.intro, goal_cases)
  case 1
  show ?case using state_objects.k8s_api_axioms by (simp add: state_view_def)
next
  case 2
  show ?case
  proof (unfold_locales, goal_cases)
    case (1 w o' e w')
    then show ?case using client_quiet [of f w o' e w'] by simp
  next
    case (2 w old new e w')
    then show ?case using client_quiet [of f w new e w' old] by simp
  next
    case (3 w o' e w')
    then show ?case using client_quiet [of f w o' e w'] by simp
  next
    case (4 o' ap)
    show ?case by (simp add: state_client_def store_client_def)
  next
    case (5 ap o' o'')
    then show ?case
      by (auto simp: state_client_def store_client_def controller_of_def controller_appended split: if_splits)
  next
    case (6 w ns n ap)
    then show ?case by (simp add: state_policies_def state_view_def split: option.splits)
  next
    case (7 w ns n)
    then show ?case by (simp add: state_policies_def state_view_def split: option.splits)
  next
    case (8 w ns n ap)
    then show ?case by (auto simp: state_view_def stored_authPolicy_def split: option.splits if_splits)
  next
    case (9 w ap e w')
    then show ?case using status_quiet by simp
  next
    case (10 R f w)
    then show ?case by (simp add: state_policies_def)
  next
    case (11 w ap ap' r w')
    then show ?case using label_quiet by simp
  next
    case (12 w ns n w')
    then show ?case by (simp add: state_reader_def state_view_def)
  next
    case (13 w ns n w')
    then show ?case by (simp add: state_reader_def state_view_def)
  next
    case (14 w ns items n ap)
    then show ?case
      by (auto simp: state_view_def stored_authPolicy_def image_iff dest!: map_of_SomeD split: option.splits if_splits)
  qed
qed

interpretation quiet_state: reliable_cluster "state_controller no_faults env" state_view for env
proof (rule reliable_cluster.intro [OF state.cluster_axioms], goal_cases)
  case 1
  show ?case
  proof (rule reliable_api.intro [OF state.k8s_api_axioms], unfold_locales, goal_cases)
    case (1 w k o')
    then show ?case using quiet.get_stored by (simp add: state_client_def state_view_def)
  next
    case (2 w k)
    then show ?case using quiet.get_absent by (simp add: state_client_def state_view_def)
  next
    case (3 w o')
    then show ?case using quiet.create_absent [of "as_objects w" o']
      by (simp add: state_client_def state_view_def)
  next
    case (4 w old new)
    then show ?case using quiet.patch_stored [of "as_objects w" old new]
      by (simp add: state_client_def state_view_def)
  next
    case (5 w o')
    then show ?case using quiet.delete_stored [of "as_objects w" o']
      by (simp add: state_client_def state_view_def)
  next
    case (6 o' ap)
    then show ?case using quiet.reference_free by (simp add: state_client_def)
  qed
next
  case 2
  show ?case
    by unfold_locales (auto simp: state_policies_def state_view_def state_patchPolicy_def Let_def split: option.splits)
qed

section \<open>A cluster to run\<close>

text \<open>One policy with its credentials, and an operator that has just started.\<close>

definition store_controller :: "apiState controllerEnv" where
  "store_controller =
     \<lparr>ce_gen = example_env, ce_visit = (\<lambda>m. m), ce_getDocument = (\<lambda>u. Inr example_document),
      ce_reader = state_reader, ce_client = state_client no_faults, ce_policies = state_policies,
      ce_patchPolicy = state_patchPolicy,
      ce_metrics = \<lparr>me_namespaceLabels = (\<lambda>n. []), me_listPods = (\<lambda>n ls. Inr [''p1''])\<rparr>,
      ce_now = 7\<rparr>"

definition oauth_secret :: k8s_object where
  "oauth_secret = SecretObj \<lparr>sec_meta = buildObjectMeta ''oauth'' ''ns'', sec_type = ''Opaque'',
     sec_data = [(''id'', ''x''), (''secret'', ''y'')]\<rparr>"

definition start_state :: "apiState operatorState" where
  "start_state =
     \<lparr>os_world = \<lparr>as_objects = [(secret_key ''ns'' ''oauth'', oauth_secret)],
        as_policies = [((''ns'', ''demo''), example_policy)], as_configMaps = []\<rparr>,
      os_queue = {\<lparr>nn_namespace = ''ns'', nn_name = ''demo''\<rparr>}, os_gauge = []\<rparr>"

definition start_random :: "runChoices set" where
  "start_random = {ge_run example_env}"

lemma store_controller_state: "state_controller no_faults store_controller = store_controller"
  by (simp add: state_controller_def store_controller_def)

lemma store_cluster: "cluster store_controller state_view"
  using state.cluster_axioms [of no_faults store_controller] unfolding store_controller_state .

lemma store_reliable: "reliable_cluster store_controller state_view"
  using quiet_state.reliable_cluster_axioms [of store_controller] unfolding store_controller_state .

lemma start_policies [simp]:
  "cv_policies state_view (os_world start_state) ns n = (if (ns, n) = (''ns'', ''demo'') then Some example_policy else None)"
  by (simp add: state_view_def stored_authPolicy_def start_state_def example_policy_def)

lemma start_objects [simp]:
  "cv_objects state_view (os_world start_state) k = (if k = secret_key ''ns'' ''oauth'' then Some oauth_secret else None)"
  by (simp add: state_view_def start_state_def)

lemma start_configMaps [simp]: "cv_configMaps state_view (os_world start_state) ns n = None"
  by (simp add: state_view_def start_state_def)

lemma start_owners: "om_owners (obj_meta oauth_secret) = []"
  by (simp add: oauth_secret_def buildObjectMeta_def)

lemma start_refs: "secret_refs example_policy = [''oauth''] \<and> configMap_refs example_policy = []"
  by (simp add: secret_refs_def configMap_refs_def example_policy_def example_spec_def List.map_filter_simps)

lemma start_world_ok: "world_ok store_controller state_view (os_world start_state)"
proof -
  have "''oauth'' \<noteq> EnvoySecretName m" for m
    by (auto simp: EnvoySecretName_def dest: arg_cong [where f = last])
  moreover have "wf_map (ws_matchLabels (spec_selector (ap_spec example_policy)))"
    by code_simp
  moreover have "obj_key oauth_secret = secret_key ''ns'' ''oauth''"
    by (simp add: oauth_secret_def obj_key_def secret_key_def buildObjectMeta_def)
  moreover have "\<not> c_isControlledBy (ce_client store_controller) oauth_secret ap" for ap
    using start_owners by (simp add: store_controller_def state_client_def store_client_def controller_of_def)
  ultimately show ?thesis
    using start_refs start_owners
    by (auto simp: world_ok_def keys_ok_def uids_unique_def owners_true_def inputs_foreign_def selectors_ok_def
        IsOwnedByAuthPolicy_def)
qed

lemma start_queued: "all_queued state_view start_state"
  by (auto simp: all_queued_def) (simp add: start_state_def)

lemma start_credentials:
  "ResolveOAuthCredentials (ce_reader store_controller (os_world start_state)) example_policy =
     Inr \<lparr>cr_clientID = Some ''x'', cr_clientSecret = Some ''y''\<rparr>"
  by code_simp

lemma start_document:
  "\<exists>uris. ResolveDiscoveryDocument (ce_visit store_controller) (ce_getDocument store_controller)
     example_policy = Inr uris \<and> token_port_ok (idp_tokenURI uris)"
proof -
  have "case ResolveDiscoveryDocument (ce_visit store_controller) (ce_getDocument store_controller)
      example_policy of Inr uris \<Rightarrow> token_port_ok (idp_tokenURI uris) | Inl _ \<Rightarrow> False"
    by code_simp
  then show ?thesis by (simp split: sum.splits)
qed

lemma start_audiences:
  "ResolveAudiences rd (ap_namespace example_policy) (spec_allowedAudiences (ap_spec example_policy)) = Inr [''aud'']"
  by (simp add: example_policy_def example_spec_def)

lemma start_resolved:
  obtains s where "resolveAuthPolicy store_controller (os_world start_state) (InitializeStatus example_policy) = Some (Inr s)"
    "well_formed_scope (validateAuthPolicy s)" "credentials_given (validateAuthPolicy s)"
    "token_port_ok (idp_tokenURI (s_identityProviderUris (validateAuthPolicy s)))"
proof -
  obtain uris where uris: "ResolveDiscoveryDocument (ce_visit store_controller)
      (ce_getDocument store_controller) example_policy = Inr uris" "token_port_ok (idp_tokenURI uris)"
    using start_document by blast
  obtain cfg where "ResolveAutoLoginConfig example_policy uris = Some cfg" using resolve_autologin_total by blast
  then obtain s where s: "resolveAuthPolicy store_controller (os_world start_state) example_policy = Some (Inr s)"
    "s_authPolicy s = example_policy" "s_oauthCredentials s = \<lparr>cr_clientID = Some ''x'', cr_clientSecret = Some ''y''\<rparr>"
    "s_identityProviderUris s = uris"
    using uris start_credentials start_audiences by (simp add: resolveAuthPolicy_def)
  let ?i = "InitializeStatus example_policy"
  let ?s = "s\<lparr>s_authPolicy := ?i\<rparr>"
  have val: "ValidatePaths (GetPaths ?i) = Inr ()" "spec_enabled (ap_spec ?i)" "paths_given ?i" "values_given ?i" by code_simp+
  have "resolveAuthPolicy store_controller (os_world start_state) ?i = Some (Inr ?s)"
    using resolve_core [of example_policy ?i store_controller "os_world start_state"] s by simp
  moreover have "well_formed_scope (validateAuthPolicy ?s)"
    using val by (simp add: well_formed_scope_def validateAuthPolicy_def)
  moreover have "credentials_given (validateAuthPolicy ?s)"
    using val s by (simp add: credentials_given_def validateAuthPolicy_def)
  moreover have "token_port_ok (idp_tokenURI (s_identityProviderUris (validateAuthPolicy ?s)))" using uris s by simp
  ultimately show thesis by (rule that)
qed

lemma start_secrets_built: "secrets_built store_controller start_random"
  by (simp add: secrets_built_def start_random_def store_controller_def example_env_def)

lemma start_exact: "exact_comparisons start_random"
  by (simp add: exact_comparisons_def exact_comparison_def start_random_def example_env_def)

lemma start_healthy: "healthy store_controller state_view start_random (os_world start_state)"
proof -
  obtain s where s: "resolveAuthPolicy store_controller (os_world start_state) (InitializeStatus example_policy) = Some (Inr s)"
    "credentials_given (validateAuthPolicy s)" "token_port_ok (idp_tokenURI (s_identityProviderUris (validateAuthPolicy s)))"
    by (rule start_resolved)
  have "\<exists>rs. ControllerResources ((ce_gen store_controller)\<lparr>ge_run := rb\<rparr>) (validateAuthPolicy s) = Inr rs" for rb
    using example_env_total [OF s(2, 3)] by (simp add: store_controller_def)
  moreover have "list_all (unobstructed (c_isControlledBy (ce_client store_controller)) (cv_objects state_view (os_world start_state)) example_policy)
      (own_keys (ap_namespace example_policy) (ap_name example_policy))"
    by (simp add: own_keys_def unobstructed_def secret_key_def example_policy_def name_defs)
  ultimately show ?thesis using s(1) by (auto simp: healthy_def healthy_policy_def)
qed

lemma start_drained:
  obtains k st' where "((process_step store_controller state_view start_random) ^^ k) start_state st'" "os_queue st' = {}"
    "(orderly_step store_controller state_view start_random)\<^sup>*\<^sup>* start_state st'"
    "\<exists>ap. cv_policies state_view (os_world st') ''ns'' ''demo'' = Some ap \<and> core ap = core example_policy"
proof -
  let ?R = "process_step store_controller state_view start_random"
  have queue: "finite (os_queue start_state)" "start_random \<noteq> {}" by (simp_all add: start_state_def start_random_def)
  obtain k st' where run: "(?R ^^ k) start_state st'" "os_queue st' = {}"
    using reliable_cluster.queue_drains [OF store_reliable start_world_ok start_healthy start_secrets_built start_exact queue(1)
        all_queued_settled [OF start_queued] queue(2)] by blast
  have "?R\<^sup>*\<^sup>* start_state st'" using run(1) by (rule relpowp_imp_rtranclp)
  then have "(orderly_step store_controller state_view start_random)\<^sup>*\<^sup>* start_state st'"
    by (rule rtranclp_mono [THEN predicate2D, rotated]) (auto intro: process_orderly)
  moreover have "map_option core (cv_policies state_view (os_world st') ''ns'' ''demo'') = Some (core example_policy)"
    using reliable_cluster.process_run_policies [OF store_reliable run(1) start_world_ok] by (simp add: same_policies_def)
  ultimately show thesis using that run by auto
qed

end
