(* ===== verification/ControlGuarantees.thy ===== *)
theory ControlGuarantees
  imports ClusterStore
begin

text \<open>
  What the operator guarantees over time, among orderly changes by others: an idle policy is settled
  and what is stored for it enforces it, and without changes by others the queue runs empty.
\<close>

section \<open>Actions over time\<close>

text \<open>The actions of the policies under the names of one AuthPolicy.\<close>

definition actions_intact :: "(objkey \<Rightarrow> k8s_object option) \<Rightarrow> string \<Rightarrow> string \<Rightarrow> bool" where
  "actions_intact objs ns name \<longleftrightarrow>
     (let key = \<lambda>n. \<lparr>k_kind = ''AuthorizationPolicy'', k_namespace = ns, k_name = n\<rparr>
      in action_kept objs (key (DenyPolicyName name)) DENY \<and> action_kept objs (key (IgnorePolicyName name)) ALLOW \<and>
         action_kept objs (key (RequirePolicyName name)) ALLOW)"

lemma actions_kept_intact:
  "actions_kept objs s = actions_intact objs (ap_namespace (s_authPolicy s)) (ap_name (s_authPolicy s))"
  by (simp only: actions_kept_def actions_intact_def azp_key_def Let_def)

lemma actions_intact_frame:
  assumes "\<And>k. k \<in> set (own_keys ns n) \<Longrightarrow> objs' k = objs k"
  shows "actions_intact objs' ns n = actions_intact objs ns n"
  using assms by (simp add: actions_intact_def own_keys_def action_kept_def)

context cluster
begin

lemma Reconcile_keeps_actions:
  assumes "Reconcile (at_run env rb t) ns n g w = (out, g', w')" and "world_ok env v w"
    and "actions_intact (cv_objects v w) ns' n'"
  shows "actions_intact (cv_objects v w') ns' n'"
proof (cases "(ns', n') = (ns, n)")
  case False
  have "cv_objects v w' k = cv_objects v w k" if "k \<in> set (own_keys ns' n')" for k
    using Reconcile_effect [OF assms(1, 2)] own_keys_disjoint [OF that] False by blast
  from actions_intact_frame [where objs' = "cv_objects v w'", OF this] assms(3) show ?thesis by blast
next
  case True
  show ?thesis
    using assms(1)
  proof (cases rule: Reconcile_phases)
    case quiet
    then show ?thesis using assms(3) by (simp add: quiet_write_def)
  next
    case (full ap w0 s rs r s' w1)
    have wf: "selector_wf (validateAuthPolicy s)" using full_scope [OF full(1, 3) assms(2) full(4)] by metis
    have name: "ap_namespace (s_authPolicy (validateAuthPolicy s)) = ns'" "ap_name (s_authPolicy (validateAuthPolicy s)) = n'"
      using resolved_scope_facts(1) [OF full(4)] policy_key [OF full(1)] True by (simp_all add: InitializeStatus_def)
    have "actions_kept (cv_objects v w0) (validateAuthPolicy s)"
      using assms(3) full(3) name by (simp add: actions_kept_intact quiet_write_def)
    from reconcile_keeps_actions [OF k8s_api_axioms full(5) wf full(6) this]
    show ?thesis using full(7) name by (simp add: actions_kept_intact quiet_write_def)
  qed
qed

lemma process_run_actions:
  assumes "((process_step env v RB) ^^ k) st st'" and "world_ok env v (os_world st)"
    and "actions_intact (cv_objects v (os_world st)) ns n"
  shows "world_ok env v (os_world st') \<and> actions_intact (cv_objects v (os_world st')) ns n"
  using assms(1)
proof (induction k arbitrary: st')
  case (Suc k)
  then obtain st1 where "((process_step env v RB) ^^ k) st st1" and step: "process_step env v RB st1 st'" by auto
  note inv = Suc.IH [OF this(1)]
  from step show ?case
  proof (rule process_stepE)
    fix q rb t out g' w'
    assume run: "Reconcile (at_run env rb t) (nn_namespace q) (nn_name q) (os_gauge st1) (os_world st1) = (out, g', w')"
      and st': "st' = \<lparr>os_world = w', os_queue = (os_queue st1 - {q}) \<union> changed_requests v (os_world st1) w' \<union>
        (if out = Reconciled emptyResult then {} else {q}), os_gauge = g'\<rparr>"
    show ?case using Reconcile_effect [OF run] Reconcile_keeps_actions [OF run] inv st' by simp
  qed
qed (use assms in simp)

end

lemma same_spec:
  assumes "ap_spec a = ap_spec b"
  shows "GetPaths a = GetPaths b" and "paths_given a = paths_given b" and "values_given a = values_given b"
    and "GetIgnoreAuthRequestMatchers a = GetIgnoreAuthRequestMatchers b"
  unfolding GetPaths_def paths_given_def values_given_def GetRequireAuthRequestMatchers_def
    GetIgnoreAuthRequestMatchers_def auth_rules_def assms by (rule refl)+

lemma InitializeStatus_fields [simp]:
  "ap_spec (InitializeStatus ap) = ap_spec ap" "ap_namespace (InitializeStatus ap) = ap_namespace ap"
  "ap_name (InitializeStatus ap) = ap_name ap"
  by (simp_all add: InitializeStatus_def)

lemma valid_scope:
  assumes "s_authPolicy s = InitializeStatus ap" and "spec_enabled (ap_spec ap)"
    and "ValidatePaths (GetPaths ap) = Inr ()" and "paths_given ap" and "values_given ap"
  shows "well_formed_scope (validateAuthPolicy s)"
  using assms same_spec [of "InitializeStatus ap" ap] by (simp add: well_formed_scope_def validateAuthPolicy_def)

section \<open>Properties\<close>

text \<open>C3: in every state that a freshly started operator reaches, whichever of its calls fail and
  whatever orderly changes others make in between, every policy that has no request in the queue and
  is not being deleted has its objects as a successful reconciliation leaves them.  Orderly are
  changes after which the policies can be listed, the uids are unique and owner references true, no
  policy refers to a secret or config map that an AuthPolicy owns, and a changed spec has a new
  generation.\<close>

theorem unqueued_policies_settled:
  assumes "cluster env v" and "(orderly_step env v RB)\<^sup>*\<^sup>* st st'" and "world_ok env v (os_world st)" and "all_queued v st"
    and "cv_policies v (os_world st') ns n = Some ap" and "ap_deletionTimestamp ap = None"
    and "\<lparr>nn_namespace = ns, nn_name = n\<rparr> \<notin> os_queue st'"
  shows "policy_settled env v RB (os_world st') ap"
  using cluster.control_run_keeps [OF assms(1-3) all_queued_settled [OF assms(4)]] assms(5-7)
  unfolding unqueued_settled_def by blast

theorem unqueued_policies_settled_witness:
  "\<exists>st' ap. (orderly_step store_controller state_view start_random)\<^sup>*\<^sup>* start_state st' \<and>
     cv_policies state_view (os_world st') ''ns'' ''demo'' = Some ap \<and>
     policy_settled store_controller state_view start_random (os_world st') ap"
proof -
  obtain k st' where run: "((process_step store_controller state_view start_random) ^^ k) start_state st'" "os_queue st' = {}"
    "(orderly_step store_controller state_view start_random)\<^sup>*\<^sup>* start_state st'"
    "\<exists>ap. cv_policies state_view (os_world st') ''ns'' ''demo'' = Some ap \<and> core ap = core example_policy"
    by (rule start_drained)
  then obtain ap where ap: "cv_policies state_view (os_world st') ''ns'' ''demo'' = Some ap" "core ap = core example_policy"
    by blast
  have "ap_deletionTimestamp ap = None" using core_eqD(5) [OF ap(2)] by (simp add: example_policy_def)
  from unqueued_policies_settled [OF store_cluster run(3) start_world_ok start_queued ap(1) this] run(2, 3) ap(1)
  show ?thesis by auto
qed



text \<open>C2: in every state that a freshly started operator reaches among orderly changes by others, for
  every enabled, valid AuthPolicy that has no request in the queue and is not being deleted, whose
  matchers name paths and whose conditions name values, and whose authorization policies nobody gave
  other actions: Istio admits under the stored policies what it admits under the generated ones, and
  no request that lacks what the AuthPolicy asks for (issuer, audience and baseline claims unless it
  is ignored, and those with its own claims for each auth rule that applies).\<close>

theorem idle_policies_enforced:
  assumes "cluster env v" and "(orderly_step env v RB)\<^sup>*\<^sup>* st st'" and "world_ok env v (os_world st)" and "all_queued v st"
    and "cv_policies v (os_world st') ns n = Some ap" and "ap_deletionTimestamp ap = None"
    and "\<lparr>nn_namespace = ns, nn_name = n\<rparr> \<notin> os_queue st'" and "actions_intact (cv_objects v (os_world st')) ns n"
    and "spec_enabled (ap_spec ap)" and "ValidatePaths (GetPaths ap) = Inr ()" and "paths_given ap" and "values_given ap"
    and "istio_engine allows vm" and "growth (ge_newcap (ce_gen env))"
  shows "\<exists>s. resolveAuthPolicy env (os_world st') (InitializeStatus ap) = Some (Inr s) \<and>
    (\<forall>q. let stored = stored_policies (c_isControlledBy (ce_client env)) (cv_objects v (os_world st')) (validateAuthPolicy s)
         in allows stored q = allows (access_policies (ge_newcap (ce_gen env)) (validateAuthPolicy s)) q \<and>
            (allows stored q \<longrightarrow> intended_access vm (validateAuthPolicy s) q))"
proof -
  have "policy_settled env v RB (os_world st') ap"
    using cluster.control_run_keeps [OF assms(1-3) all_queued_settled [OF assms(4)]] assms(5-7)
    unfolding unqueued_settled_def by blast
  then obtain rb s rs where s: "resolveAuthPolicy env (os_world st') (InitializeStatus ap) = Some (Inr s)"
    and rs: "ControllerResources ((ce_gen env)\<lparr>ge_run := rb\<rparr>) (validateAuthPolicy s) = Inr rs"
    and st: "list_all (settled_in (c_isControlledBy (ce_client env)) (cv_objects v (os_world st')) (validateAuthPolicy s)) rs"
    unfolding policy_settled_def by blast
  note facts = resolved_scope_facts(1) [OF s]
  have wf: "well_formed_scope (validateAuthPolicy s)" using valid_scope facts assms(9-12) by simp
  have "actions_kept (cv_objects v (os_world st')) (validateAuthPolicy s)"
    using facts assms(8) cluster.policy_key [OF assms(1, 5)] by (simp add: actions_kept_intact)
  with settled_enforce [OF rs st _ assms(13) _ wf] access_sound [OF assms(13, 14) wf] assms(14) s
  show ?thesis by (simp add: Let_def)
qed

text \<open>The witness: with the operator's work done, nobody reads /private without a token.\<close>

theorem idle_policies_enforced_witness:
  "\<exists>st' s. (orderly_step store_controller state_view start_random)\<^sup>*\<^sup>* start_state st' \<and> os_queue st' = {} \<and>
     \<not> istio_reference (=) (stored_policies (c_isControlledBy (ce_client store_controller)) (cv_objects state_view (os_world st')) s)
         \<lparr>rq_path = ''/private'', rq_method = ''GET'', rq_claims = []\<rparr>"
proof -
  let ?q = "\<lparr>rq_path = ''/private'', rq_method = ''GET'', rq_claims = []\<rparr>"
  obtain k st' where run: "((process_step store_controller state_view start_random) ^^ k) start_state st'" "os_queue st' = {}"
    "(orderly_step store_controller state_view start_random)\<^sup>*\<^sup>* start_state st'"
    "\<exists>ap. cv_policies state_view (os_world st') ''ns'' ''demo'' = Some ap \<and> core ap = core example_policy"
    by (rule start_drained)
  then obtain ap where ap: "cv_policies state_view (os_world st') ''ns'' ''demo'' = Some ap" "core ap = core example_policy"
    by blast
  note core = core_eqD [OF ap(2)]
  have live: "ap_deletionTimestamp ap = None" using core(5) by (simp add: example_policy_def)
  have "actions_intact (cv_objects state_view (os_world start_state)) ''ns'' ''demo''"
    by (simp add: actions_intact_def action_kept_def secret_key_def)
  from cluster.process_run_actions [OF store_cluster run(1) start_world_ok this]
  have intact: "actions_intact (cv_objects state_view (os_world st')) ''ns'' ''demo''" by blast
  have "spec_enabled (ap_spec example_policy)" "ValidatePaths (GetPaths example_policy) = Inr ()"
    "paths_given example_policy" "values_given example_policy" by code_simp+
  then have spec: "spec_enabled (ap_spec ap)" "ValidatePaths (GetPaths ap) = Inr ()" "paths_given ap" "values_given ap"
    using core(6) same_spec [OF core(6)] by simp_all
  have gr: "growth (ge_newcap (ce_gen store_controller))"
    by (simp add: store_controller_def example_env_def go_growth.growth_axioms)
  obtain s where s: "resolveAuthPolicy store_controller (os_world st') (InitializeStatus ap) = Some (Inr s)"
    "istio_reference (=) (stored_policies (c_isControlledBy (ce_client store_controller)) (cv_objects state_view (os_world st'))
       (validateAuthPolicy s)) ?q \<Longrightarrow> intended_access (=) (validateAuthPolicy s) ?q"
    using idle_policies_enforced [OF store_cluster run(3) start_world_ok start_queued ap(1) live _ intact spec
        reference.istio_engine_axioms [of "(=)"] gr] run(2) by (auto simp: Let_def)
  have spec_s: "ap_spec (s_authPolicy (validateAuthPolicy s)) = ap_spec example_policy"
    using resolved_scope_facts(1) [OF s(1)] core(6) by simp
  have "\<not> any_hits (GetIgnoreAuthRequestMatchers example_policy) ''/private'' ''GET''" by code_simp
  then have "\<not> ignored (validateAuthPolicy s) ?q" using same_spec(4) [OF spec_s] by (simp add: ignored_iff)
  moreover have "\<not> base_holds (=) (validateAuthPolicy s) ?q"
    by (simp add: base_holds_def claim_among_def Let_def)
  ultimately have "\<not> intended_access (=) (validateAuthPolicy s) ?q" by (simp add: intended_access_def)
  with run s(2) show ?thesis by blast
qed

end
