(* ===== verification/GoJson.thy ===== *)
theory GoJson
  imports GoUrl Utf8
begin

text \<open>
  Go's \<open>encoding/json\<close> as far as the webhook uses it: the scanner with its stack of open arrays and
  objects, the unquoting of strings, and what decoding into a struct or a list of structs does with a
  value.  A failure of either is \<open>None\<close>.
\<close>

section \<open>Values\<close>

datatype json =
    JNull
  | JBool bool
  | JNumber string
  | JString string
  | JArray "json list"
  | JObject "(string \<times> json) list"

section \<open>Strings\<close>

text \<open>The UTF-8 encoding of a code point.\<close>

definition utf8_encode :: "nat \<Rightarrow> string" where
  "utf8_encode r =
     map char_of
       (if r < 128 then [r]
        else if r < 2048 then [192 + r div 64, 128 + r mod 64]
        else if r < 65536 then [224 + r div 4096, 128 + r div 64 mod 64, 128 + r mod 64]
        else [240 + r div 262144, 128 + r div 4096 mod 64, 128 + r div 64 mod 64, 128 + r mod 64])"

text \<open>The replacement character, U+FFFD.\<close>

definition replacement :: string where
  "replacement = utf8_encode 65533"

definition json_quote :: char where "json_quote = CHR 0x22"
definition json_backslash :: char where "json_backslash = CHR 0x5C"

definition json_escapes :: "(char \<times> char) list" where
  "json_escapes =
     [(json_quote, json_quote), (json_backslash, json_backslash), (CHR ''/'', CHR ''/''), (CHR ''b'', CHR 0x08),
      (CHR ''f'', CHR 0x0C), (CHR ''n'', CHR 0x0A), (CHR ''r'', CHR 0x0D), (CHR ''t'', CHR 0x09)]"

text \<open>\<open>getu4\<close>: the code of an escape with four hexadecimal digits.\<close>

fun getu4 :: "string \<Rightarrow> (nat \<times> string) option" where
  "getu4 (b # u # c1 # c2 # c3 # c4 # rest) =
     (if b = json_backslash \<and> u = CHR ''u'' then
        (case (hex_value c1, hex_value c2, hex_value c3, hex_value c4) of
           (Some d1, Some d2, Some d3, Some d4) \<Rightarrow> Some (((d1 * 16 + d2) * 16 + d3) * 16 + d4, rest)
         | _ \<Rightarrow> None)
      else None)"
| "getu4 _ = None"

definition unicode_escape :: "string \<Rightarrow> (string \<times> string) option" where
  "unicode_escape s =
     (case getu4 s of
        None \<Rightarrow> None
      | Some (r, rest) \<Rightarrow>
          if 55296 \<le> r \<and> r < 57344 then
            (case getu4 rest of
               Some (r2, rest2) \<Rightarrow>
                 if r < 56320 \<and> 56320 \<le> r2 \<and> r2 < 57344
                 then Some (utf8_encode (65536 + (r - 55296) * 1024 + (r2 - 56320)), rest2)
                 else Some (replacement, rest)
             | None \<Rightarrow> Some (replacement, rest))
          else Some (utf8_encode r, rest))"

text \<open>One character of a string literal: what it stands for and the rest.\<close>

definition string_step :: "string \<Rightarrow> (string \<times> string) option" where
  "string_step s =
     (case s of
        [] \<Rightarrow> None
      | c # cs \<Rightarrow>
          if c = json_backslash then
            (case cs of
               [] \<Rightarrow> None
             | x # rest \<Rightarrow>
                 if x = CHR ''u'' then unicode_escape s
                 else map_option (\<lambda>v. ([v], rest)) (map_of json_escapes x))
          else if c < CHR '' '' then None
          else if utf8_width s = 0 then Some (replacement, cs)
          else Some (take (utf8_width s) s, drop (utf8_width s) s))"

lemma getu4_shorter: "getu4 s = Some (r, rest) \<Longrightarrow> length rest < length s"
  by (induction s rule: getu4.induct) (auto split: if_splits option.splits)

lemma string_step_shorter: "string_step s = Some (e, rest) \<Longrightarrow> length rest < length s"
  by (auto simp: string_step_def unicode_escape_def split: list.splits if_splits option.splits dest!: getu4_shorter)

function json_string :: "string \<Rightarrow> (string \<times> string) option" where
  "json_string s =
     (if HasPrefix s [json_quote] then Some ([], tl s)
      else case string_step s of
        None \<Rightarrow> None
      | Some (e, rest) \<Rightarrow> map_option (\<lambda>(v, r). (e @ v, r)) (json_string rest))"
  by pat_completeness auto
termination by (relation "measure length") (auto dest!: string_step_shorter)

declare json_string.simps [simp del]

section \<open>Tokens\<close>

text \<open>The rest behind the parts of a number.\<close>

definition skip_digits :: "string \<Rightarrow> string option" where
  "skip_digits s = (if s \<noteq> [] \<and> is_digit (hd s) then Some (dropWhile is_digit s) else None)"

definition skip_integer :: "string \<Rightarrow> string option" where
  "skip_integer s = (if HasPrefix s ''0'' then Some (tl s) else skip_digits s)"

definition skip_fraction :: "string \<Rightarrow> string option" where
  "skip_fraction s = (if HasPrefix s ''.'' then skip_digits (tl s) else Some s)"

definition skip_exponent :: "string \<Rightarrow> string option" where
  "skip_exponent s =
     (if HasPrefix s ''e'' \<or> HasPrefix s ''E''
      then skip_digits (if HasPrefix (tl s) ''+'' \<or> HasPrefix (tl s) ''-'' then tl (tl s) else tl s)
      else Some s)"

definition json_number :: "string \<Rightarrow> (string \<times> string) option" where
  "json_number s =
     map_option (\<lambda>rest. (take (length s - length rest) s, rest))
       (Option.bind (skip_integer (TrimPrefix s ''-'')) (\<lambda>a. Option.bind (skip_fraction a) skip_exponent))"

datatype json_token =
    TBeginArray
  | TEndArray
  | TBeginObject
  | TEndObject
  | TColon
  | TComma
  | TValue json

definition json_marks :: "(char \<times> json_token) list" where
  "json_marks =
     [(CHR ''['', TBeginArray), (CHR '']'', TEndArray), (CHR ''{'', TBeginObject), (CHR ''}'', TEndObject),
      (CHR '':'', TColon), (CHR '','', TComma)]"

definition json_words :: "(string \<times> json) list" where
  "json_words = [(''true'', JBool True), (''false'', JBool False), (''null'', JNull)]"

definition json_space :: "char \<Rightarrow> bool" where
  "json_space c \<longleftrightarrow> c \<in> set [CHR '' '', CHR 0x09, CHR 0x0A, CHR 0x0D]"

text \<open>The token at the head of a text without leading space.\<close>

definition json_token :: "string \<Rightarrow> (json_token \<times> string) option" where
  "json_token s =
     (case map_of json_marks (hd s) of
        Some t \<Rightarrow> Some (t, tl s)
      | None \<Rightarrow>
          if hd s = json_quote then map_option (\<lambda>(v, r). (TValue (JString v), r)) (json_string (tl s))
          else (case find (\<lambda>(w, v). HasPrefix s w) json_words of
                  Some (w, v) \<Rightarrow> Some (TValue v, drop (length w) s)
                | None \<Rightarrow> map_option (\<lambda>(n, r). (TValue (JNumber n), r)) (json_number s)))"

lemma json_string_shorter: "json_string s = Some (v, r) \<Longrightarrow> length r < length s"
proof (induction s arbitrary: v r rule: json_string.induct)
  case (1 s)
  show ?case
  proof (cases "HasPrefix s [json_quote]")
    case True
    with "1.prems" show ?thesis by (cases s) (auto simp: json_string.simps)
  next
    case False
    with "1.prems" obtain e rest v' where st: "string_step s = Some (e, rest)" "json_string rest = Some (v', r)"
      by (auto simp: json_string.simps [of s] split: option.splits)
    then show ?thesis using "1.IH" [OF False st(1) refl st(2)] string_step_shorter [OF st(1)] by simp
  qed
qed

lemma skip_digits_shorter: "skip_digits s = Some r \<Longrightarrow> length r < length s"
  by (cases s) (auto simp: skip_digits_def intro!: le_imp_less_Suc length_dropWhile_le split: if_splits)

lemma json_number_shorter:
  assumes "json_number s = Some (n, r)"
  shows "length r < length s"
proof -
  obtain a b where steps: "skip_integer (TrimPrefix s ''-'') = Some a" "skip_fraction a = Some b" "skip_exponent b = Some r"
    using assms by (auto simp: json_number_def bind_eq_Some_conv)
  have "length r \<le> length b"
    using steps(3) skip_digits_shorter by (cases b; cases "tl b") (fastforce simp: skip_exponent_def split: if_splits)+
  moreover have "length b \<le> length a"
    using steps(2) skip_digits_shorter by (cases a) (fastforce simp: skip_fraction_def split: if_splits)+
  moreover have "length a < length (TrimPrefix s ''-'')"
    using steps(1) skip_digits_shorter [of "TrimPrefix s ''-''" a]
    by (cases "TrimPrefix s ''-''") (auto simp: skip_integer_def skip_digits_def split: if_splits)
  moreover have "length (TrimPrefix s ''-'') \<le> length s" by (simp add: TrimPrefix_def)
  ultimately show ?thesis by simp
qed

lemma json_word_found: "find (\<lambda>(w, v). HasPrefix s w) json_words = Some (w, v) \<Longrightarrow> w \<noteq> []"
  by (auto simp: json_words_def split: if_splits)

lemma json_token_shorter:
  assumes "json_token s = Some (t, r)" and "s \<noteq> []"
  shows "length r < length s"
proof (cases "map_of json_marks (hd s)")
  case (Some m)
  then show ?thesis using assms by (cases s) (auto simp: json_token_def)
next
  case None
  show ?thesis
  proof (cases "hd s = json_quote")
    case True
    then obtain v where "json_string (tl s) = Some (v, r)" using assms None by (auto simp: json_token_def)
    from json_string_shorter [OF this] show ?thesis using assms(2) by simp
  next
    case False
    show ?thesis
    proof (cases "find (\<lambda>(w, v). HasPrefix s w) json_words")
      case None': None
      then obtain n where "json_number s = Some (n, r)" using assms None False by (auto simp: json_token_def)
      then show ?thesis by (rule json_number_shorter)
    next
      case (Some p)
      then have "fst p \<noteq> []" using json_word_found [of s "fst p" "snd p"] by simp
      then show ?thesis using assms None False Some by (auto simp: json_token_def split: prod.splits)
    qed
  qed
qed

function json_tokens :: "string \<Rightarrow> json_token list option" where
  "json_tokens s =
     (case dropWhile json_space s of
        [] \<Rightarrow> Some []
      | c # cs \<Rightarrow>
          (case json_token (c # cs) of
             None \<Rightarrow> None
           | Some (t, rest) \<Rightarrow> map_option (Cons t) (json_tokens rest)))"
  by pat_completeness auto
termination
proof (relation "measure length", goal_cases)
  case (2 s c cs p t rest)
  have "length rest < length (c # cs)" using json_token_shorter [of "c # cs" t rest] 2 by simp
  moreover have "length (c # cs) \<le> length s" using length_dropWhile_le [of json_space s] 2(1) by simp
  ultimately show ?case by simp
qed simp

declare json_tokens.simps [simp del]

section \<open>The scanner\<close>

text \<open>Open arrays and objects with the values they have so far, last first, and in an object the key
  whose value is read.\<close>

datatype json_frame = FArray "json list" | FObject "(string \<times> json) list" string

datatype json_state = BeginValue | BeginValueOrEmpty | BeginStringOrEmpty | BeginString | AfterKey | EndValue json

definition maxNestingDepth :: int where "maxNestingDepth = 10000"

fun json_scan :: "json_frame list \<Rightarrow> json_state \<Rightarrow> json_token list \<Rightarrow> json option" where
  "json_scan stack (EndValue v) ts =
     (case (stack, ts) of
        ([], []) \<Rightarrow> Some v
      | (FArray vs # st, t # ts') \<Rightarrow>
          (case t of
             TComma \<Rightarrow> json_scan (FArray (v # vs) # st) BeginValue ts'
           | TEndArray \<Rightarrow> json_scan st (EndValue (JArray (rev (v # vs)))) ts'
           | _ \<Rightarrow> None)
      | (FObject ms k # st, t # ts') \<Rightarrow>
          (case t of
             TComma \<Rightarrow> json_scan (FObject ((k, v) # ms) [] # st) BeginString ts'
           | TEndObject \<Rightarrow> json_scan st (EndValue (JObject (rev ((k, v) # ms)))) ts'
           | _ \<Rightarrow> None)
      | _ \<Rightarrow> None)"
| "json_scan stack state [] = None"
| "json_scan stack AfterKey (t # ts) = (if t = TColon then json_scan stack BeginValue ts else None)"
| "json_scan stack state (t # ts) =
     (case t of
        TEndArray \<Rightarrow>
          if state = BeginValueOrEmpty then json_scan (tl stack) (EndValue (JArray [])) ts else None
      | TEndObject \<Rightarrow>
          if state = BeginStringOrEmpty then json_scan (tl stack) (EndValue (JObject [])) ts else None
      | TBeginArray \<Rightarrow>
          if state \<in> {BeginValue, BeginValueOrEmpty} \<and> int (length stack) < maxNestingDepth
          then json_scan (FArray [] # stack) BeginValueOrEmpty ts else None
      | TBeginObject \<Rightarrow>
          if state \<in> {BeginValue, BeginValueOrEmpty} \<and> int (length stack) < maxNestingDepth
          then json_scan (FObject [] [] # stack) BeginStringOrEmpty ts else None
      | TValue v \<Rightarrow>
          if state \<in> {BeginValue, BeginValueOrEmpty} then json_scan stack (EndValue v) ts
          else (case (v, stack) of
                  (JString k, FObject ms _ # st) \<Rightarrow> json_scan (FObject ms k # st) AfterKey ts
                | _ \<Rightarrow> None)
      | _ \<Rightarrow> None)"

definition json_parse :: "string \<Rightarrow> json option" where
  "json_parse s = Option.bind (json_tokens s) (json_scan [] BeginValue)"

section \<open>Decoding\<close>

text \<open>
  The key of an object names the field of a struct with the same name or, when there is none, the
  first one with the same name up to case, where two letters outside ASCII fold to S and K.  Other
  keys are skipped, a null leaves a field as it is, and a key that comes twice decodes twice into
  the same field.
\<close>

definition upper_byte :: "char \<Rightarrow> char" where
  "upper_byte c = (if byte_between (CHR ''a'') (CHR ''z'') c then char_of (of_char c - (32 :: nat)) else c)"

fun fold_name :: "string \<Rightarrow> string" where
  "fold_name (c # d # e # s) =
     (if [c, d, e] = [CHR 0xE2, CHR 0x84, CHR 0xAA] then CHR ''K'' # fold_name s
      else if [c, d] = [CHR 0xC5, CHR 0xBF] then CHR ''S'' # fold_name (e # s)
      else upper_byte c # fold_name (d # e # s))"
| "fold_name [c, d] = (if [c, d] = [CHR 0xC5, CHR 0xBF] then ''S'' else [upper_byte c, upper_byte d])"
| "fold_name s = map upper_byte s"

definition json_field :: "string list \<Rightarrow> string \<Rightarrow> string option" where
  "json_field names key =
     (if key \<in> set names then Some key else find (\<lambda>n. fold_name n = fold_name key) names)"

definition decode_string :: "json \<Rightarrow> string \<Rightarrow> string option" where
  "decode_string v current = (case v of JNull \<Rightarrow> Some current | JString s \<Rightarrow> Some s | _ \<Rightarrow> None)"

definition decode_bool :: "json \<Rightarrow> bool \<Rightarrow> bool option" where
  "decode_bool v current = (case v of JNull \<Rightarrow> Some current | JBool b \<Rightarrow> Some b | _ \<Rightarrow> None)"

fun decode_members ::
  "string list \<Rightarrow> (string \<Rightarrow> json \<Rightarrow> 'a \<Rightarrow> 'a option) \<Rightarrow> (string \<times> json) list \<Rightarrow> 'a \<Rightarrow> 'a option" where
  "decode_members names set_field [] current = Some current"
| "decode_members names set_field ((key, v) # ms) current =
     (case json_field names key of
        None \<Rightarrow> decode_members names set_field ms current
      | Some f \<Rightarrow> Option.bind (set_field f v current) (decode_members names set_field ms))"

definition decode_struct :: "string list \<Rightarrow> (string \<Rightarrow> json \<Rightarrow> 'a \<Rightarrow> 'a option) \<Rightarrow> json \<Rightarrow> 'a \<Rightarrow> 'a option" where
  "decode_struct names set_field v current =
     (case v of JNull \<Rightarrow> Some current | JObject ms \<Rightarrow> decode_members names set_field ms current | _ \<Rightarrow> None)"

definition decode_slice :: "(json \<Rightarrow> 'a option) \<Rightarrow> json \<Rightarrow> 'a list option" where
  "decode_slice decode v =
     (case v of JNull \<Rightarrow> Some [] | JArray vs \<Rightarrow> those (map decode vs) | _ \<Rightarrow> None)"

section \<open>Texts of a value\<close>

text \<open>The tokens of a value, and how deep its arrays and objects go.\<close>

fun commas :: "json_token list list \<Rightarrow> json_token list" where
  "commas [] = []"
| "commas [ts] = ts"
| "commas (ts # tss) = ts @ TComma # commas tss"

fun json_tokens_of :: "json \<Rightarrow> json_token list" where
  "json_tokens_of (JArray vs) = TBeginArray # commas (map json_tokens_of vs) @ [TEndArray]"
| "json_tokens_of (JObject ms) =
     TBeginObject # commas (map (\<lambda>(k, v). TValue (JString k) # TColon # json_tokens_of v) ms) @ [TEndObject]"
| "json_tokens_of v = [TValue v]"

fun json_depth :: "json \<Rightarrow> nat" where
  "json_depth (JArray vs) = Suc (Max (insert 0 (set (map json_depth vs))))"
| "json_depth (JObject ms) = Suc (Max (insert 0 (set (map (json_depth \<circ> snd) ms))))"
| "json_depth v = 0"

text \<open>A layout puts white space in front of each token.  Strings are written as they are, which needs
  printable ASCII without quotes and backslashes; numbers are left out.\<close>

definition plain_text :: "string \<Rightarrow> bool" where
  "plain_text s \<longleftrightarrow> list_all (\<lambda>c. CHR '' '' \<le> c \<and> c < CHR 0x7F \<and> c \<noteq> json_quote \<and> c \<noteq> json_backslash) s"

definition token_text :: "json_token \<Rightarrow> string" where
  "token_text t =
     (case t of
        TBeginArray \<Rightarrow> ''['' | TEndArray \<Rightarrow> '']'' | TBeginObject \<Rightarrow> ''{'' | TEndObject \<Rightarrow> ''}'' | TColon \<Rightarrow> '':'' | TComma \<Rightarrow> '',''
      | TValue v \<Rightarrow>
          (case v of JString s \<Rightarrow> json_quote # s @ [json_quote] | JBool True \<Rightarrow> ''true'' | JBool False \<Rightarrow> ''false'' | _ \<Rightarrow> ''null''))"

definition plain_token :: "json_token \<Rightarrow> bool" where
  "plain_token t \<longleftrightarrow>
     (case t of TValue v \<Rightarrow> (case v of JString s \<Rightarrow> plain_text s | JBool _ \<Rightarrow> True | JNull \<Rightarrow> True | _ \<Rightarrow> False) | _ \<Rightarrow> True)"

definition layout :: "(string \<times> json_token) list \<Rightarrow> string" where
  "layout l = concat (map (\<lambda>(w, t). w @ token_text t) l)"

section \<open>Every layout reads back\<close>

lemma plain_utf8: "CHR '' '' \<le> c \<Longrightarrow> c < CHR 0x7F \<Longrightarrow> utf8_width (c # s) = 1"
  by (simp add: utf8_width_def one_byte_def in_range_def less_char_def less_eq_char_def)

lemma json_string_plain: "plain_text s \<Longrightarrow> json_string (s @ json_quote # r) = Some (s, r)"
proof (induction s)
  case Nil
  then show ?case by (simp add: json_string.simps)
next
  case (Cons c s)
  then have c: "CHR '' '' \<le> c" "c < CHR 0x7F" "c \<noteq> json_quote" "c \<noteq> json_backslash" "plain_text s"
    by (simp_all add: plain_text_def)
  then have "string_step (c # s @ json_quote # r) = Some ([c], s @ json_quote # r)"
    using plain_utf8 [of c] by (simp add: string_step_def)
  then show ?case using Cons.IH [OF c(5)] c(3) by (simp add: json_string.simps [of "c # s @ json_quote # r"])
qed

lemma token_text_read: "plain_token t \<Longrightarrow> json_token (token_text t @ r) = Some (t, r)"
  using json_string_plain
  by (cases t) (auto simp: json_token_def token_text_def plain_token_def json_marks_def json_words_def json_quote_def
      split: json.splits bool.splits)

lemma token_text_head: "plain_token t \<Longrightarrow> \<exists>c cs. token_text t = c # cs \<and> \<not> json_space c"
  by (cases t) (auto simp: token_text_def plain_token_def json_space_def json_quote_def split: json.splits bool.splits)

lemma layout_tokens:
  assumes "list_all (\<lambda>(w, t). list_all json_space w \<and> plain_token t) l" and "list_all json_space w"
  shows "json_tokens (layout l @ w) = Some (map snd l)"
  using assms(1)
proof (induction l)
  case Nil
  have "dropWhile json_space w = []" using assms(2) by (simp add: list_all_iff dropWhile_eq_Nil_conv)
  then have "json_tokens w = Some []" by (simp only: json_tokens.simps [of w] list.case)
  then show ?case by (simp add: layout_def)
next
  case (Cons p l)
  obtain v t where p: "p = (v, t)" "list_all json_space v" "plain_token t" using Cons.prems by (cases p) auto
  obtain c cs where head: "token_text t = c # cs" "\<not> json_space c" using token_text_head [OF p(3)] by blast
  have "dropWhile json_space (layout (p # l) @ w) = token_text t @ layout l @ w"
    using p(1, 2) head by (simp add: layout_def list_all_iff dropWhile_append3)
  then show ?case
    using token_text_read [OF p(3), of "layout l @ w"] head(1) Cons p(1)
    by (simp add: json_tokens.simps [of "layout ((v, t) # l) @ w"])
qed

lemma commas_Cons: "tss \<noteq> [] \<Longrightarrow> commas (ts # tss) = ts @ TComma # commas tss"
  by (cases tss) simp_all

lemma scan_elements:
  assumes "\<And>v state acc ts. v \<in> set vs \<Longrightarrow> state \<in> {BeginValue, BeginValueOrEmpty} \<Longrightarrow>
      json_scan (FArray acc # stack) state (json_tokens_of v @ ts) = json_scan (FArray acc # stack) (EndValue v) ts"
    and "vs \<noteq> []" and "state \<in> {BeginValue, BeginValueOrEmpty}"
  shows "json_scan (FArray acc # stack) state (commas (map json_tokens_of vs) @ TEndArray # ts) =
    json_scan stack (EndValue (JArray (rev acc @ vs))) ts"
  using assms
proof (induction vs arbitrary: acc state)
  case (Cons v vs)
  note first = Cons.prems(1) [OF list.set_intros(1) Cons.prems(3)]
  show ?case
  proof (cases "vs = []")
    case True
    then show ?thesis using first by simp
  next
    case False
    have "json_scan (FArray (v # acc) # stack) BeginValue (commas (map json_tokens_of vs) @ TEndArray # ts) =
        json_scan stack (EndValue (JArray (rev (v # acc) @ vs))) ts"
      by (rule Cons.IH) (use Cons.prems(1) False in auto)
    then show ?thesis using False first by (simp add: commas_Cons)
  qed
qed simp

lemma scan_members:
  assumes "\<And>k v ms ts. (k, v) \<in> set kvs \<Longrightarrow>
      json_scan (FObject ms k # stack) BeginValue (json_tokens_of v @ ts) = json_scan (FObject ms k # stack) (EndValue v) ts"
    and "kvs \<noteq> []" and "state \<in> {BeginString, BeginStringOrEmpty}"
  shows "json_scan (FObject ms k # stack) state
      (commas (map (\<lambda>(k, v). TValue (JString k) # TColon # json_tokens_of v) kvs) @ TEndObject # ts) =
    json_scan stack (EndValue (JObject (rev ms @ kvs))) ts"
  using assms
proof (induction kvs arbitrary: ms k state)
  case (Cons kv kvs)
  obtain key v where kv: "kv = (key, v)" by (cases kv)
  have first: "json_scan (FObject ms k # stack) state (TValue (JString key) # TColon # json_tokens_of v @ rest) =
      json_scan (FObject ms key # stack) (EndValue v) rest" for rest
    using Cons.prems(1) [of key v ms rest] Cons.prems(3) kv by auto
  show ?case
  proof (cases "kvs = []")
    case True
    then show ?thesis using first kv by simp
  next
    case False
    have "json_scan (FObject ((key, v) # ms) [] # stack) BeginString
        (commas (map (\<lambda>(k, v). TValue (JString k) # TColon # json_tokens_of v) kvs) @ TEndObject # ts) =
        json_scan stack (EndValue (JObject (rev ((key, v) # ms) @ kvs))) ts"
      by (rule Cons.IH) (use Cons.prems(1) False in auto)
    then show ?thesis using False first kv by (simp add: commas_Cons)
  qed
qed simp

lemma depth_elements: "v \<in> set vs \<Longrightarrow> Suc (json_depth v) \<le> json_depth (JArray vs)"
  by (auto simp: Max_ge_iff)

lemma depth_members: "(k, v) \<in> set kvs \<Longrightarrow> Suc (json_depth v) \<le> json_depth (JObject kvs)"
  by (force simp: Max_ge_iff)

lemma scan_value:
  assumes "int (length stack + json_depth v) \<le> maxNestingDepth" and "state \<in> {BeginValue, BeginValueOrEmpty}"
  shows "json_scan stack state (json_tokens_of v @ ts) = json_scan stack (EndValue v) ts"
  using assms
proof (induction v arbitrary: stack state ts rule: json_tokens_of.induct)
  case (1 vs)
  have room: "int (length stack) < maxNestingDepth" using "1.prems"(1) by (simp del: json_depth.simps) (simp)
  show ?case
  proof (cases "vs = []")
    case True
    then show ?thesis using room "1.prems"(2) by auto
  next
    case False
    have step: "json_scan (FArray acc # stack) st (json_tokens_of v @ rest) = json_scan (FArray acc # stack) (EndValue v) rest"
      if "v \<in> set vs" "st \<in> {BeginValue, BeginValueOrEmpty}" for v st acc rest
      using "1.IH" [OF that(1) _ that(2), of "FArray acc # stack" rest] depth_elements [OF that(1)] "1.prems"(1)
      by (simp del: json_depth.simps)
    show ?thesis
      using scan_elements [of vs stack BeginValueOrEmpty "[]", OF step False] room "1.prems"(2) by auto
  qed
next
  case (2 kvs)
  have room: "int (length stack) < maxNestingDepth" using "2.prems"(1) by simp
  show ?case
  proof (cases "kvs = []")
    case True
    then show ?thesis using room "2.prems"(2) by auto
  next
    case False
    have step: "json_scan (FObject ms k # stack) BeginValue (json_tokens_of v @ rest) =
        json_scan (FObject ms k # stack) (EndValue v) rest"
      if "(k, v) \<in> set kvs" for k v ms rest
      using "2.IH" [OF that refl, of "FObject ms k # stack" BeginValue rest] depth_members [OF that] "2.prems"(1)
      by (simp del: json_depth.simps)
    show ?thesis
      using scan_members [of kvs stack BeginStringOrEmpty "[]" "[]", OF step False] room "2.prems"(2) by auto
  qed
qed auto

lemma json_layout_reads:
  assumes "list_all (\<lambda>(w, t). list_all json_space w \<and> plain_token t) l" and "list_all json_space w"
    and "map snd l = json_tokens_of v" and "int (json_depth v) \<le> maxNestingDepth"
  shows "json_parse (layout l @ w) = Some v"
  using layout_tokens [OF assms(1, 2)] scan_value [of "[]" v BeginValue "[]"] assms(3, 4)
  by (simp add: json_parse_def)

end
