(* ===== verification/PodWebhook.thy ===== *)
theory PodWebhook
  imports Resolvers GoJson
begin

text \<open>
  The validating webhook for pods (\<open>internal/webhook/v1\<close>) with its check of the Istio volume
  annotations (\<open>pkg/validation/pod_annotation_validation.go\<close>).  A pod of an application that asks
  for it is admitted only when the one AuthPolicy of the application is ready and, for an automatic
  login, its secret is mounted in the sidecar.

  Reading the cluster and the Git reference of the configuration are parameters.  Log lines are left out, and warnings, which are always empty.
\<close>

section \<open>Pods\<close>

text \<open>A nil map of labels or annotations is \<open>None\<close>.\<close>

record pod =
  pod_name :: string
  pod_namespace :: string
  pod_labels :: "labels option"
  pod_annotations :: "labels option"

definition nil_map :: "labels option \<Rightarrow> labels" where
  "nil_map m = (case m of None \<Rightarrow> [] | Some ls \<Rightarrow> ls)"

section \<open>Constants (pod_webhook.go)\<close>

definition CreatedBySkipNamespaceLabel :: string where
  "CreatedBySkipNamespaceLabel = ''skip.kartverket.no/skip-managed''"

definition CreatedBySkipNamespaceLabelValue :: string where
  "CreatedBySkipNamespaceLabelValue = ''true''"

definition SkiperatorApplicationRefLabel :: string where
  "SkiperatorApplicationRefLabel = ''application.skiperator.no/app-name''"

definition ZtoperatorWebhookAnnotationPrefix :: string where
  "ZtoperatorWebhookAnnotationPrefix = ''ztoperator.kartverket.no/''"

definition ZtoperatorVerifyAnnotationKey :: string where
  "ZtoperatorVerifyAnnotationKey = ZtoperatorWebhookAnnotationPrefix @ ''verify-authpolicy''"

definition ZtoperatorVerifyAnnotationValue :: string where
  "ZtoperatorVerifyAnnotationValue = ''true''"

section \<open>The environment\<close>

datatype namespace_result = NamespaceFound "labels option" | NamespaceNotFound | NamespaceError string

record webhookClient =
  wc_namespace :: "string \<Rightarrow> namespace_result"
  wc_listPolicies :: "string \<Rightarrow> string + authPolicy list"

record annotationEnv =
  ae_gitRef :: string

section \<open>The policy of an application (authpolicy_config.go)\<close>

definition GetAuthPolicyForApplication :: "webhookClient \<Rightarrow> string \<Rightarrow> string \<Rightarrow> string + authPolicy" where
  "GetAuthPolicyForApplication client namespace app =
     (case wc_listPolicies client namespace of
        Inl e \<Rightarrow> Inl (''failed to fetch AuthPolicy resources: '' @ e)
      | Inr items \<Rightarrow>
          (case filter (\<lambda>sc. map_index (ws_matchLabels (spec_selector (ap_spec sc))) ''app'' = app) items of
             [] \<Rightarrow> Inl ''no AuthPolicy resource was found for the corresponding Application''
           | [sc] \<Rightarrow>
               if \<not> st_ready (ap_status sc)
               then Inl ''AuthPolicy resource for Application is not ready'' else Inr sc
           | _ \<Rightarrow> Inl ''multiple AuthPolicy resources found for Application''))"

section \<open>The annotations (pod_annotation_validation.go)\<close>

definition IstioUserVolumeAnnotation :: string where
  "IstioUserVolumeAnnotation = ''sidecar.istio.io/userVolume''"

definition istioUserVolumeMountAnnotation :: string where
  "istioUserVolumeMountAnnotation = ''sidecar.istio.io/userVolumeMount''"

text \<open>A volume with the name of its secret, if it has one, and a mount, with what their JSON sets.\<close>

record istioUserVolume =
  uv_name :: string
  uv_secretName :: "string option"

record istioUserVolumeMount =
  vm_name :: string
  vm_mountPath :: string
  vm_readOnly :: bool

definition set_volume :: "string \<Rightarrow> json \<Rightarrow> istioUserVolume \<Rightarrow> istioUserVolume option" where
  "set_volume field v current =
     (if field = ''name'' then map_option (\<lambda>s. current\<lparr>uv_name := s\<rparr>) (decode_string v (uv_name current))
      else if v = JNull then Some (current\<lparr>uv_secretName := None\<rparr>)
      else map_option (\<lambda>s. current\<lparr>uv_secretName := Some s\<rparr>)
        (decode_struct [''secretName''] (\<lambda>_. decode_string) v
           (case uv_secretName current of None \<Rightarrow> [] | Some s \<Rightarrow> s)))"

definition set_mount :: "string \<Rightarrow> json \<Rightarrow> istioUserVolumeMount \<Rightarrow> istioUserVolumeMount option" where
  "set_mount field v current =
     (if field = ''name'' then map_option (\<lambda>s. current\<lparr>vm_name := s\<rparr>) (decode_string v (vm_name current))
      else if field = ''mountPath'' then map_option (\<lambda>s. current\<lparr>vm_mountPath := s\<rparr>) (decode_string v (vm_mountPath current))
      else map_option (\<lambda>b. current\<lparr>vm_readOnly := b\<rparr>) (decode_bool v (vm_readOnly current)))"

definition unmarshalVolumes :: "string \<Rightarrow> istioUserVolume list option" where
  "unmarshalVolumes text =
     Option.bind (json_parse text) (decode_slice (\<lambda>v.
       decode_struct [''name'', ''secret''] set_volume v \<lparr>uv_name = [], uv_secretName = None\<rparr>))"

definition unmarshalMounts :: "string \<Rightarrow> istioUserVolumeMount list option" where
  "unmarshalMounts text =
     Option.bind (json_parse text) (decode_slice (\<lambda>v.
       decode_struct [''name'', ''mountPath'', ''readonly''] set_mount v \<lparr>vm_name = [], vm_mountPath = [], vm_readOnly = False\<rparr>))"

definition PodAnnotationErrorMessageSuffix :: "annotationEnv \<Rightarrow> string" where
  "PodAnnotationErrorMessageSuffix env =
     ''see https://github.com/kartverket/ztoperator/blob/'' @ ae_gitRef env @
     ''/README.md#-mounting-oauth-credentials-in-the-istio-sidecar on how to do it correctly''"

definition annotation_error :: "annotationEnv \<Rightarrow> string \<Rightarrow> string" where
  "annotation_error env annotation =
     ''the required annotation '' @ CHR 0x27 # annotation @ CHR 0x27 #
     '' is either missing or its content is not properly formatted, '' @ PodAnnotationErrorMessageSuffix env"

definition collectIstioVolumesAndMountsFromPod ::
  "annotationEnv \<Rightarrow> labels \<Rightarrow> string + (istioUserVolume list \<times> istioUserVolumeMount list)" where
  "collectIstioVolumesAndMountsFromPod env annotations =
     (case unmarshalVolumes (map_index annotations IstioUserVolumeAnnotation) of
        None \<Rightarrow> Inl (annotation_error env IstioUserVolumeAnnotation)
      | Some volumes \<Rightarrow>
          (case unmarshalMounts (map_index annotations istioUserVolumeMountAnnotation) of
             None \<Rightarrow> Inl (annotation_error env istioUserVolumeMountAnnotation)
           | Some mounts \<Rightarrow> Inr (volumes, mounts)))"

definition validateSecretVolumeMount ::
  "istioUserVolumeMount list \<Rightarrow> istioUserVolume list \<Rightarrow> string \<Rightarrow> bool" where
  "validateSecretVolumeMount mounts userVolumes expectedSecretName \<longleftrightarrow>
     length mounts \<noteq> 0 \<and>
     list_ex (\<lambda>mount. list_ex (\<lambda>volume. uv_name volume = vm_name mount \<and>
       uv_secretName volume = Some expectedSecretName) userVolumes) mounts"

definition ValidatePodAnnotations :: "annotationEnv \<Rightarrow> pod \<Rightarrow> authPolicy \<Rightarrow> string + unit" where
  "ValidatePodAnnotations env p ap =
     (if \<not> autoLoginEnabled ap then Inr ()
      else res_bind (collectIstioVolumesAndMountsFromPod env (nil_map (pod_annotations p))) (\<lambda>(volumes, mounts).
        let envoySecretVolumeMounts = filter (\<lambda>m. vm_mountPath m = IstioCredentialsDirectory) mounts;
            envoySecretName = EnvoySecretName (ap_name ap)
        in if length envoySecretVolumeMounts = 0 \<or>
              \<not> validateSecretVolumeMount envoySecretVolumeMounts volumes envoySecretName
           then Inl (''secret with name '' @ CHR 0x27 # envoySecretName @ CHR 0x27 #
             '' used by OAuth-EnvoyFilter is not mounted in istio-proxy, '' @ PodAnnotationErrorMessageSuffix env)
           else Inr ()))"

section \<open>The webhook (pod_webhook.go)\<close>

definition pod_text :: "pod \<Rightarrow> string" where
  "pod_text p = ''pod '' @ pod_namespace p @ ''/'' @ pod_name p"

text \<open>The left summand is the reason a pod is not eligible.\<close>

definition IsWebhookEligible :: "webhookClient \<Rightarrow> pod \<Rightarrow> string + unit" where
  "IsWebhookEligible client p =
     (case pod_labels p of
        None \<Rightarrow> Inl (pod_text p @ '' has no labels'')
      | Some ls \<Rightarrow>
          if \<not> map_has ls SkiperatorApplicationRefLabel
          then Inl (pod_text p @ '' is not created from a Skiperator Application'')
          else
            (case pod_annotations p of
               None \<Rightarrow> Inl (pod_text p @ '' has no annotations'')
             | Some as \<Rightarrow>
                 if \<not> list_ex (\<lambda>a. HasPrefix a ZtoperatorWebhookAnnotationPrefix) (map fst as)
                 then Inl (pod_text p @ '' has no Ztoperator webhook annotations'')
                 else
                   (case wc_namespace client (pod_namespace p) of
                      NamespaceNotFound \<Rightarrow> Inl (''namespace '' @ pod_namespace p @ '' not found'')
                    | NamespaceError e \<Rightarrow> Inl (''failed to get namespace '' @ pod_namespace p @ '': '' @ e)
                    | NamespaceFound None \<Rightarrow> Inl (''namespace '' @ pod_namespace p @ '' has no labels'')
                    | NamespaceFound (Some nls) \<Rightarrow>
                        (case map_of nls CreatedBySkipNamespaceLabel of
                           None \<Rightarrow> Inl (''namespace '' @ pod_namespace p @ '' does not have the created by SKIP label'')
                         | Some v \<Rightarrow>
                             if v \<noteq> CreatedBySkipNamespaceLabelValue
                             then Inl (''namespace '' @ pod_namespace p @
                               '' does have the created by SKIP label, but it'' @ CHR 0x27 # ''s value is not '' @
                               CreatedBySkipNamespaceLabelValue)
                             else Inr ()))))"

text \<open>The AuthPolicy of a configuration is the zero value, here \<open>None\<close>, when it was not fetched.\<close>

record podAuthPolicyConfiguration =
  pc_authPolicy :: "authPolicy option"
  pc_appName :: string
  pc_createdFromSkiperatorApplication :: bool

definition not_from_skiperator :: podAuthPolicyConfiguration where
  "not_from_skiperator = \<lparr>pc_authPolicy = None, pc_appName = [], pc_createdFromSkiperatorApplication = False\<rparr>"

definition GetPodAuthPolicyConfiguration ::
  "webhookClient option \<Rightarrow> pod \<Rightarrow> string + podAuthPolicyConfiguration" where
  "GetPodAuthPolicyConfiguration k8sClient p =
     (case pod_labels p of
        None \<Rightarrow> Inr not_from_skiperator
      | Some ls \<Rightarrow>
          (case map_of ls SkiperatorApplicationRefLabel of
             None \<Rightarrow> Inr not_from_skiperator
           | Some appName \<Rightarrow>
               (case k8sClient of
                  None \<Rightarrow> Inl ''webhook client is not configured''
                | Some client \<Rightarrow>
                    if map_of (nil_map (pod_annotations p)) ZtoperatorVerifyAnnotationKey \<noteq> Some ZtoperatorVerifyAnnotationValue
                    then Inr \<lparr>pc_authPolicy = None, pc_appName = appName, pc_createdFromSkiperatorApplication = True\<rparr>
                    else res_bind (GetAuthPolicyForApplication client (pod_namespace p) appName) (\<lambda>ap.
                      Inr \<lparr>pc_authPolicy = Some ap, pc_appName = appName, pc_createdFromSkiperatorApplication = True\<rparr>))))"

text \<open>An admitted pod is \<open>Inr\<close>.  The zero AuthPolicy has no automatic login.\<close>

definition validatePod :: "annotationEnv \<Rightarrow> webhookClient \<Rightarrow> pod \<Rightarrow> string + unit" where
  "validatePod env client p =
     (case IsWebhookEligible client p of
        Inl _ \<Rightarrow> Inr ()
      | Inr _ \<Rightarrow> res_bind (GetPodAuthPolicyConfiguration (Some client) p) (\<lambda>cfg.
          if \<not> pc_createdFromSkiperatorApplication cfg then Inr ()
          else case pc_authPolicy cfg of None \<Rightarrow> Inr () | Some ap \<Rightarrow> ValidatePodAnnotations env p ap))"

definition ValidateCreate :: "annotationEnv \<Rightarrow> webhookClient \<Rightarrow> pod \<Rightarrow> string + unit" where
  "ValidateCreate env client p = validatePod env client p"

definition ValidateUpdate :: "annotationEnv \<Rightarrow> webhookClient \<Rightarrow> pod \<Rightarrow> pod \<Rightarrow> string + unit" where
  "ValidateUpdate env client old new = validatePod env client new"

definition ValidateDelete :: "pod \<Rightarrow> string + unit" where
  "ValidateDelete p = Inr ()"

section \<open>What an admitted pod has\<close>

text \<open>A volume of the secret is mounted where the sidecar reads its credentials.\<close>

definition secret_mounted :: "pod \<Rightarrow> string \<Rightarrow> bool" where
  "secret_mounted p secret \<longleftrightarrow>
     (\<exists>vs ms m v. unmarshalVolumes (map_index (nil_map (pod_annotations p)) IstioUserVolumeAnnotation) = Some vs \<and>
        unmarshalMounts (map_index (nil_map (pod_annotations p)) istioUserVolumeMountAnnotation) = Some ms \<and>
        m \<in> set ms \<and> v \<in> set vs \<and> vm_mountPath m = IstioCredentialsDirectory \<and>
        uv_name v = vm_name m \<and> uv_secretName v = Some secret)"

definition verified :: "pod \<Rightarrow> bool" where
  "verified p \<longleftrightarrow> map_of (nil_map (pod_annotations p)) ZtoperatorVerifyAnnotationKey = Some ZtoperatorVerifyAnnotationValue"

lemma annotations_valid_iff:
  "ValidatePodAnnotations env p ap = Inr () \<longleftrightarrow>
     \<not> autoLoginEnabled ap \<or> secret_mounted p (EnvoySecretName (ap_name ap))"
proof -
  have "length (filter P ms) \<noteq> 0 \<and> validateSecretVolumeMount (filter P ms) vs name \<longleftrightarrow>
      (\<exists>m \<in> set ms. \<exists>v \<in> set vs. P m \<and> uv_name v = vm_name m \<and> uv_secretName v = Some name)" for P ms vs name
    by (auto simp: validateSecretVolumeMount_def list_ex_iff filter_empty_conv)
  then show ?thesis
    by (auto simp: ValidatePodAnnotations_def collectIstioVolumesAndMountsFromPod_def secret_mounted_def
        res_bind_Inr_iff Let_def split: option.splits)
qed

lemma policy_for_application:
  "GetAuthPolicyForApplication client ns app = Inr ap \<longleftrightarrow>
     (\<exists>items. wc_listPolicies client ns = Inr items \<and>
        filter (\<lambda>sc. map_index (ws_matchLabels (spec_selector (ap_spec sc))) ''app'' = app) items = [ap] \<and>
        st_ready (ap_status ap))"
  by (auto simp: GetAuthPolicyForApplication_def split: sum.splits list.splits)

lemma eligible_app:
  "IsWebhookEligible client p = Inr u \<Longrightarrow> \<exists>ls app. pod_labels p = Some ls \<and> map_of ls SkiperatorApplicationRefLabel = Some app"
  by (auto simp: IsWebhookEligible_def map_has_def split: option.splits if_splits)

definition app_policies :: "string \<Rightarrow> authPolicy list \<Rightarrow> authPolicy list" where
  "app_policies app items = filter (\<lambda>sc. map_index (ws_matchLabels (spec_selector (ap_spec sc))) ''app'' = app) items"

lemma validatePod_eligible:
  assumes "IsWebhookEligible client p = Inr ()" and "pod_labels p = Some ls"
    and "map_of ls SkiperatorApplicationRefLabel = Some app"
  shows "validatePod env client p = Inr () \<longleftrightarrow>
    \<not> verified p \<or> (\<exists>ap. GetAuthPolicyForApplication client (pod_namespace p) app = Inr ap \<and>
      ValidatePodAnnotations env p ap = Inr ())"
  using assms
  by (auto simp: validatePod_def GetPodAuthPolicyConfiguration_def verified_def res_bind_Inr_iff)

section \<open>Annotations that are written as documented\<close>

definition volume_json :: "istioUserVolume \<Rightarrow> json" where
  "volume_json v =
     JObject ((''name'', JString (uv_name v)) #
       (case uv_secretName v of None \<Rightarrow> [] | Some s \<Rightarrow> [(''secret'', JObject [(''secretName'', JString s)])]))"

definition mount_json :: "istioUserVolumeMount \<Rightarrow> json" where
  "mount_json m =
     JObject [(''name'', JString (vm_name m)), (''mountPath'', JString (vm_mountPath m)), (''readonly'', JBool (vm_readOnly m))]"

text \<open>A text lists the values when it is any layout of their JSON.\<close>

definition lists_json :: "json list \<Rightarrow> string \<Rightarrow> bool" where
  "lists_json vs s \<longleftrightarrow>
     (\<exists>l w. s = layout l @ w \<and> map snd l = json_tokens_of (JArray vs) \<and>
        list_all (\<lambda>(w, t). list_all json_space w \<and> plain_token t) l \<and> list_all json_space w)"

lemma lists_json_parse:
  assumes "lists_json vs s" and "\<And>v. v \<in> set vs \<Longrightarrow> json_depth v \<le> 2"
  shows "json_parse s = Some (JArray vs)"
proof -
  have "json_depth (JArray vs) \<le> 3" using assms(2) by auto
  then have "int (json_depth (JArray vs)) \<le> maxNestingDepth" by (simp add: maxNestingDepth_def del: json_depth.simps)
  then show ?thesis using assms(1) json_layout_reads unfolding lists_json_def by metis
qed

lemma those_map: "(\<And>x. x \<in> set xs \<Longrightarrow> f (g x) = Some x) \<Longrightarrow> those (map f (map g xs)) = Some xs"
  by (induction xs) auto

lemma volumes_read:
  assumes "lists_json (map volume_json vs) s"
  shows "unmarshalVolumes s = Some vs"
proof -
  have "json_depth (volume_json v) \<le> 2" for v by (cases "uv_secretName v") (simp_all add: volume_json_def)
  then have "json_parse s = Some (JArray (map volume_json vs))" by (intro lists_json_parse [OF assms]) auto
  moreover have "decode_struct [''name'', ''secret''] set_volume (volume_json v) \<lparr>uv_name = [], uv_secretName = None\<rparr> = Some v" for v
    by (cases "uv_secretName v")
      (simp_all add: volume_json_def decode_struct_def json_field_def set_volume_def decode_string_def)
  ultimately show ?thesis by (simp add: unmarshalVolumes_def decode_slice_def those_map del: map_map)
qed

lemma mounts_read:
  assumes "lists_json (map mount_json ms) s"
  shows "unmarshalMounts s = Some ms"
proof -
  have "json_depth (mount_json m) \<le> 2" for m by (simp add: mount_json_def)
  then have "json_parse s = Some (JArray (map mount_json ms))" by (intro lists_json_parse [OF assms]) auto
  moreover have "decode_struct [''name'', ''mountPath'', ''readonly''] set_mount (mount_json m)
      \<lparr>vm_name = [], vm_mountPath = [], vm_readOnly = False\<rparr> = Some m" for m
    by (simp add: mount_json_def decode_struct_def json_field_def set_mount_def decode_string_def decode_bool_def)
  ultimately show ?thesis by (simp add: unmarshalMounts_def decode_slice_def those_map del: map_map)
qed

text \<open>The texts of the README, line by line, for the secret of a policy.\<close>

definition line :: "nat \<Rightarrow> string" where
  "line n = CHR 0x0A # replicate n (CHR '' '')"

definition readme_volumes :: "string \<Rightarrow> (string \<times> json_token) list" where
  "readme_volumes secret =
     [([], TBeginArray), (line 2, TBeginObject),
      (line 4, TValue (JString ''name'')), ([], TColon), ('' '', TValue (JString ''envoy-secret'')), ([], TComma),
      (line 4, TValue (JString ''secret'')), ([], TColon), ('' '', TBeginObject),
      (line 6, TValue (JString ''secretName'')), ([], TColon), ('' '', TValue (JString secret)),
      (line 4, TEndObject), (line 2, TEndObject), (line 0, TEndArray)]"

definition readme_mounts :: "(string \<times> json_token) list" where
  "readme_mounts =
     [([], TBeginArray), (line 2, TBeginObject),
      (line 4, TValue (JString ''name'')), ([], TColon), ('' '', TValue (JString ''envoy-secret'')), ([], TComma),
      (line 4, TValue (JString ''mountPath'')), ([], TColon), ('' '', TValue (JString ''/etc/istio/config'')), ([], TComma),
      (line 4, TValue (JString ''readonly'')), ([], TColon), ('' '', TValue (JBool True)),
      (line 2, TEndObject), (line 0, TEndArray)]"

definition readme_volume :: "string \<Rightarrow> istioUserVolume" where
  "readme_volume secret = \<lparr>uv_name = ''envoy-secret'', uv_secretName = Some secret\<rparr>"

definition readme_mount :: istioUserVolumeMount where
  "readme_mount = \<lparr>vm_name = ''envoy-secret'', vm_mountPath = ''/etc/istio/config'', vm_readOnly = True\<rparr>"

lemma line_space: "list_all json_space (line n)"
  by (simp add: line_def json_space_def list_all_iff)

lemmas readme_defs = readme_volumes_def readme_volume_def readme_mounts_def readme_mount_def volume_json_def mount_json_def

lemma readme_lists:
  shows "plain_text secret \<Longrightarrow> lists_json (map volume_json [readme_volume secret]) (layout (readme_volumes secret) @ line 0)"
    and "lists_json (map mount_json [readme_mount]) (layout readme_mounts @ line 0)"
proof -
  have plain: "plain_text ''name''" "plain_text ''envoy-secret''" "plain_text ''secret''" "plain_text ''secretName''"
    "plain_text ''mountPath''" "plain_text ''/etc/istio/config''" "plain_text ''readonly''" by code_simp+
  have space: "list_all json_space '' ''" by code_simp
  show "lists_json (map volume_json [readme_volume secret]) (layout (readme_volumes secret) @ line 0)" if "plain_text secret"
    unfolding lists_json_def
    by (rule exI, rule exI, intro conjI, rule refl) (use that plain space in \<open>simp_all add: readme_defs plain_token_def line_space\<close>)
  show "lists_json (map mount_json [readme_mount]) (layout readme_mounts @ line 0)"
    unfolding lists_json_def
    by (rule exI, rule exI, intro conjI, rule refl) (use plain space in \<open>simp_all add: readme_defs plain_token_def line_space\<close>)
qed

text \<open>A pod and a cluster in which the example policy is ready.\<close>

definition example_pod :: pod where
  "example_pod = \<lparr>pod_name = ''demo-1'', pod_namespace = ''ns'',
     pod_labels = Some [(SkiperatorApplicationRefLabel, ''demo'')],
     pod_annotations = Some [(ZtoperatorVerifyAnnotationKey, ''true''),
       (IstioUserVolumeAnnotation, layout (readme_volumes ''demo-envoy-secret'') @ line 0),
       (istioUserVolumeMountAnnotation, layout readme_mounts @ line 0)]\<rparr>"

definition ready_policy :: authPolicy where
  "ready_policy = example_policy\<lparr>ap_status := (ap_status example_policy)\<lparr>st_ready := True\<rparr>\<rparr>"

definition example_webhook :: webhookClient where
  "example_webhook = \<lparr>wc_namespace = (\<lambda>n. NamespaceFound (Some [(CreatedBySkipNamespaceLabel, ''true'')])),
     wc_listPolicies = (\<lambda>n. Inr [ready_policy])\<rparr>"

definition example_annotations :: annotationEnv where
  "example_annotations = \<lparr>ae_gitRef = ''main''\<rparr>"

lemma example_eligible: "IsWebhookEligible example_webhook example_pod = Inr ()"
  by code_simp

lemma example_texts:
  "map_index (nil_map (pod_annotations example_pod)) IstioUserVolumeAnnotation =
     layout (readme_volumes ''demo-envoy-secret'') @ line 0"
  "map_index (nil_map (pod_annotations example_pod)) istioUserVolumeMountAnnotation = layout readme_mounts @ line 0"
  by (simp_all add: example_pod_def nil_map_def map_index_def IstioUserVolumeAnnotation_def istioUserVolumeMountAnnotation_def
      ZtoperatorVerifyAnnotationKey_def ZtoperatorWebhookAnnotationPrefix_def)

lemma example_mounted: "secret_mounted example_pod (EnvoySecretName (ap_name ready_policy))"
proof -
  have "plain_text ''demo-envoy-secret''" by code_simp
  with readme_lists have "unmarshalVolumes (layout (readme_volumes ''demo-envoy-secret'') @ line 0) = Some [readme_volume ''demo-envoy-secret'']"
    "unmarshalMounts (layout readme_mounts @ line 0) = Some [readme_mount]"
    using volumes_read mounts_read by blast+
  moreover have "EnvoySecretName (ap_name ready_policy) = ''demo-envoy-secret''" by code_simp
  ultimately show ?thesis
    by (simp add: secret_mounted_def example_texts readme_volume_def readme_mount_def IstioCredentialsDirectory_def)
qed

section \<open>Properties\<close>

text \<open>C22: an eligible pod is admitted exactly when it does not ask for verification, or its application
  has exactly one AuthPolicy in the namespace, which is ready and, when it has the automatic login
  enabled, whose Envoy secret the pod mounts in the sidecar.\<close>

theorem webhook_decision:
  assumes "IsWebhookEligible client p = Inr ()" and "pod_labels p = Some ls"
    and "map_of ls SkiperatorApplicationRefLabel = Some app"
  shows "ValidateCreate env client p = Inr () \<longleftrightarrow>
    (verified p \<longrightarrow> (\<exists>items ap. wc_listPolicies client (pod_namespace p) = Inr items \<and> app_policies app items = [ap] \<and>
      st_ready (ap_status ap) \<and> (autoLoginEnabled ap \<longrightarrow> secret_mounted p (EnvoySecretName (ap_name ap)))))"
  unfolding ValidateCreate_def validatePod_eligible [OF assms] policy_for_application annotations_valid_iff
    app_policies_def by blast

theorem webhook_decision_witness:
  "ValidateCreate example_annotations example_webhook example_pod = Inr () \<and> verified example_pod"
proof -
  have labels: "pod_labels example_pod = Some [(SkiperatorApplicationRefLabel, ''demo'')]" by (simp add: example_pod_def)
  have "wc_listPolicies example_webhook (pod_namespace example_pod) = Inr [ready_policy]"
    by (simp add: example_webhook_def)
  moreover have "app_policies ''demo'' [ready_policy] = [ready_policy]" "st_ready (ap_status ready_policy)" by code_simp+
  moreover have "secret_mounted example_pod (EnvoySecretName (ap_name ready_policy))" by (rule example_mounted)
  ultimately have "ValidateCreate example_annotations example_webhook example_pod = Inr ()"
    using webhook_decision [OF example_eligible labels, of "''demo''" example_annotations] by auto
  then show ?thesis by (simp add: verified_def example_pod_def nil_map_def ZtoperatorVerifyAnnotationValue_def)
qed

text \<open>C24: whatever white space they contain, the two Istio annotations are read back as the volumes and
  the mounts whose JSON they were written from.\<close>

theorem annotations_read_back:
  assumes "lists_json (map volume_json vs) (map_index annotations IstioUserVolumeAnnotation)"
    and "lists_json (map mount_json ms) (map_index annotations istioUserVolumeMountAnnotation)"
  shows "collectIstioVolumesAndMountsFromPod env annotations = Inr (vs, ms)"
  using volumes_read [OF assms(1)] mounts_read [OF assms(2)] by (simp add: collectIstioVolumesAndMountsFromPod_def)

theorem annotations_read_back_witness:
  "collectIstioVolumesAndMountsFromPod example_annotations (nil_map (pod_annotations example_pod)) =
     Inr ([readme_volume ''demo-envoy-secret''], [readme_mount])"
proof (rule annotations_read_back)
  have "plain_text ''demo-envoy-secret''" by code_simp
  then show "lists_json (map volume_json [readme_volume ''demo-envoy-secret''])
      (map_index (nil_map (pod_annotations example_pod)) IstioUserVolumeAnnotation)"
    using readme_lists(1) example_texts by simp
qed (use readme_lists(2) example_texts in simp)

text \<open>C23: a pod whose annotations are written as the README says, in any layout, for the secret of the one
  ready AuthPolicy of its application, is admitted.\<close>

theorem documented_pod_admitted:
  assumes "pod_labels p = Some ls" and "map_of ls SkiperatorApplicationRefLabel = Some app"
    and "wc_listPolicies client (pod_namespace p) = Inr items" and "app_policies app items = [ap]" and "st_ready (ap_status ap)"
    and "lists_json (map volume_json [readme_volume (EnvoySecretName (ap_name ap))])
      (map_index (nil_map (pod_annotations p)) IstioUserVolumeAnnotation)"
    and "lists_json (map mount_json [readme_mount]) (map_index (nil_map (pod_annotations p)) istioUserVolumeMountAnnotation)"
  shows "ValidateCreate env client p = Inr ()"
proof (cases "IsWebhookEligible client p")
  case (Inl e)
  then show ?thesis by (simp add: ValidateCreate_def validatePod_def)
next
  case (Inr u)
  have "secret_mounted p (EnvoySecretName (ap_name ap))"
    using volumes_read [OF assms(6)] mounts_read [OF assms(7)]
    by (simp add: secret_mounted_def readme_volume_def readme_mount_def IstioCredentialsDirectory_def)
  then have "ValidatePodAnnotations env p ap = Inr ()" by (simp add: annotations_valid_iff)
  moreover have "GetAuthPolicyForApplication client (pod_namespace p) app = Inr ap"
    using assms(3-5) by (simp add: policy_for_application app_policies_def)
  ultimately show ?thesis using validatePod_eligible [OF _ assms(1, 2)] Inr by (auto simp: ValidateCreate_def)
qed

theorem documented_pod_admitted_witness:
  "ValidateCreate example_annotations example_webhook (example_pod\<lparr>pod_name := ''demo-2''\<rparr>) = Inr ()"
proof (rule documented_pod_admitted)
  let ?p = "example_pod\<lparr>pod_name := ''demo-2''\<rparr>"
  show "pod_labels ?p = Some [(SkiperatorApplicationRefLabel, ''demo'')]" by (simp add: example_pod_def)
  show "wc_listPolicies example_webhook (pod_namespace ?p) = Inr [ready_policy]" by (simp add: example_webhook_def)
  show "app_policies ''demo'' [ready_policy] = [ready_policy]" "st_ready (ap_status ready_policy)" by code_simp+
  have "plain_text ''demo-envoy-secret''" by code_simp
  moreover have "EnvoySecretName (ap_name ready_policy) = ''demo-envoy-secret''" by code_simp
  ultimately show "lists_json (map volume_json [readme_volume (EnvoySecretName (ap_name ready_policy))])
      (map_index (nil_map (pod_annotations ?p)) IstioUserVolumeAnnotation)"
    using readme_lists(1) example_texts by simp
qed (use readme_lists(2) example_texts in simp_all)

text \<open>When the namespace of a pod cannot be read, the webhook admits the pod without any check.\<close>

lemma webhook_fails_open:
  assumes "wc_namespace client (pod_namespace p) = NamespaceError e"
  shows "ValidateCreate env client p = Inr ()"
  using assms
  by (auto simp: ValidateCreate_def validatePod_def IsWebhookEligible_def split: option.splits if_splits)

end
