(* ===== verification/Pods.thy ===== *)
theory Pods
  imports ControlGuarantees PodWebhook
begin

text \<open>
  The webhook and the operator together: what the secret of a policy is after the operator has worked,
  and that pods which the webhook admits for the policy mount it.
\<close>

section \<open>The secret of a settled policy\<close>

text \<open>When a policy is to have a secret, and the token file that its OAuth credentials give.\<close>

definition secret_wanted :: "authPolicy \<Rightarrow> bool" where
  "secret_wanted ap \<longleftrightarrow> spec_enabled (ap_spec ap) \<and> ValidatePaths (GetPaths ap) = Inr () \<and> autoLoginEnabled ap"

definition token_file :: "'w controllerEnv \<Rightarrow> 'w \<Rightarrow> authPolicy \<Rightarrow> string option" where
  "token_file env w ap =
     (case ResolveOAuthCredentials (ce_reader env w) ap of
        Inl _ \<Rightarrow> None
      | Inr creds \<Rightarrow> Option.bind (cr_clientSecret creds)
          (\<lambda>c. getEnvoySecretDataValue (ce_gen env) ''token'' c ''inline_string''))"

lemma secret_resource_in:
  assumes "ControllerResources env s = Inr rs"
  obtains d where "secret_GetDesired env s
      (buildObjectMeta (alc_envoySecretName (s_autoLoginConfig s)) (ap_namespace (s_authPolicy s))) = Inr d"
    "\<lparr>rr_kind = ''Secret'', rr_name = alc_envoySecretName (s_autoLoginConfig s), rr_desired = map_option SecretObj d,
      rr_shouldUpdate = liftShould asSecret SecretShouldUpdate,
      rr_updateFields = liftUpdate asSecret SecretObj SecretUpdateFields\<rparr> \<in> set rs"
  using assms by (auto simp: ControllerResources_def res_bind_Inr_iff secretResource_def)

lemma secret_token:
  "getEnvoySecret env meta c = Some x \<Longrightarrow>
     map_of (sec_data x) TokenSecretFileName = getEnvoySecretDataValue env ''token'' c ''inline_string''"
  by (auto simp: getEnvoySecret_def bind_eq_Some_conv TokenSecretFileName_def HmacSecretFileName_def)

lemma secret_token_given: "getEnvoySecret env meta c = Some x \<Longrightarrow> map_of (sec_data x) TokenSecretFileName \<noteq> None"
  by (auto simp: getEnvoySecret_def bind_eq_Some_conv TokenSecretFileName_def HmacSecretFileName_def)

lemma scope_credentials:
  assumes "resolveAuthPolicy env w (InitializeStatus ap) = Some (Inr s)"
  shows "ResolveOAuthCredentials (ce_reader env w) ap = Inr (s_oauthCredentials s)"
proof -
  have "ResolveOAuthCredentials (ce_reader env w) (InitializeStatus ap) = ResolveOAuthCredentials (ce_reader env w) ap"
    unfolding ResolveOAuthCredentials_def autoLoginEnabled_def InitializeStatus_fields ..
  with assms show ?thesis
    by (cases "ResolveAudiences (ce_reader env w) (ap_namespace ap) (spec_allowedAudiences (ap_spec ap))")
      (auto simp: resolveAuthPolicy_def bind_eq_Some_conv split: sum.splits)
qed

lemma active_wanted:
  assumes "s_authPolicy s = InitializeStatus ap"
  shows "autoLoginActive (validateAuthPolicy s) \<longleftrightarrow> secret_wanted ap"
  using assms same_spec(1) [of "InitializeStatus ap" ap]
  by (auto simp: autoLoginActive_def secret_wanted_def validateAuthPolicy_def autoLoginEnabled_def split: sum.splits option.splits)

context cluster
begin

text \<open>A settled policy has the secret it is to have, and controls no other object in its place.\<close>

lemma settled_secret:
  assumes "policy_settled env v RB w ap" and "keys_ok v w" and "secrets_built env RB"
    and "k = secret_key (ap_namespace ap) (EnvoySecretName (ap_name ap))"
  shows "if secret_wanted ap
    then \<exists>x. cv_objects v w k = Some (SecretObj x) \<and> c_isControlledBy (ce_client env) (SecretObj x) ap \<and>
      map_of (sec_data x) TokenSecretFileName = token_file env w ap \<and> token_file env w ap \<noteq> None
    else uncontrolled (c_isControlledBy (ce_client env)) (cv_objects v w k) ap"
proof -
  let ?ctl = "c_isControlledBy (ce_client env)"
  obtain rb s rs where rb: "rb \<in> RB" and s: "resolveAuthPolicy env w (InitializeStatus ap) = Some (Inr s)"
    and rs: "ControllerResources ((ce_gen env)\<lparr>ge_run := rb\<rparr>) (validateAuthPolicy s) = Inr rs"
    and st: "list_all (settled_in ?ctl (cv_objects v w) (validateAuthPolicy s)) rs"
    using assms(1) unfolding policy_settled_def by blast
  let ?s = "validateAuthPolicy s" and ?env = "(ce_gen env)\<lparr>ge_run := rb\<rparr>"
  let ?meta = "buildObjectMeta (alc_envoySecretName (s_autoLoginConfig ?s)) (ap_namespace (s_authPolicy ?s))"
  note facts = resolved_scope_facts(1, 2) [OF s]
  have ctl: "?ctl o' (s_authPolicy s) = ?ctl o' ap" for o' using controlled_core [of ap "s_authPolicy s"] facts(1) by simp
  obtain d where d: "secret_GetDesired ?env ?s ?meta = Inr d"
    and r: "\<lparr>rr_kind = ''Secret'', rr_name = alc_envoySecretName (s_autoLoginConfig ?s), rr_desired = map_option SecretObj d,
      rr_shouldUpdate = liftShould asSecret SecretShouldUpdate, rr_updateFields = liftUpdate asSecret SecretObj SecretUpdateFields\<rparr> \<in> set rs"
    (is "?r \<in> _")
    by (rule secret_resource_in [OF rs])
  have "resource_key ?s ?r = k"
    using facts assms(4) by (simp add: resource_key_def secret_key_def secret_named_def)
  moreover have "settled_in ?ctl (cv_objects v w) ?s ?r" using st r by (simp add: list_all_iff)
  ultimately have settled: "case (cv_objects v w k, d) of
      (None, None) \<Rightarrow> True | (Some cur, None) \<Rightarrow> \<not> ?ctl cur ap | (None, Some d) \<Rightarrow> False
    | (Some cur, Some d) \<Rightarrow> ?ctl cur ap \<and> carries cur (SecretObj d)"
    by (auto simp: settled_in_def ctl split: option.splits)
  show ?thesis
  proof (cases "secret_wanted ap")
    case True
    then obtain c where c: "cr_clientSecret (s_oauthCredentials s) = Some c" "getEnvoySecret ?env ?meta c = d"
      using d active_wanted facts(1) by (auto simp: secret_GetDesired_def split: option.splits if_splits)
    obtain x where x: "d = Some x"
      using getEnvoySecret_total [of ?env ?meta c] assms(3) rb c(2) by (auto simp: secrets_built_def)
    with settled obtain cur where cur: "cv_objects v w k = Some cur" "?ctl cur ap"
      "carries cur (SecretObj x)"
      by (auto split: option.splits)
    have "obj_key cur = k" using assms(2) cur(1) unfolding keys_ok_def by blast
    then obtain y where y: "cur = SecretObj y" using secret_kind assms(4) by blast
    have "map_of (sec_data x) TokenSecretFileName = token_file env w ap"
      using secret_token [OF c(2) [unfolded x]] c(1)
      by (simp add: token_file_def scope_credentials [OF s] getEnvoySecretDataValue_def)
    moreover have "map_of (sec_data x) TokenSecretFileName \<noteq> None"
      using secret_token_given [OF c(2) [unfolded x]] .
    ultimately show ?thesis using cur y True by auto
  next
    case False
    then have "d = None" using d active_wanted facts(1) by (auto simp: secret_GetDesired_def split: if_splits)
    then show ?thesis using settled False by (auto simp: uncontrolled_def split: option.splits)
  qed
qed

end

section \<open>Properties\<close>

text \<open>The policies that the webhook reads are those of the cluster, up to labels and status, in which
  its cache may lag behind.\<close>

definition lists_cluster :: "webhookClient \<Rightarrow> 'w clusterView \<Rightarrow> 'w \<Rightarrow> string \<Rightarrow> bool" where
  "lists_cluster client v w ns \<longleftrightarrow>
     (\<forall>items ap. wc_listPolicies client ns = Inr items \<longrightarrow> ap \<in> set items \<longrightarrow>
        (\<exists>cur. cv_policies v w ns (ap_name ap) = Some cur \<and> core cur = core ap))"

lemma wanted_core: "core a = core b \<Longrightarrow> secret_wanted a = secret_wanted b"
  using core_eqD(6) [of a b] same_spec(1) [of a b] by (simp add: secret_wanted_def autoLoginEnabled_def)

lemma token_core:
  assumes "core a = core b"
  shows "token_file env w a = token_file env w b"
proof -
  note eq = core_eqD [OF assms]
  have "ResolveOAuthCredentials rd a = ResolveOAuthCredentials rd b" for rd
    unfolding ResolveOAuthCredentials_def autoLoginEnabled_def eq ..
  then show ?thesis by (simp add: token_file_def)
qed

lemma verified_policy:
  assumes "IsWebhookEligible client p = Inr ()" and "pod_labels p = Some ls"
    and "map_of ls SkiperatorApplicationRefLabel = Some app" and "verified p" and "ValidateCreate env client p = Inr ()"
  obtains items ap where "wc_listPolicies client (pod_namespace p) = Inr items" "app_policies app items = [ap]"
    "st_ready (ap_status ap)" "autoLoginEnabled ap \<longrightarrow> secret_mounted p (EnvoySecretName (ap_name ap))"
  using assms(4, 5) unfolding ValidateCreate_def validatePod_eligible [OF assms(1-3)] policy_for_application annotations_valid_iff
    app_policies_def by blast

lemma unqueued_secret:
  assumes "cluster env v" and "(orderly_step env v RB)\<^sup>*\<^sup>* st st'" and "world_ok env v (os_world st)" and "all_queued v st"
    and "secrets_built env RB" and "cv_policies v (os_world st') ns (ap_name ap) = Some cur" and "core cur = core ap"
    and "ap_deletionTimestamp ap = None" and "\<lparr>nn_namespace = ns, nn_name = ap_name ap\<rparr> \<notin> os_queue st'"
    and "k = secret_key ns (EnvoySecretName (ap_name ap))"
  shows "if secret_wanted ap
    then \<exists>x. cv_objects v (os_world st') k = Some (SecretObj x) \<and> c_isControlledBy (ce_client env) (SecretObj x) ap \<and>
      map_of (sec_data x) TokenSecretFileName = token_file env (os_world st') ap \<and> token_file env (os_world st') ap \<noteq> None
    else uncontrolled (c_isControlledBy (ce_client env)) (cv_objects v (os_world st') k) ap"
proof -
  note eq = core_eqD [OF assms(7)] and key = cluster.policy_key [OF assms(1, 6)]
  note keeps = cluster.control_run_keeps [OF assms(1-3) all_queued_settled [OF assms(4)]]
  have "policy_settled env v RB (os_world st') cur"
    using keeps assms(6, 8, 9) eq unfolding unqueued_settled_def by metis
  moreover have "keys_ok v (os_world st')" using keeps by (simp add: world_ok_def)
  ultimately have "if secret_wanted cur
    then \<exists>x. cv_objects v (os_world st') k = Some (SecretObj x) \<and> c_isControlledBy (ce_client env) (SecretObj x) cur \<and>
      map_of (sec_data x) TokenSecretFileName = token_file env (os_world st') cur \<and> token_file env (os_world st') cur \<noteq> None
    else uncontrolled (c_isControlledBy (ce_client env)) (cv_objects v (os_world st') k) cur"
    using cluster.settled_secret [OF assms(1) _ _ assms(5)] assms(10) key eq(1) by metis
  then show ?thesis
    by (cases "secret_wanted ap")
      (simp_all add: uncontrolled_def cluster.controlled_core [OF assms(1, 7)] wanted_core [OF assms(7)] token_core [OF assms(7)])
qed

text \<open>The webhook looks at the automatic login only.  With a disabled policy it still asks for the mounted
  secret, which the operator has removed.\<close>

lemma disabled_policy_demands_secret:
  assumes "cluster env v" and "(orderly_step env v RB)\<^sup>*\<^sup>* st st'" and "world_ok env v (os_world st)" and "all_queued v st"
    and "secrets_built env RB" and "cv_policies v (os_world st') ns (ap_name ap) = Some ap"
    and "ap_deletionTimestamp ap = None" and "\<lparr>nn_namespace = ns, nn_name = ap_name ap\<rparr> \<notin> os_queue st'"
    and "\<not> spec_enabled (ap_spec ap)" and "autoLoginEnabled ap" and "ValidatePodAnnotations ann p ap = Inr ()"
  shows "secret_mounted p (EnvoySecretName (ap_name ap)) \<and>
    uncontrolled (c_isControlledBy (ce_client env))
      (cv_objects v (os_world st') (secret_key ns (EnvoySecretName (ap_name ap)))) ap"
  using unqueued_secret [OF assms(1-6) refl assms(7, 8) refl] assms(9-11)
  by (simp add: annotations_valid_iff secret_wanted_def)

text \<open>C5: in every state that a freshly started operator reaches among orderly changes by others, when
  secrets can be built and the webhook lists the policies of the cluster, a pod that the webhook
  admits with verification for an idle, enabled and valid policy with automatic login mounts a secret
  that the cluster stores, that the policy controls, and whose token file is made from the client
  secret of the policy's OAuth credentials.\<close>

theorem admitted_pod_has_secret:
  assumes "cluster env v" and "(orderly_step env v RB)\<^sup>*\<^sup>* st st'" and "world_ok env v (os_world st)" and "all_queued v st"
    and "secrets_built env RB" and "lists_cluster client v (os_world st') (pod_namespace p)"
    and "IsWebhookEligible client p = Inr ()" and "pod_labels p = Some ls"
    and "map_of ls SkiperatorApplicationRefLabel = Some app" and "verified p" and "ValidateCreate ann client p = Inr ()"
    and "wc_listPolicies client (pod_namespace p) = Inr items" and "ap \<in> set (app_policies app items)"
    and "secret_wanted ap" and "ap_deletionTimestamp ap = None"
    and "\<lparr>nn_namespace = pod_namespace p, nn_name = ap_name ap\<rparr> \<notin> os_queue st'"
  shows "\<exists>name x. secret_mounted p name \<and>
    cv_objects v (os_world st') (secret_key (pod_namespace p) name) = Some (SecretObj x) \<and>
    c_isControlledBy (ce_client env) (SecretObj x) ap \<and>
    map_of (sec_data x) TokenSecretFileName = token_file env (os_world st') ap \<and> token_file env (os_world st') ap \<noteq> None"
proof -
  have "ap \<in> set items" using assms(13) by (simp add: app_policies_def)
  then obtain cur where cur: "cv_policies v (os_world st') (pod_namespace p) (ap_name ap) = Some cur" "core cur = core ap"
    using assms(6, 12) unfolding lists_cluster_def by blast
  obtain items' ap' where "wc_listPolicies client (pod_namespace p) = Inr items'" "app_policies app items' = [ap']"
    "st_ready (ap_status ap')" "autoLoginEnabled ap' \<longrightarrow> secret_mounted p (EnvoySecretName (ap_name ap'))"
    by (rule verified_policy [OF assms(7-11)])
  then have "secret_mounted p (EnvoySecretName (ap_name ap))"
    using assms(12-14) by (simp add: secret_wanted_def)
  then show ?thesis using unqueued_secret [OF assms(1-5) cur assms(15, 16)] assms(14) by auto
qed

theorem admitted_pod_has_secret_witness:
  "\<exists>st' name x. (orderly_step store_controller state_view start_random)\<^sup>*\<^sup>* start_state st' \<and>
     secret_mounted example_pod name \<and>
     cv_objects state_view (os_world st') (secret_key ''ns'' name) = Some (SecretObj x) \<and>
     map_of (sec_data x) TokenSecretFileName = token_file store_controller (os_world st') ready_policy"
proof -
  obtain k st' where run: "os_queue st' = {}" "(orderly_step store_controller state_view start_random)\<^sup>*\<^sup>* start_state st'"
    "\<exists>ap. cv_policies state_view (os_world st') ''ns'' ''demo'' = Some ap \<and> core ap = core example_policy"
    by (rule start_drained)
  have facts: "core ready_policy = core example_policy" "ap_name ready_policy = ''demo''" "pod_namespace example_pod = ''ns''"
    "ap_deletionTimestamp ready_policy = None"
    by (simp_all add: ready_policy_def core_def example_policy_def example_pod_def)
  then have lists: "lists_cluster example_webhook state_view (os_world st') (pod_namespace example_pod)"
    using run(3) by (auto simp: lists_cluster_def example_webhook_def)
  have pod: "pod_labels example_pod = Some [(SkiperatorApplicationRefLabel, ''demo'')]" by (simp add: example_pod_def)
  have checks: "verified example_pod" "ValidateCreate example_annotations example_webhook example_pod = Inr ()"
    "ready_policy \<in> set (app_policies ''demo'' [ready_policy])" "secret_wanted ready_policy" by code_simp+
  have items: "wc_listPolicies example_webhook (pod_namespace example_pod) = Inr [ready_policy]" by (simp add: example_webhook_def)
  show ?thesis
    using admitted_pod_has_secret [OF store_cluster run(2) start_world_ok start_queued start_secrets_built lists example_eligible pod _
        checks(1, 2) items checks(3, 4) facts(4)] run(1, 2) facts(3) by auto
qed

end
