(* ===== verification/CopyHeap.thy ===== *)
theory CopyHeap
  imports Examples
begin

text \<open>
  The Go heap under an AuthPolicy, and the ways in which generated code copies a pointer, a slice or a
  map.  Structs with pointers are records with addresses here; a relation says which value of
  \<open>AuthPolicyTypes\<close> such a record stands for.  The contract of every copy function is the locale
  \<open>copyable\<close>: the copy stands for the same value, and only for that it uses cells that are new.
\<close>

section \<open>The heap\<close>

type_synonym addr = nat

text \<open>A slice shares its array with others; a nil slice is \<open>None\<close>.\<close>

record goSlice =
  gs_array :: addr
  gs_offset :: nat
  gs_len :: nat

record goValueFrom =
  gvf_configMapKeyRef :: "addr option"
  gvf_secretKeyRef :: "addr option"

record goAllowedAudience =
  gaa_value :: "addr option"
  gaa_valueFrom :: "addr option"

record goAutoLogin =
  gal_enabled :: bool
  gal_loginPath :: "addr option"
  gal_redirectPath :: "addr option"
  gal_logoutPath :: "addr option"
  gal_postLogoutRedirectURI :: "addr option"
  gal_scopes :: "goSlice option"
  gal_loginParams :: "addr option"

record goWorkloadSelector =
  gws_matchLabels :: "addr option"

record goCondition =
  gcond_claim :: string
  gcond_values :: "goSlice option"

record goBaselineAuth =
  gba_claims :: "goSlice option"

record goRequestMatcher =
  grm_paths :: "goSlice option"
  grm_methods :: "goSlice option"

record goRequestAuthRule =
  grar_matcher :: goRequestMatcher
  grar_when :: "addr option"
  grar_denyRedirect :: "addr option"

record goAuthPolicySpec =
  gsp_enabled :: bool
  gsp_autoLogin :: "addr option"
  gsp_oauthCredentials :: "addr option"
  gsp_wellKnownURI :: string
  gsp_allowedAudiences :: "goSlice option"
  gsp_forwardJwt :: "addr option"
  gsp_outputClaimToHeaders :: "addr option"
  gsp_acceptedResources :: "addr option"
  gsp_baselineAuth :: "addr option"
  gsp_authRules :: "addr option"
  gsp_ignoreAuthRules :: "addr option"
  gsp_selector :: goWorkloadSelector

record goAuthPolicyStatus =
  gst_observedGeneration :: int
  gst_conditions :: "goSlice option"
  gst_phase :: "phase option"
  gst_message :: string
  gst_ready :: bool

text \<open>Of the metadata, what the operator reads.\<close>

record goObjectMeta =
  gom_name :: string
  gom_namespace :: string
  gom_uid :: string
  gom_generation :: int
  gom_labels :: "addr option"
  gom_deletionTimestamp :: "addr option"

record goAuthPolicy =
  gap_kind :: string
  gap_meta :: goObjectMeta
  gap_spec :: goAuthPolicySpec
  gap_status :: goAuthPolicyStatus

record goListMeta =
  glm_resourceVersion :: string
  glm_continue :: string
  glm_remainingItemCount :: "addr option"

record goAuthPolicyList =
  gpl_kind :: string
  gpl_meta :: goListMeta
  gpl_items :: "goSlice option"

text \<open>What a pointer points to or an array holds; \<open>OZero\<close> is what \<open>new\<close> and \<open>make\<close> leave there.\<close>

datatype object =
    OZero
  | OString string
  | OBool bool
  | OInt int
  | OTime nat
  | OSlice "goSlice option"
  | OKeyRef keyRef
  | OValueFrom goValueFrom
  | OAllowedAudience goAllowedAudience
  | OAutoLogin goAutoLogin
  | OOAuthCredentials oauthCredentialsRef
  | OWorkloadSelector goWorkloadSelector
  | OClaimToHeader claimToHeader
  | OCondition goCondition
  | OBaselineAuth goBaselineAuth
  | ORequestMatcher goRequestMatcher
  | ORequestAuthRule goRequestAuthRule
  | OStatusCondition statusCondition
  | OAuthPolicySpec goAuthPolicySpec
  | OAuthPolicyStatus goAuthPolicyStatus
  | OAuthPolicy goAuthPolicy
  | OAuthPolicyList goAuthPolicyList

datatype cell = Obj object | Arr "object list" | MapCell labels

type_synonym heap = "cell list"

definition cell_at :: "heap \<Rightarrow> addr \<Rightarrow> cell option" where
  "cell_at h a = (if a < length h then Some (h ! a) else None)"

lemma cell_at_append [simp]:
  "a < length h \<Longrightarrow> cell_at (h @ cs) a = cell_at h a" "cell_at (h @ c # cs) (length h) = Some c"
  by (simp_all add: cell_at_def nth_append)

lemma cell_at_Some: "cell_at h a = Some c \<Longrightarrow> a < length h"
  by (simp add: cell_at_def split: if_splits)

text \<open>The heap \<open>h'\<close> has the cells that \<open>h\<close> has at the addresses of \<open>S\<close>.\<close>

definition agrees :: "addr set \<Rightarrow> heap \<Rightarrow> heap \<Rightarrow> bool" where
  "agrees S h h' \<longleftrightarrow> (\<forall>a \<in> S. \<forall>c. cell_at h a = Some c \<longrightarrow> cell_at h' a = Some c)"

lemma agrees_append [simp]: "agrees S h (h @ cs)"
  unfolding agrees_def by (metis cell_at_Some cell_at_append(1))

lemma agrees_set: "b \<notin> S \<Longrightarrow> agrees S h (h[b := c])"
  unfolding agrees_def cell_at_def by (metis length_list_update nth_list_update_neq)

section \<open>Copying\<close>

type_synonym 'g copier = "'g \<Rightarrow> heap \<Rightarrow> ('g \<times> heap) option"

text \<open>A copy function runs where another has left the heap; a dangling address has no result.\<close>

definition copying :: "'g copier \<Rightarrow> 'g \<Rightarrow> heap \<Rightarrow> ('g \<Rightarrow> heap \<Rightarrow> 'r option) \<Rightarrow> 'r option" where
  "copying c x h k = Option.bind (c x h) (\<lambda>(y, h'). k y h')"

text \<open>\<open>*out = *in\<close> for a value without pointers.\<close>

definition copy_plain :: "'g copier" where
  "copy_plain x h = Some (x, h)"

text \<open>\<open>if in.F != nil { *out = new(T); ... }\<close>\<close>

definition copy_ptr :: "('g \<Rightarrow> object) \<Rightarrow> (object \<Rightarrow> 'g option) \<Rightarrow> 'g copier \<Rightarrow> addr option copier" where
  "copy_ptr box unbox c p h =
     (case p of
        None \<Rightarrow> Some (None, h)
      | Some a \<Rightarrow>
          (case cell_at h a of
             Some (Obj x) \<Rightarrow> Option.bind (unbox x) (\<lambda>g.
               copying c g (h @ [Obj OZero]) (\<lambda>g' h'. Some (Some (length h), h'[length h := Obj (box g')])))
           | _ \<Rightarrow> None))"

text \<open>\<open>if in.F != nil { *out = make([]T, len(*in)); for i := range *in ... }\<close>\<close>

definition write_elem :: "addr \<Rightarrow> nat \<Rightarrow> object \<Rightarrow> heap \<Rightarrow> heap" where
  "write_elem b i x h = (case cell_at h b of Some (Arr xs) \<Rightarrow> h[b := Arr (xs[i := x])] | _ \<Rightarrow> h)"

fun copy_elems ::
  "('g \<Rightarrow> object) \<Rightarrow> (object \<Rightarrow> 'g option) \<Rightarrow> 'g copier \<Rightarrow> addr \<Rightarrow> nat \<Rightarrow> object list \<Rightarrow> heap \<Rightarrow> heap option" where
  "copy_elems box unbox c b i [] h = Some h"
| "copy_elems box unbox c b i (x # xs) h =
     Option.bind (unbox x) (\<lambda>g. copying c g h (\<lambda>g' h'.
       copy_elems box unbox c b (Suc i) xs (write_elem b i (box g') h')))"

definition slice_objects :: "heap \<Rightarrow> goSlice \<Rightarrow> object list option" where
  "slice_objects h s =
     (case cell_at h (gs_array s) of
        Some (Arr xs) \<Rightarrow> if gs_offset s + gs_len s \<le> length xs
          then Some (take (gs_len s) (drop (gs_offset s) xs)) else None
      | _ \<Rightarrow> None)"

definition copy_slice :: "('g \<Rightarrow> object) \<Rightarrow> (object \<Rightarrow> 'g option) \<Rightarrow> 'g copier \<Rightarrow> goSlice option copier" where
  "copy_slice box unbox c s h =
     (case s of
        None \<Rightarrow> Some (None, h)
      | Some s \<Rightarrow> Option.bind (slice_objects h s) (\<lambda>xs.
          Option.bind (copy_elems box unbox c (length h) 0 xs (h @ [Arr (replicate (gs_len s) OZero)]))
            (\<lambda>h'. Some (Some \<lparr>gs_array = length h, gs_offset = 0, gs_len = gs_len s\<rparr>, h'))))"

text \<open>\<open>if in.F != nil { *out = make(map[string]string, len(*in)); for key, val := range *in ... }\<close>\<close>

definition copy_map :: "addr option copier" where
  "copy_map p h =
     (case p of
        None \<Rightarrow> Some (None, h)
      | Some a \<Rightarrow>
          (case cell_at h a of
             Some (MapCell m) \<Rightarrow>
               Some (Some (length h), h @ [MapCell (fold (\<lambda>(key, val). AList.update key val) m [])])
           | _ \<Rightarrow> None))"

section \<open>What addresses stand for\<close>

text \<open>The relations take the addresses that they may use.\<close>

type_synonym ('g, 'v) stands = "addr set \<Rightarrow> heap \<Rightarrow> 'g \<Rightarrow> 'v \<Rightarrow> bool"

definition stands_plain :: "('g, 'g) stands" where
  "stands_plain S h g v \<longleftrightarrow> g = v"

definition stands_ptr :: "(object \<Rightarrow> 'g option) \<Rightarrow> ('g, 'v) stands \<Rightarrow> (addr option, 'v option) stands" where
  "stands_ptr unbox r S h p v \<longleftrightarrow>
     (case p of
        None \<Rightarrow> v = None
      | Some a \<Rightarrow> a \<in> S \<and> (\<exists>x g w. cell_at h a = Some (Obj x) \<and> unbox x = Some g \<and> v = Some w \<and> r S h g w))"

definition stands_slice :: "(object \<Rightarrow> 'g option) \<Rightarrow> ('g, 'v) stands \<Rightarrow> (goSlice option, 'v list) stands" where
  "stands_slice unbox r S h s vs \<longleftrightarrow>
     (case s of
        None \<Rightarrow> vs = []
      | Some s \<Rightarrow> gs_array s \<in> S \<and> (\<exists>xs. slice_objects h s = Some xs \<and>
          list_all2 (\<lambda>x v. \<exists>g. unbox x = Some g \<and> r S h g v) xs vs))"

definition stands_map :: "(addr option, labels) stands" where
  "stands_map S h p m \<longleftrightarrow>
     (case p of
        None \<Rightarrow> m = []
      | Some a \<Rightarrow> a \<in> S \<and> cell_at h a = Some (MapCell m) \<and> wf_map m)"

section \<open>The contract\<close>

text \<open>A computation that starts from \<open>h\<close> only adds cells, and its result is as it should be.\<close>

definition yields :: "(heap \<Rightarrow> 'g \<Rightarrow> bool) \<Rightarrow> heap \<Rightarrow> ('g \<times> heap) option \<Rightarrow> bool" where
  "yields R h m \<longleftrightarrow> (\<exists>g cs. m = Some (g, h @ cs) \<and> R (h @ cs) g)"

locale copyable =
  fixes stands :: "('g, 'v) stands" and copy :: "'g copier"
  assumes frame: "stands S h g v \<Longrightarrow> S \<subseteq> T \<Longrightarrow> agrees S h h' \<Longrightarrow> stands T h' g v"
    and copies: "stands {..<length h} h g v \<Longrightarrow>
      \<exists>g' cs. copy g h = Some (g', h @ cs) \<and> stands {length h..} (h @ cs) g' v"
begin

lemma copies_on:
  assumes "stands {..<length h} h g v"
  obtains g' es where "copy g (h @ cs) = Some (g', (h @ cs) @ es)" "stands {length (h @ cs)..} ((h @ cs) @ es) g' v"
proof -
  have "stands {..<length (h @ cs)} (h @ cs) g v" by (rule frame [OF assms]) auto
  from copies [OF this] that show thesis by blast
qed

text \<open>One field of a struct: it is copied, and stays what it is while the rest is copied.\<close>

lemma copy_field:
  assumes "stands {..<length h} h x v"
    and "\<And>x' es. stands {length h..} (h @ cs @ es) x' v \<Longrightarrow> (\<And>more. stands {length h..} (h @ cs @ es @ more) x' v) \<Longrightarrow>
      yields R (h @ (cs @ es)) (k x' (h @ (cs @ es)))"
  shows "yields R (h @ cs) (copying copy x (h @ cs) k)"
proof -
  obtain x' es where x': "copy x (h @ cs) = Some (x', (h @ cs) @ es)" "stands {length (h @ cs)..} ((h @ cs) @ es) x' v"
    by (rule copies_on [OF assms(1)])
  have kept: "stands {length h..} (h @ cs @ es @ more) x' v" for more
    by (rule frame [OF x'(2)]) (auto simp flip: append_assoc)
  from assms(2) [OF _ kept] kept [of "[]"] x'(1) show ?thesis by (fastforce simp: copying_def yields_def)
qed

end

lemma copyableI:
  assumes "\<And>S h g v T h'. stands S h g v \<Longrightarrow> S \<subseteq> T \<Longrightarrow> agrees S h h' \<Longrightarrow> stands T h' g v"
    and "\<And>h g v. stands {..<length h} h g v \<Longrightarrow>
      yields (\<lambda>h' g'. stands {length h..} h' g' v) (h @ []) (copy g (h @ []))"
  shows "copyable stands copy"
  by (rule copyable.intro) (use assms in \<open>auto simp: yields_def\<close>)

lemma yields_copied: "R (h @ cs) g \<Longrightarrow> yields R (h @ cs) (Some (g, h @ cs))"
  by (auto simp: yields_def)

interpretation plain: copyable stands_plain copy_plain
  by unfold_locales (auto simp: stands_plain_def copy_plain_def)

interpretation go_map: copyable stands_map copy_map
proof
  show "stands_map T h' p m" if "stands_map S h p m" "S \<subseteq> T" "agrees S h h'" for S h p m T h'
    using that by (auto simp: stands_map_def agrees_def split: option.splits)
  have "fold (\<lambda>(key, val). AList.update key val) m acc = acc @ m" if "distinct (map fst (acc @ m))" for m acc :: labels
    using that
  proof (induction m arbitrary: acc)
    case (Cons p m)
    have "AList.update k v acc = acc @ [(k, v)]" if "k \<notin> fst ` set acc" for k v
      using that by (induction acc) auto
    then show ?case using Cons.IH [of "acc @ [p]"] Cons.prems by (cases p) auto
  qed simp
  note whole = this [of "[]"]
  show "\<exists>p' cs. copy_map p h = Some (p', h @ cs) \<and> stands_map {length h..} (h @ cs) p' m"
    if "stands_map {..<length h} h p m" for h p m
  proof (cases p)
    case (Some a)
    then show ?thesis
      using that whole [of m] by (intro exI [of _ "Some (length h)"] exI [of _ "[MapCell m]"])
        (simp add: stands_map_def copy_map_def wf_map_def)
  qed (use that in \<open>simp add: stands_map_def copy_map_def\<close>)
qed

text \<open>Pointers and slices of what can be copied.\<close>

locale boxed = copyable stands copy
  for stands :: "('g, 'v) stands" and copy :: "'g copier" +
  fixes box :: "'g \<Rightarrow> object" and unbox :: "object \<Rightarrow> 'g option"
  assumes unbox_box: "unbox (box g) = Some g"
begin

lemma ptr_frame:
  assumes "stands_ptr unbox stands S h p v" and "S \<subseteq> T" and "agrees S h h'"
  shows "stands_ptr unbox stands T h' p v"
proof (cases p)
  case (Some a)
  then obtain x g w where a: "a \<in> S" "cell_at h a = Some (Obj x)" "unbox x = Some g" "v = Some w" "stands S h g w"
    using assms(1) by (auto simp: stands_ptr_def)
  have "cell_at h' a = Some (Obj x)" using a(1, 2) assms(3) unfolding agrees_def by blast
  moreover have "stands T h' g w" by (rule frame [OF a(5) assms(2, 3)])
  ultimately show ?thesis using Some a assms(2) by (auto simp: stands_ptr_def)
qed (use assms(1) in \<open>simp add: stands_ptr_def\<close>)

lemma ptr_copies:
  assumes "stands_ptr unbox stands {..<length h} h p v"
  shows "\<exists>p' cs. copy_ptr box unbox copy p h = Some (p', h @ cs) \<and> stands_ptr unbox stands {length h..} (h @ cs) p' v"
proof (cases p)
  case None
  then show ?thesis using assms by (simp add: stands_ptr_def copy_ptr_def)
next
  case (Some a)
  then obtain x g w where a: "cell_at h a = Some (Obj x)" "unbox x = Some g" "v = Some w" "stands {..<length h} h g w"
    using assms by (auto simp: stands_ptr_def)
  obtain g' es where g': "copy g (h @ [Obj OZero]) = Some (g', (h @ [Obj OZero]) @ es)"
    "stands {length (h @ [Obj OZero])..} ((h @ [Obj OZero]) @ es) g' w"
    by (rule copies_on [OF a(4)])
  let ?h = "h @ Obj (box g') # es"
  have upd: "((h @ [Obj OZero]) @ es)[length h := Obj (box g')] = ?h" by simp
  have "stands {length h..} ?h g' w"
    by (rule frame [OF g'(2)]) (use agrees_set [of "length h" "{length (h @ [Obj OZero])..}" "(h @ [Obj OZero]) @ es"] upd in auto)
  then show ?thesis
    using a(1-3) g'(1) Some upd by (simp add: copy_ptr_def copying_def stands_ptr_def unbox_box)
qed

lemma slice_objects_agrees:
  "slice_objects h s = Some xs \<Longrightarrow> gs_array s \<in> S \<Longrightarrow> agrees S h h' \<Longrightarrow> slice_objects h' s = Some xs"
  by (auto simp: slice_objects_def agrees_def split: option.splits cell.splits)

lemma slice_frame:
  assumes "stands_slice unbox stands S h s vs" and "S \<subseteq> T" and "agrees S h h'"
  shows "stands_slice unbox stands T h' s vs"
proof (cases s)
  case (Some sl)
  then obtain xs where xs: "gs_array sl \<in> S" "slice_objects h sl = Some xs"
    "list_all2 (\<lambda>x v. \<exists>g. unbox x = Some g \<and> stands S h g v) xs vs"
    using assms(1) by (auto simp: stands_slice_def)
  have "slice_objects h' sl = Some xs" by (rule slice_objects_agrees [OF xs(2, 1) assms(3)])
  moreover have "list_all2 (\<lambda>x v. \<exists>g. unbox x = Some g \<and> stands T h' g v) xs vs"
    using xs(3) by (rule list_all2_mono) (use frame [OF _ assms(2, 3)] in blast)
  ultimately show ?thesis using Some xs(1) assms(2) unfolding stands_slice_def by auto
qed (use assms(1) in \<open>simp add: stands_slice_def\<close>)

lemma elems_copied:
  assumes "list_all2 (\<lambda>x v. \<exists>g. unbox x = Some g \<and> stands {..<length h} h g v) xs vs"
  shows "\<exists>ys cs'. copy_elems box unbox copy (length h) (length pre) xs (h @ Arr (pre @ replicate (length xs) OZero) # cs) =
      Some (h @ Arr (pre @ ys) # cs @ cs') \<and> length ys = length xs \<and>
    (\<forall>arr. list_all2 (\<lambda>y v. \<exists>g. unbox y = Some g \<and> stands {length h..} (h @ Arr arr # cs @ cs') g v) ys vs)"
  using assms
proof (induction xs vs arbitrary: pre cs rule: list_all2_induct)
  case (Cons x xs v vs)
  obtain g where g: "unbox x = Some g" "stands {..<length h} h g v" using Cons.hyps(1) by blast
  let ?zero = "Arr (pre @ replicate (length (x # xs)) OZero)"
  let ?H = "h @ ?zero # cs"
  obtain g' es where g': "copy g ?H = Some (g', ?H @ es)" "stands {length ?H..} (?H @ es) g' v"
    by (rule copies_on [OF g(2)])
  have w: "write_elem (length h) (length pre) (box g') (?H @ es) =
      h @ Arr ((pre @ [box g']) @ replicate (length xs) OZero) # cs @ es"
    by (simp add: write_elem_def list_update_append)
  obtain ys cs' where ys: "copy_elems box unbox copy (length h) (length (pre @ [box g'])) xs
      (h @ Arr ((pre @ [box g']) @ replicate (length xs) OZero) # cs @ es) = Some (h @ Arr ((pre @ [box g']) @ ys) # (cs @ es) @ cs')"
    "length ys = length xs"
    "\<forall>arr. list_all2 (\<lambda>y v. \<exists>g. unbox y = Some g \<and> stands {length h..} (h @ Arr arr # (cs @ es) @ cs') g v) ys vs"
    using Cons.IH [of "pre @ [box g']" "cs @ es"] by auto
  have "stands {length h..} (h @ Arr arr # (cs @ es) @ cs') g' v" for arr
    by (rule frame [OF g'(2)]) (auto simp: agrees_def cell_at_def nth_append nth_Cons' split: if_splits)
  then show ?case
    using g(1) g'(1) w ys by (intro exI [of _ "box g' # ys"] exI [of _ "es @ cs'"]) (simp add: copying_def unbox_box)
qed simp

lemma slice_copies:
  assumes "stands_slice unbox stands {..<length h} h s vs"
  shows "\<exists>s' cs. copy_slice box unbox copy s h = Some (s', h @ cs) \<and> stands_slice unbox stands {length h..} (h @ cs) s' vs"
proof (cases s)
  case (Some sl)
  then obtain xs where xs: "slice_objects h sl = Some xs"
    "list_all2 (\<lambda>x v. \<exists>g. unbox x = Some g \<and> stands {..<length h} h g v) xs vs"
    using assms by (auto simp: stands_slice_def)
  have len: "length xs = gs_len sl" using xs(1) by (auto simp: slice_objects_def split: option.splits cell.splits if_splits)
  obtain ys cs where "copy_elems box unbox copy (length h) 0 xs (h @ [Arr (replicate (length xs) OZero)]) = Some (h @ Arr ys # cs)"
    "length ys = length xs"
    "\<forall>arr. list_all2 (\<lambda>y v. \<exists>g. unbox y = Some g \<and> stands {length h..} (h @ Arr arr # cs) g v) ys vs"
    using elems_copied [OF xs(2), of "[]" "[]"] by auto
  then show ?thesis
    using Some xs(1) len by (simp add: copy_slice_def stands_slice_def slice_objects_def)
qed (use assms in \<open>simp add: stands_slice_def copy_slice_def\<close>)

end

sublocale boxed \<subseteq> ptr: copyable "stands_ptr unbox stands" "copy_ptr box unbox copy"
  by unfold_locales (use ptr_frame ptr_copies in blast)+

sublocale boxed \<subseteq> slice: copyable "stands_slice unbox stands" "copy_slice box unbox copy"
  by unfold_locales (use slice_frame slice_copies in blast)+

end
