(* ===== verification/DeepCopy.thy ===== *)
theory DeepCopy
  imports CopyHeap
begin

text \<open>
  The generated deep copies of \<open>api/v1alpha1\<close>, with one pair of functions for each type.  In
  \<open>DeepCopyInto\<close> the record that is updated is the assignment \<open>*out = *in\<close>; \<open>DeepCopy\<close> allocates
  the struct for it.  The types of the Kubernetes libraries have their own copy functions, which are
  parameters with the same contract.
\<close>

section \<open>What is behind an address\<close>

fun un_string :: "object \<Rightarrow> string option" where
  "un_string (OString x) = Some x"
| "un_string _ = None"

fun un_bool :: "object \<Rightarrow> bool option" where
  "un_bool (OBool x) = Some x"
| "un_bool _ = None"

fun un_int :: "object \<Rightarrow> int option" where
  "un_int (OInt x) = Some x"
| "un_int _ = None"

fun un_time :: "object \<Rightarrow> nat option" where
  "un_time (OTime x) = Some x"
| "un_time _ = None"

fun un_slice :: "object \<Rightarrow> (goSlice option) option" where
  "un_slice (OSlice x) = Some x"
| "un_slice _ = None"

fun un_KeyRef :: "object \<Rightarrow> keyRef option" where
  "un_KeyRef (OKeyRef x) = Some x"
| "un_KeyRef _ = None"

fun un_ValueFrom :: "object \<Rightarrow> goValueFrom option" where
  "un_ValueFrom (OValueFrom x) = Some x"
| "un_ValueFrom _ = None"

fun un_AllowedAudience :: "object \<Rightarrow> goAllowedAudience option" where
  "un_AllowedAudience (OAllowedAudience x) = Some x"
| "un_AllowedAudience _ = None"

fun un_AutoLogin :: "object \<Rightarrow> goAutoLogin option" where
  "un_AutoLogin (OAutoLogin x) = Some x"
| "un_AutoLogin _ = None"

fun un_OAuthCredentials :: "object \<Rightarrow> oauthCredentialsRef option" where
  "un_OAuthCredentials (OOAuthCredentials x) = Some x"
| "un_OAuthCredentials _ = None"

fun un_WorkloadSelector :: "object \<Rightarrow> goWorkloadSelector option" where
  "un_WorkloadSelector (OWorkloadSelector x) = Some x"
| "un_WorkloadSelector _ = None"

fun un_ClaimToHeader :: "object \<Rightarrow> claimToHeader option" where
  "un_ClaimToHeader (OClaimToHeader x) = Some x"
| "un_ClaimToHeader _ = None"

fun un_Condition :: "object \<Rightarrow> goCondition option" where
  "un_Condition (OCondition x) = Some x"
| "un_Condition _ = None"

fun un_BaselineAuth :: "object \<Rightarrow> goBaselineAuth option" where
  "un_BaselineAuth (OBaselineAuth x) = Some x"
| "un_BaselineAuth _ = None"

fun un_RequestMatcher :: "object \<Rightarrow> goRequestMatcher option" where
  "un_RequestMatcher (ORequestMatcher x) = Some x"
| "un_RequestMatcher _ = None"

fun un_RequestAuthRule :: "object \<Rightarrow> goRequestAuthRule option" where
  "un_RequestAuthRule (ORequestAuthRule x) = Some x"
| "un_RequestAuthRule _ = None"

fun un_StatusCondition :: "object \<Rightarrow> statusCondition option" where
  "un_StatusCondition (OStatusCondition x) = Some x"
| "un_StatusCondition _ = None"

fun un_AuthPolicySpec :: "object \<Rightarrow> goAuthPolicySpec option" where
  "un_AuthPolicySpec (OAuthPolicySpec x) = Some x"
| "un_AuthPolicySpec _ = None"

fun un_AuthPolicyStatus :: "object \<Rightarrow> goAuthPolicyStatus option" where
  "un_AuthPolicyStatus (OAuthPolicyStatus x) = Some x"
| "un_AuthPolicyStatus _ = None"

fun un_AuthPolicy :: "object \<Rightarrow> goAuthPolicy option" where
  "un_AuthPolicy (OAuthPolicy x) = Some x"
| "un_AuthPolicy _ = None"

fun un_AuthPolicyList :: "object \<Rightarrow> goAuthPolicyList option" where
  "un_AuthPolicyList (OAuthPolicyList x) = Some x"
| "un_AuthPolicyList _ = None"

section \<open>Strings, numbers and maps\<close>

named_theorems copying_rules
named_theorems standing_rules

interpretation string_box: boxed stands_plain copy_plain OString un_string
  by unfold_locales simp

interpretation bool_box: boxed stands_plain copy_plain OBool un_bool
  by unfold_locales simp

interpretation int_box: boxed stands_plain copy_plain OInt un_int
  by unfold_locales simp

interpretation time_box: boxed stands_plain copy_plain OTime un_time
  by unfold_locales simp

declare go_map.frame [standing_rules] go_map.copy_field [copying_rules]
declare string_box.ptr.frame [standing_rules] string_box.ptr.copy_field [copying_rules]
declare string_box.slice.frame [standing_rules] string_box.slice.copy_field [copying_rules]
declare bool_box.ptr.frame [standing_rules] bool_box.ptr.copy_field [copying_rules]
declare int_box.ptr.frame [standing_rules] int_box.ptr.copy_field [copying_rules]
declare time_box.ptr.frame [standing_rules] time_box.ptr.copy_field [copying_rules]

abbreviation copy_string_ptr :: "addr option copier" where
  "copy_string_ptr \<equiv> copy_ptr OString un_string copy_plain"

abbreviation copy_bool_ptr :: "addr option copier" where
  "copy_bool_ptr \<equiv> copy_ptr OBool un_bool copy_plain"

abbreviation copy_strings :: "goSlice option copier" where
  "copy_strings \<equiv> copy_slice OString un_string copy_plain"

text \<open>A pointer to a slice: the header is allocated, then the array.\<close>

abbreviation copy_slice_ptr :: "goSlice option copier \<Rightarrow> addr option copier" where
  "copy_slice_ptr c \<equiv> copy_ptr OSlice un_slice c"

abbreviation stands_string_ptr :: "(addr option, string option) stands" where
  "stands_string_ptr \<equiv> stands_ptr un_string stands_plain"

abbreviation stands_bool_ptr :: "(addr option, bool option) stands" where
  "stands_bool_ptr \<equiv> stands_ptr un_bool stands_plain"

abbreviation stands_strings :: "(goSlice option, string list) stands" where
  "stands_strings \<equiv> stands_slice un_string stands_plain"

interpretation strings_box: boxed stands_strings copy_strings OSlice un_slice
  by unfold_locales simp

declare strings_box.ptr.frame [standing_rules] strings_box.ptr.copy_field [copying_rules]

section \<open>Structs without pointers\<close>

definition DeepCopyInto_KeyRef :: "keyRef copier" where
  "DeepCopyInto_KeyRef = copy_plain"

definition DeepCopy_KeyRef :: "addr option copier" where
  "DeepCopy_KeyRef = copy_ptr OKeyRef un_KeyRef DeepCopyInto_KeyRef"

interpretation KeyRef_box: boxed stands_plain copy_plain OKeyRef un_KeyRef
  by unfold_locales simp

declare KeyRef_box.ptr.frame [standing_rules] KeyRef_box.ptr.copy_field [copying_rules]
declare KeyRef_box.slice.frame [standing_rules] KeyRef_box.slice.copy_field [copying_rules]

definition DeepCopyInto_OAuthCredentials :: "oauthCredentialsRef copier" where
  "DeepCopyInto_OAuthCredentials = copy_plain"

definition DeepCopy_OAuthCredentials :: "addr option copier" where
  "DeepCopy_OAuthCredentials = copy_ptr OOAuthCredentials un_OAuthCredentials DeepCopyInto_OAuthCredentials"

interpretation OAuthCredentials_box: boxed stands_plain copy_plain OOAuthCredentials un_OAuthCredentials
  by unfold_locales simp

declare OAuthCredentials_box.ptr.frame [standing_rules] OAuthCredentials_box.ptr.copy_field [copying_rules]
declare OAuthCredentials_box.slice.frame [standing_rules] OAuthCredentials_box.slice.copy_field [copying_rules]

definition DeepCopyInto_ClaimToHeader :: "claimToHeader copier" where
  "DeepCopyInto_ClaimToHeader = copy_plain"

definition DeepCopy_ClaimToHeader :: "addr option copier" where
  "DeepCopy_ClaimToHeader = copy_ptr OClaimToHeader un_ClaimToHeader DeepCopyInto_ClaimToHeader"

interpretation ClaimToHeader_box: boxed stands_plain copy_plain OClaimToHeader un_ClaimToHeader
  by unfold_locales simp

declare ClaimToHeader_box.ptr.frame [standing_rules] ClaimToHeader_box.ptr.copy_field [copying_rules]
declare ClaimToHeader_box.slice.frame [standing_rules] ClaimToHeader_box.slice.copy_field [copying_rules]

text \<open>The condition type of the Kubernetes API holds strings and a time.\<close>

interpretation StatusCondition_box: boxed stands_plain copy_plain OStatusCondition un_StatusCondition
  by unfold_locales simp

declare StatusCondition_box.slice.frame [standing_rules] StatusCondition_box.slice.copy_field [copying_rules]

interpretation ClaimToHeader_slice_box: boxed "stands_slice un_ClaimToHeader stands_plain"
    "copy_slice OClaimToHeader un_ClaimToHeader copy_plain" OSlice un_slice
  by unfold_locales simp

declare ClaimToHeader_slice_box.ptr.frame [standing_rules] ClaimToHeader_slice_box.ptr.copy_field [copying_rules]

section \<open>Structs with pointers\<close>

definition stands_ValueFrom :: "(goValueFrom, valueFrom) stands" where
  "stands_ValueFrom S h g v \<longleftrightarrow>
     stands_ptr un_KeyRef stands_plain S h (gvf_configMapKeyRef g) (vf_configMapKeyRef v) \<and>
     stands_ptr un_KeyRef stands_plain S h (gvf_secretKeyRef g) (vf_secretKeyRef v)"

definition DeepCopyInto_ValueFrom :: "goValueFrom copier" where
  "DeepCopyInto_ValueFrom g h =
     copying (copy_ptr OKeyRef un_KeyRef copy_plain) (gvf_configMapKeyRef g) h (\<lambda>configMapKeyRef h.
     copying (copy_ptr OKeyRef un_KeyRef copy_plain) (gvf_secretKeyRef g) h (\<lambda>secretKeyRef h.
       Some (g\<lparr>gvf_configMapKeyRef := configMapKeyRef, gvf_secretKeyRef := secretKeyRef\<rparr>, h)))"

definition DeepCopy_ValueFrom :: "addr option copier" where
  "DeepCopy_ValueFrom = copy_ptr OValueFrom un_ValueFrom DeepCopyInto_ValueFrom"

interpretation ValueFrom: copyable stands_ValueFrom DeepCopyInto_ValueFrom
  by (rule copyableI; unfold stands_ValueFrom_def DeepCopyInto_ValueFrom_def)
    (blast intro: standing_rules, (elim conjE)?, (rule copying_rules yields_copied | simp)+)

interpretation ValueFrom_box: boxed stands_ValueFrom DeepCopyInto_ValueFrom
    OValueFrom un_ValueFrom
  by unfold_locales simp

declare ValueFrom.frame [standing_rules] ValueFrom.copy_field [copying_rules]
declare ValueFrom_box.ptr.frame [standing_rules] ValueFrom_box.ptr.copy_field [copying_rules]
declare ValueFrom_box.slice.frame [standing_rules] ValueFrom_box.slice.copy_field [copying_rules]

definition stands_AllowedAudience :: "(goAllowedAudience, allowedAudience) stands" where
  "stands_AllowedAudience S h g v \<longleftrightarrow>
     stands_string_ptr S h (gaa_value g) (aa_value v) \<and>
     stands_ptr un_ValueFrom stands_ValueFrom S h (gaa_valueFrom g) (aa_valueFrom v)"

definition DeepCopyInto_AllowedAudience :: "goAllowedAudience copier" where
  "DeepCopyInto_AllowedAudience g h =
     copying copy_string_ptr (gaa_value g) h (\<lambda>value h.
     copying (copy_ptr OValueFrom un_ValueFrom DeepCopyInto_ValueFrom) (gaa_valueFrom g) h (\<lambda>valueFrom h.
       Some (g\<lparr>gaa_value := value, gaa_valueFrom := valueFrom\<rparr>, h)))"

definition DeepCopy_AllowedAudience :: "addr option copier" where
  "DeepCopy_AllowedAudience = copy_ptr OAllowedAudience un_AllowedAudience DeepCopyInto_AllowedAudience"

interpretation AllowedAudience: copyable stands_AllowedAudience DeepCopyInto_AllowedAudience
  by (rule copyableI; unfold stands_AllowedAudience_def DeepCopyInto_AllowedAudience_def)
    (blast intro: standing_rules, (elim conjE)?, (rule copying_rules yields_copied | simp)+)

interpretation AllowedAudience_box: boxed stands_AllowedAudience DeepCopyInto_AllowedAudience
    OAllowedAudience un_AllowedAudience
  by unfold_locales simp

declare AllowedAudience.frame [standing_rules] AllowedAudience.copy_field [copying_rules]
declare AllowedAudience_box.ptr.frame [standing_rules] AllowedAudience_box.ptr.copy_field [copying_rules]
declare AllowedAudience_box.slice.frame [standing_rules] AllowedAudience_box.slice.copy_field [copying_rules]

definition stands_AutoLogin :: "(goAutoLogin, autoLogin) stands" where
  "stands_AutoLogin S h g v \<longleftrightarrow>
     gal_enabled g = al_enabled v \<and>
     stands_string_ptr S h (gal_loginPath g) (al_loginPath v) \<and>
     stands_string_ptr S h (gal_redirectPath g) (al_redirectPath v) \<and>
     stands_string_ptr S h (gal_logoutPath g) (al_logoutPath v) \<and>
     stands_string_ptr S h (gal_postLogoutRedirectURI g) (al_postLogoutRedirectURI v) \<and>
     stands_strings S h (gal_scopes g) (al_scopes v) \<and>
     stands_map S h (gal_loginParams g) (al_loginParams v)"

definition DeepCopyInto_AutoLogin :: "goAutoLogin copier" where
  "DeepCopyInto_AutoLogin g h =
     copying copy_string_ptr (gal_loginPath g) h (\<lambda>loginPath h.
     copying copy_string_ptr (gal_redirectPath g) h (\<lambda>redirectPath h.
     copying copy_string_ptr (gal_logoutPath g) h (\<lambda>logoutPath h.
     copying copy_string_ptr (gal_postLogoutRedirectURI g) h (\<lambda>postLogoutRedirectURI h.
     copying copy_strings (gal_scopes g) h (\<lambda>scopes h.
     copying copy_map (gal_loginParams g) h (\<lambda>loginParams h.
       Some (g\<lparr>gal_loginPath := loginPath, gal_redirectPath := redirectPath, gal_logoutPath := logoutPath,
         gal_postLogoutRedirectURI := postLogoutRedirectURI, gal_scopes := scopes, gal_loginParams
         := loginParams\<rparr>, h)))))))"

definition DeepCopy_AutoLogin :: "addr option copier" where
  "DeepCopy_AutoLogin = copy_ptr OAutoLogin un_AutoLogin DeepCopyInto_AutoLogin"

interpretation AutoLogin: copyable stands_AutoLogin DeepCopyInto_AutoLogin
  by (rule copyableI; unfold stands_AutoLogin_def DeepCopyInto_AutoLogin_def)
    (blast intro: standing_rules, (elim conjE)?, (rule copying_rules yields_copied | simp)+)

interpretation AutoLogin_box: boxed stands_AutoLogin DeepCopyInto_AutoLogin
    OAutoLogin un_AutoLogin
  by unfold_locales simp

declare AutoLogin.frame [standing_rules] AutoLogin.copy_field [copying_rules]
declare AutoLogin_box.ptr.frame [standing_rules] AutoLogin_box.ptr.copy_field [copying_rules]
declare AutoLogin_box.slice.frame [standing_rules] AutoLogin_box.slice.copy_field [copying_rules]

definition stands_WorkloadSelector :: "(goWorkloadSelector, workloadSelector) stands" where
  "stands_WorkloadSelector S h g v \<longleftrightarrow>
     stands_map S h (gws_matchLabels g) (ws_matchLabels v)"

definition DeepCopyInto_WorkloadSelector :: "goWorkloadSelector copier" where
  "DeepCopyInto_WorkloadSelector g h =
     copying copy_map (gws_matchLabels g) h (\<lambda>matchLabels h.
       Some (g\<lparr>gws_matchLabels := matchLabels\<rparr>, h))"

definition DeepCopy_WorkloadSelector :: "addr option copier" where
  "DeepCopy_WorkloadSelector = copy_ptr OWorkloadSelector un_WorkloadSelector DeepCopyInto_WorkloadSelector"

interpretation WorkloadSelector: copyable stands_WorkloadSelector DeepCopyInto_WorkloadSelector
  by (rule copyableI; unfold stands_WorkloadSelector_def DeepCopyInto_WorkloadSelector_def)
    (blast intro: standing_rules, (elim conjE)?, (rule copying_rules yields_copied | simp)+)

interpretation WorkloadSelector_box: boxed stands_WorkloadSelector DeepCopyInto_WorkloadSelector
    OWorkloadSelector un_WorkloadSelector
  by unfold_locales simp

declare WorkloadSelector.frame [standing_rules] WorkloadSelector.copy_field [copying_rules]
declare WorkloadSelector_box.ptr.frame [standing_rules] WorkloadSelector_box.ptr.copy_field [copying_rules]
declare WorkloadSelector_box.slice.frame [standing_rules] WorkloadSelector_box.slice.copy_field [copying_rules]

definition stands_Condition :: "(goCondition, condition) stands" where
  "stands_Condition S h g v \<longleftrightarrow>
     gcond_claim g = cond_claim v \<and>
     stands_strings S h (gcond_values g) (cond_values v)"

definition DeepCopyInto_Condition :: "goCondition copier" where
  "DeepCopyInto_Condition g h =
     copying copy_strings (gcond_values g) h (\<lambda>vals h.
       Some (g\<lparr>gcond_values := vals\<rparr>, h))"

definition DeepCopy_Condition :: "addr option copier" where
  "DeepCopy_Condition = copy_ptr OCondition un_Condition DeepCopyInto_Condition"

interpretation Condition: copyable stands_Condition DeepCopyInto_Condition
  by (rule copyableI; unfold stands_Condition_def DeepCopyInto_Condition_def)
    (blast intro: standing_rules, (elim conjE)?, (rule copying_rules yields_copied | simp)+)

interpretation Condition_box: boxed stands_Condition DeepCopyInto_Condition
    OCondition un_Condition
  by unfold_locales simp

declare Condition.frame [standing_rules] Condition.copy_field [copying_rules]
declare Condition_box.ptr.frame [standing_rules] Condition_box.ptr.copy_field [copying_rules]
declare Condition_box.slice.frame [standing_rules] Condition_box.slice.copy_field [copying_rules]

interpretation Condition_slice_box: boxed "stands_slice un_Condition stands_Condition"
    "copy_slice OCondition un_Condition DeepCopyInto_Condition" OSlice un_slice
  by unfold_locales simp

declare Condition_slice_box.ptr.frame [standing_rules] Condition_slice_box.ptr.copy_field [copying_rules]

definition stands_BaselineAuth :: "(goBaselineAuth, baselineAuth) stands" where
  "stands_BaselineAuth S h g v \<longleftrightarrow>
     stands_slice un_Condition stands_Condition S h (gba_claims g) (ba_claims v)"

definition DeepCopyInto_BaselineAuth :: "goBaselineAuth copier" where
  "DeepCopyInto_BaselineAuth g h =
     copying (copy_slice OCondition un_Condition DeepCopyInto_Condition) (gba_claims g) h (\<lambda>claims h.
       Some (g\<lparr>gba_claims := claims\<rparr>, h))"

definition DeepCopy_BaselineAuth :: "addr option copier" where
  "DeepCopy_BaselineAuth = copy_ptr OBaselineAuth un_BaselineAuth DeepCopyInto_BaselineAuth"

interpretation BaselineAuth: copyable stands_BaselineAuth DeepCopyInto_BaselineAuth
  by (rule copyableI; unfold stands_BaselineAuth_def DeepCopyInto_BaselineAuth_def)
    (blast intro: standing_rules, (elim conjE)?, (rule copying_rules yields_copied | simp)+)

interpretation BaselineAuth_box: boxed stands_BaselineAuth DeepCopyInto_BaselineAuth
    OBaselineAuth un_BaselineAuth
  by unfold_locales simp

declare BaselineAuth.frame [standing_rules] BaselineAuth.copy_field [copying_rules]
declare BaselineAuth_box.ptr.frame [standing_rules] BaselineAuth_box.ptr.copy_field [copying_rules]
declare BaselineAuth_box.slice.frame [standing_rules] BaselineAuth_box.slice.copy_field [copying_rules]

definition stands_RequestMatcher :: "(goRequestMatcher, requestMatcher) stands" where
  "stands_RequestMatcher S h g v \<longleftrightarrow>
     stands_strings S h (grm_paths g) (rm_paths v) \<and>
     stands_strings S h (grm_methods g) (rm_methods v)"

definition DeepCopyInto_RequestMatcher :: "goRequestMatcher copier" where
  "DeepCopyInto_RequestMatcher g h =
     copying copy_strings (grm_paths g) h (\<lambda>paths h.
     copying copy_strings (grm_methods g) h (\<lambda>methods h.
       Some (g\<lparr>grm_paths := paths, grm_methods := methods\<rparr>, h)))"

definition DeepCopy_RequestMatcher :: "addr option copier" where
  "DeepCopy_RequestMatcher = copy_ptr ORequestMatcher un_RequestMatcher DeepCopyInto_RequestMatcher"

interpretation RequestMatcher: copyable stands_RequestMatcher DeepCopyInto_RequestMatcher
  by (rule copyableI; unfold stands_RequestMatcher_def DeepCopyInto_RequestMatcher_def)
    (blast intro: standing_rules, (elim conjE)?, (rule copying_rules yields_copied | simp)+)

interpretation RequestMatcher_box: boxed stands_RequestMatcher DeepCopyInto_RequestMatcher
    ORequestMatcher un_RequestMatcher
  by unfold_locales simp

declare RequestMatcher.frame [standing_rules] RequestMatcher.copy_field [copying_rules]
declare RequestMatcher_box.ptr.frame [standing_rules] RequestMatcher_box.ptr.copy_field [copying_rules]
declare RequestMatcher_box.slice.frame [standing_rules] RequestMatcher_box.slice.copy_field [copying_rules]

interpretation RequestMatcher_slice_box: boxed "stands_slice un_RequestMatcher stands_RequestMatcher"
    "copy_slice ORequestMatcher un_RequestMatcher DeepCopyInto_RequestMatcher" OSlice un_slice
  by unfold_locales simp

declare RequestMatcher_slice_box.ptr.frame [standing_rules] RequestMatcher_slice_box.ptr.copy_field [copying_rules]

definition stands_RequestAuthRule :: "(goRequestAuthRule, requestAuthRule) stands" where
  "stands_RequestAuthRule S h g v \<longleftrightarrow>
     stands_RequestMatcher S h (grar_matcher g) (requestMatcher.truncate v) \<and>
     stands_ptr un_slice (stands_slice un_Condition stands_Condition) S h (grar_when g) (rar_when v) \<and>
     stands_bool_ptr S h (grar_denyRedirect g) (rar_denyRedirect v)"

definition DeepCopyInto_RequestAuthRule :: "goRequestAuthRule copier" where
  "DeepCopyInto_RequestAuthRule g h =
     copying DeepCopyInto_RequestMatcher (grar_matcher g) h (\<lambda>matcher h.
     copying (copy_slice_ptr (copy_slice OCondition un_Condition DeepCopyInto_Condition))
       (grar_when g) h (\<lambda>conditions h.
     copying copy_bool_ptr (grar_denyRedirect g) h (\<lambda>denyRedirect h.
       Some (g\<lparr>grar_matcher := matcher, grar_when := conditions, grar_denyRedirect := denyRedirect\<rparr>, h))))"

definition DeepCopy_RequestAuthRule :: "addr option copier" where
  "DeepCopy_RequestAuthRule = copy_ptr ORequestAuthRule un_RequestAuthRule DeepCopyInto_RequestAuthRule"

interpretation RequestAuthRule: copyable stands_RequestAuthRule DeepCopyInto_RequestAuthRule
  by (rule copyableI; unfold stands_RequestAuthRule_def DeepCopyInto_RequestAuthRule_def)
    (blast intro: standing_rules, (elim conjE)?, (rule copying_rules yields_copied | simp)+)

interpretation RequestAuthRule_box: boxed stands_RequestAuthRule DeepCopyInto_RequestAuthRule
    ORequestAuthRule un_RequestAuthRule
  by unfold_locales simp

declare RequestAuthRule.frame [standing_rules] RequestAuthRule.copy_field [copying_rules]
declare RequestAuthRule_box.ptr.frame [standing_rules] RequestAuthRule_box.ptr.copy_field [copying_rules]
declare RequestAuthRule_box.slice.frame [standing_rules] RequestAuthRule_box.slice.copy_field [copying_rules]

interpretation RequestAuthRule_slice_box: boxed "stands_slice un_RequestAuthRule stands_RequestAuthRule"
    "copy_slice ORequestAuthRule un_RequestAuthRule DeepCopyInto_RequestAuthRule" OSlice un_slice
  by unfold_locales simp

declare RequestAuthRule_slice_box.ptr.frame [standing_rules] RequestAuthRule_slice_box.ptr.copy_field [copying_rules]

definition stands_AuthPolicySpec :: "(goAuthPolicySpec, authPolicySpec) stands" where
  "stands_AuthPolicySpec S h g v \<longleftrightarrow>
     gsp_enabled g = spec_enabled v \<and>
     gsp_wellKnownURI g = spec_wellKnownURI v \<and>
     stands_ptr un_AutoLogin stands_AutoLogin S h (gsp_autoLogin g) (spec_autoLogin v) \<and>
     stands_ptr un_OAuthCredentials stands_plain S h (gsp_oauthCredentials g) (spec_oauthCredentials v) \<and>
     stands_slice un_AllowedAudience stands_AllowedAudience S h
       (gsp_allowedAudiences g) (spec_allowedAudiences v) \<and>
     stands_bool_ptr S h (gsp_forwardJwt g) (spec_forwardJwt v) \<and>
     stands_ptr un_slice (stands_slice un_ClaimToHeader stands_plain) S h
       (gsp_outputClaimToHeaders g) (spec_outputClaimToHeaders v) \<and>
     stands_ptr un_slice stands_strings S h (gsp_acceptedResources g) (spec_acceptedResources v) \<and>
     stands_ptr un_BaselineAuth stands_BaselineAuth S h (gsp_baselineAuth g) (spec_baselineAuth v) \<and>
     stands_ptr un_slice (stands_slice un_RequestAuthRule stands_RequestAuthRule) S h
       (gsp_authRules g) (spec_authRules v) \<and>
     stands_ptr un_slice (stands_slice un_RequestMatcher stands_RequestMatcher) S h
       (gsp_ignoreAuthRules g) (spec_ignoreAuthRules v) \<and>
     stands_WorkloadSelector S h (gsp_selector g) (spec_selector v)"

definition DeepCopyInto_AuthPolicySpec :: "goAuthPolicySpec copier" where
  "DeepCopyInto_AuthPolicySpec g h =
     copying (copy_ptr OAutoLogin un_AutoLogin DeepCopyInto_AutoLogin) (gsp_autoLogin g) h (\<lambda>autoLogin h.
     copying (copy_ptr OOAuthCredentials un_OAuthCredentials copy_plain)
       (gsp_oauthCredentials g) h (\<lambda>oauthCredentials h.
     copying (copy_slice OAllowedAudience un_AllowedAudience DeepCopyInto_AllowedAudience)
       (gsp_allowedAudiences g) h (\<lambda>allowedAudiences h.
     copying copy_bool_ptr (gsp_forwardJwt g) h (\<lambda>forwardJwt h.
     copying (copy_slice_ptr (copy_slice OClaimToHeader un_ClaimToHeader copy_plain))
       (gsp_outputClaimToHeaders g) h (\<lambda>outputClaimToHeaders h.
     copying (copy_slice_ptr copy_strings) (gsp_acceptedResources g) h (\<lambda>acceptedResources h.
     copying (copy_ptr OBaselineAuth un_BaselineAuth DeepCopyInto_BaselineAuth)
       (gsp_baselineAuth g) h (\<lambda>baselineAuth h.
     copying (copy_slice_ptr (copy_slice ORequestAuthRule un_RequestAuthRule DeepCopyInto_RequestAuthRule))
       (gsp_authRules g) h (\<lambda>authRules h.
     copying (copy_slice_ptr (copy_slice ORequestMatcher un_RequestMatcher DeepCopyInto_RequestMatcher))
       (gsp_ignoreAuthRules g) h (\<lambda>ignoreAuthRules h.
     copying DeepCopyInto_WorkloadSelector (gsp_selector g) h (\<lambda>selector h.
       Some (g\<lparr>gsp_autoLogin := autoLogin, gsp_oauthCredentials := oauthCredentials, gsp_allowedAudiences :=
         allowedAudiences, gsp_forwardJwt := forwardJwt, gsp_outputClaimToHeaders :=
         outputClaimToHeaders, gsp_acceptedResources := acceptedResources, gsp_baselineAuth :=
         baselineAuth, gsp_authRules := authRules, gsp_ignoreAuthRules := ignoreAuthRules,
         gsp_selector := selector\<rparr>, h)))))))))))"

definition DeepCopy_AuthPolicySpec :: "addr option copier" where
  "DeepCopy_AuthPolicySpec = copy_ptr OAuthPolicySpec un_AuthPolicySpec DeepCopyInto_AuthPolicySpec"

interpretation AuthPolicySpec: copyable stands_AuthPolicySpec DeepCopyInto_AuthPolicySpec
  by (rule copyableI; unfold stands_AuthPolicySpec_def DeepCopyInto_AuthPolicySpec_def)
    (blast intro: standing_rules, (elim conjE)?, (rule copying_rules yields_copied | simp)+)

interpretation AuthPolicySpec_box: boxed stands_AuthPolicySpec DeepCopyInto_AuthPolicySpec
    OAuthPolicySpec un_AuthPolicySpec
  by unfold_locales simp

declare AuthPolicySpec.frame [standing_rules] AuthPolicySpec.copy_field [copying_rules]
declare AuthPolicySpec_box.ptr.frame [standing_rules] AuthPolicySpec_box.ptr.copy_field [copying_rules]
declare AuthPolicySpec_box.slice.frame [standing_rules] AuthPolicySpec_box.slice.copy_field [copying_rules]

definition stands_AuthPolicyStatus :: "(goAuthPolicyStatus, authPolicyStatus) stands" where
  "stands_AuthPolicyStatus S h g v \<longleftrightarrow>
     gst_observedGeneration g = st_observedGeneration v \<and>
     gst_phase g = st_phase v \<and>
     gst_message g = st_message v \<and>
     gst_ready g = st_ready v \<and>
     stands_slice un_StatusCondition stands_plain S h (gst_conditions g) (st_conditions v)"

definition DeepCopyInto_AuthPolicyStatus :: "goAuthPolicyStatus copier" where
  "DeepCopyInto_AuthPolicyStatus g h =
     copying (copy_slice OStatusCondition un_StatusCondition copy_plain) (gst_conditions g) h (\<lambda>conditions h.
       Some (g\<lparr>gst_conditions := conditions\<rparr>, h))"

definition DeepCopy_AuthPolicyStatus :: "addr option copier" where
  "DeepCopy_AuthPolicyStatus = copy_ptr OAuthPolicyStatus un_AuthPolicyStatus DeepCopyInto_AuthPolicyStatus"

interpretation AuthPolicyStatus: copyable stands_AuthPolicyStatus DeepCopyInto_AuthPolicyStatus
  by (rule copyableI; unfold stands_AuthPolicyStatus_def DeepCopyInto_AuthPolicyStatus_def)
    (blast intro: standing_rules, (elim conjE)?, (rule copying_rules yields_copied | simp)+)

interpretation AuthPolicyStatus_box: boxed stands_AuthPolicyStatus DeepCopyInto_AuthPolicyStatus
    OAuthPolicyStatus un_AuthPolicyStatus
  by unfold_locales simp

declare AuthPolicyStatus.frame [standing_rules] AuthPolicyStatus.copy_field [copying_rules]
declare AuthPolicyStatus_box.ptr.frame [standing_rules] AuthPolicyStatus_box.ptr.copy_field [copying_rules]
declare AuthPolicyStatus_box.slice.frame [standing_rules] AuthPolicyStatus_box.slice.copy_field [copying_rules]

section \<open>The resource\<close>

text \<open>The metadata of the libraries, as far as the policy of the model has it, and of lists.\<close>

definition stands_ObjectMeta :: "(goObjectMeta, authPolicy) stands" where
  "stands_ObjectMeta S h g v \<longleftrightarrow>
     gom_name g = ap_name v \<and> gom_namespace g = ap_namespace v \<and> gom_uid g = ap_uid v \<and>
     gom_generation g = ap_generation v \<and>
     stands_map S h (gom_labels g) (ap_labels v) \<and>
     stands_ptr un_time stands_plain S h (gom_deletionTimestamp g) (ap_deletionTimestamp v)"

record listMeta =
  lm_resourceVersion :: string
  lm_continue :: string
  lm_remainingItemCount :: "int option"

record authPolicyList =
  apl_kind :: string
  apl_meta :: listMeta
  apl_items :: "authPolicy list"

definition stands_ListMeta :: "(goListMeta, listMeta) stands" where
  "stands_ListMeta S h g v \<longleftrightarrow>
     glm_resourceVersion g = lm_resourceVersion v \<and> glm_continue g = lm_continue v \<and>
     stands_ptr un_int stands_plain S h (glm_remainingItemCount g) (lm_remainingItemCount v)"

definition stands_AuthPolicy :: "(goAuthPolicy, authPolicy) stands" where
  "stands_AuthPolicy S h g v \<longleftrightarrow>
     gap_kind g = ap_kind v \<and>
     stands_ObjectMeta S h (gap_meta g) v \<and>
     stands_AuthPolicySpec S h (gap_spec g) (ap_spec v) \<and>
     stands_AuthPolicyStatus S h (gap_status g) (ap_status v)"

text \<open>The libraries' copy functions of the metadata are the first arguments.\<close>

definition DeepCopyInto_AuthPolicy :: "goObjectMeta copier \<Rightarrow> goAuthPolicy copier" where
  "DeepCopyInto_AuthPolicy copyMeta g h =
     copying copyMeta (gap_meta g) h (\<lambda>meta h.
     copying DeepCopyInto_AuthPolicySpec (gap_spec g) h (\<lambda>spec h.
     copying DeepCopyInto_AuthPolicyStatus (gap_status g) h (\<lambda>status h.
       Some (g\<lparr>gap_meta := meta, gap_spec := spec, gap_status := status\<rparr>, h))))"

definition DeepCopy_AuthPolicy :: "goObjectMeta copier \<Rightarrow> addr option copier" where
  "DeepCopy_AuthPolicy copyMeta = copy_ptr OAuthPolicy un_AuthPolicy (DeepCopyInto_AuthPolicy copyMeta)"

text \<open>\<open>DeepCopyObject\<close> returns the nil interface for a nil pointer, not an interface around it.\<close>

definition DeepCopyObject_AuthPolicy :: "goObjectMeta copier \<Rightarrow> addr option copier" where
  "DeepCopyObject_AuthPolicy copyMeta p h =
     copying (DeepCopy_AuthPolicy copyMeta) p h (\<lambda>c h.
       if c \<noteq> None then Some (c, h) else Some (None, h))"

definition stands_AuthPolicyList :: "(goAuthPolicyList, authPolicyList) stands" where
  "stands_AuthPolicyList S h g v \<longleftrightarrow>
     gpl_kind g = apl_kind v \<and>
     stands_ListMeta S h (gpl_meta g) (apl_meta v) \<and>
     stands_slice un_AuthPolicy stands_AuthPolicy S h (gpl_items g) (apl_items v)"

definition DeepCopyInto_AuthPolicyList :: "goObjectMeta copier \<Rightarrow> goListMeta copier \<Rightarrow> goAuthPolicyList copier" where
  "DeepCopyInto_AuthPolicyList copyMeta copyListMeta g h =
     copying copyListMeta (gpl_meta g) h (\<lambda>meta h.
     copying (copy_slice OAuthPolicy un_AuthPolicy (DeepCopyInto_AuthPolicy copyMeta)) (gpl_items g) h (\<lambda>items h.
       Some (g\<lparr>gpl_meta := meta, gpl_items := items\<rparr>, h)))"

definition DeepCopy_AuthPolicyList :: "goObjectMeta copier \<Rightarrow> goListMeta copier \<Rightarrow> addr option copier" where
  "DeepCopy_AuthPolicyList copyMeta copyListMeta =
     copy_ptr OAuthPolicyList un_AuthPolicyList (DeepCopyInto_AuthPolicyList copyMeta copyListMeta)"

definition DeepCopyObject_AuthPolicyList :: "goObjectMeta copier \<Rightarrow> goListMeta copier \<Rightarrow> addr option copier" where
  "DeepCopyObject_AuthPolicyList copyMeta copyListMeta p h =
     copying (DeepCopy_AuthPolicyList copyMeta copyListMeta) p h (\<lambda>c h.
       if c \<noteq> None then Some (c, h) else Some (None, h))"

locale metadata_copiers = meta: copyable stands_ObjectMeta copyMeta + list_meta: copyable stands_ListMeta copyListMeta
  for copyMeta :: "goObjectMeta copier" and copyListMeta :: "goListMeta copier"
begin

lemma policy_copyable: "copyable stands_AuthPolicy (DeepCopyInto_AuthPolicy copyMeta)"
  by (rule copyableI; unfold stands_AuthPolicy_def DeepCopyInto_AuthPolicy_def)
    (blast intro: standing_rules meta.frame, elim conjE, (rule copying_rules meta.copy_field yields_copied | simp)+)

lemma policy_boxed: "boxed stands_AuthPolicy (DeepCopyInto_AuthPolicy copyMeta) OAuthPolicy un_AuthPolicy"
  by (rule boxed.intro [OF policy_copyable]) (simp add: boxed_axioms_def)

end

sublocale metadata_copiers \<subseteq> policy: boxed stands_AuthPolicy "DeepCopyInto_AuthPolicy copyMeta" OAuthPolicy un_AuthPolicy
  by (rule policy_boxed)

context metadata_copiers
begin

lemma list_copyable: "copyable stands_AuthPolicyList (DeepCopyInto_AuthPolicyList copyMeta copyListMeta)"
  by (rule copyableI; unfold stands_AuthPolicyList_def DeepCopyInto_AuthPolicyList_def)
    (blast intro: policy.slice.frame list_meta.frame, elim conjE,
      (rule policy.slice.copy_field list_meta.copy_field yields_copied | simp)+)

end

sublocale metadata_copiers \<subseteq> list: boxed stands_AuthPolicyList "DeepCopyInto_AuthPolicyList copyMeta copyListMeta"
    OAuthPolicyList un_AuthPolicyList
  by (rule boxed.intro [OF list_copyable]) (simp add: boxed_axioms_def)

text \<open>Copy functions with the documented behaviour, to run the model.\<close>

definition ObjectMeta_DeepCopyInto :: "goObjectMeta copier" where
  "ObjectMeta_DeepCopyInto g h =
     copying copy_map (gom_labels g) h (\<lambda>labels h.
     copying (copy_ptr OTime un_time copy_plain) (gom_deletionTimestamp g) h (\<lambda>deletionTimestamp h.
       Some (g\<lparr>gom_labels := labels, gom_deletionTimestamp := deletionTimestamp\<rparr>, h)))"

definition ListMeta_DeepCopyInto :: "goListMeta copier" where
  "ListMeta_DeepCopyInto g h =
     copying (copy_ptr OInt un_int copy_plain) (glm_remainingItemCount g) h (\<lambda>count h.
       Some (g\<lparr>glm_remainingItemCount := count\<rparr>, h))"

interpretation ObjectMeta: copyable stands_ObjectMeta ObjectMeta_DeepCopyInto
  by (rule copyableI; unfold stands_ObjectMeta_def ObjectMeta_DeepCopyInto_def)
    (blast intro: standing_rules, elim conjE, (rule copying_rules yields_copied | simp)+)

interpretation ListMeta: copyable stands_ListMeta ListMeta_DeepCopyInto
  by (rule copyableI; unfold stands_ListMeta_def ListMeta_DeepCopyInto_def)
    (blast intro: standing_rules, elim conjE, (rule copying_rules yields_copied | simp)+)

interpretation kube: metadata_copiers ObjectMeta_DeepCopyInto ListMeta_DeepCopyInto
  by (rule metadata_copiers.intro [OF ObjectMeta.copyable_axioms ListMeta.copyable_axioms])

section \<open>Copies are independent\<close>

text \<open>The copy does not see what is written to the old cells, nor the original what is written to the
  new ones.\<close>

context copyable
begin

lemma independent:
  assumes "stands {..<length h} h g v"
  shows "\<exists>g' cs. copy g h = Some (g', h @ cs) \<and>
    (\<forall>h2. agrees {length h..} (h @ cs) h2 \<longrightarrow> stands UNIV h2 g' v) \<and>
    (\<forall>h2. agrees {..<length h} h h2 \<longrightarrow> stands UNIV h2 g v)"
  using copies [OF assms] frame [OF _ subset_UNIV] assms by metis

end

lemma copied_pointer:
  "copy_ptr box unbox c (Some a) h = Some (q, h') \<Longrightarrow> a < length h \<and> q = Some (length h)"
  by (auto simp: copy_ptr_def copying_def bind_eq_Some_conv dest: cell_at_Some split: option.splits cell.splits)

context metadata_copiers
begin

lemma policy_independent:
  assumes "stands_ptr un_AuthPolicy stands_AuthPolicy {..<length h} h p (Some ap)"
  shows "\<exists>q cs. DeepCopyObject_AuthPolicy copyMeta p h = Some (q, h @ cs) \<and> q \<noteq> None \<and> q \<noteq> p \<and>
    (\<forall>h2. agrees {length h..} (h @ cs) h2 \<longrightarrow> stands_ptr un_AuthPolicy stands_AuthPolicy UNIV h2 q (Some ap)) \<and>
    (\<forall>h2. agrees {..<length h} h h2 \<longrightarrow> stands_ptr un_AuthPolicy stands_AuthPolicy UNIV h2 p (Some ap))"
proof -
  obtain a where p: "p = Some a" using assms by (cases p) (auto simp: stands_ptr_def)
  obtain q cs where q: "DeepCopy_AuthPolicy copyMeta p h = Some (q, h @ cs)"
    "\<forall>h2. agrees {length h..} (h @ cs) h2 \<longrightarrow> stands_ptr un_AuthPolicy stands_AuthPolicy UNIV h2 q (Some ap)"
    "\<forall>h2. agrees {..<length h} h h2 \<longrightarrow> stands_ptr un_AuthPolicy stands_AuthPolicy UNIV h2 p (Some ap)"
    using policy.ptr.independent [OF assms] unfolding DeepCopy_AuthPolicy_def by blast
  moreover have "a < length h \<and> q = Some (length h)"
    using copied_pointer q(1) unfolding DeepCopy_AuthPolicy_def p by blast
  ultimately show ?thesis using p by (simp add: DeepCopyObject_AuthPolicy_def copying_def)
qed

end

text \<open>A policy in memory: its login and redirect path are one string, its scopes the end of a longer array.\<close>

definition memory_policy :: authPolicy where
  "memory_policy = example_policy\<lparr>ap_spec := example_spec\<lparr>
     spec_autoLogin := Some \<lparr>al_enabled = True, al_loginPath = Some ''/login'', al_redirectPath = Some ''/login'',
       al_logoutPath = None, al_postLogoutRedirectURI = None, al_scopes = [''profile''], al_loginParams = [(''acr'', ''high'')]\<rparr>,
     spec_oauthCredentials := None, spec_allowedAudiences := [], spec_baselineAuth := None, spec_authRules := Some [],
     spec_ignoreAuthRules := None\<rparr>\<rparr>"

definition memory_struct :: goAuthPolicy where
  "memory_struct =
        \<lparr>gap_kind = ''AuthPolicy'',
         gap_meta = \<lparr>gom_name = ''demo'', gom_namespace = ''ns'', gom_uid = ''u1'', gom_generation = 1, gom_labels = None,
           gom_deletionTimestamp = None\<rparr>,
         gap_spec = \<lparr>gsp_enabled = True, gsp_autoLogin = Some 1, gsp_oauthCredentials = None,
           gsp_wellKnownURI = ''https://idp/.well-known'', gsp_allowedAudiences = None, gsp_forwardJwt = None,
           gsp_outputClaimToHeaders = None, gsp_acceptedResources = None, gsp_baselineAuth = None, gsp_authRules = Some 5,
           gsp_ignoreAuthRules = None, gsp_selector = \<lparr>gws_matchLabels = Some 6\<rparr>\<rparr>,
         gap_status = \<lparr>gst_observedGeneration = 0, gst_conditions = None, gst_phase = None, gst_message = [],
           gst_ready = False\<rparr>\<rparr>"

definition memory_heap :: heap where
  "memory_heap =
     [Obj (OAuthPolicy memory_struct),
      Obj (OAutoLogin \<lparr>gal_enabled = True, gal_loginPath = Some 2, gal_redirectPath = Some 2, gal_logoutPath = None,
        gal_postLogoutRedirectURI = None, gal_scopes = Some \<lparr>gs_array = 3, gs_offset = 1, gs_len = 1\<rparr>,
        gal_loginParams = Some 4\<rparr>),
      Obj (OString ''/login''), Arr [OString ''openid'', OString ''profile''], MapCell [(''acr'', ''high'')],
      Obj (OSlice None), MapCell [(''app'', ''demo'')]]"

lemma memory_stands: "stands_ptr un_AuthPolicy stands_AuthPolicy {..<length memory_heap} memory_heap (Some 0) (Some memory_policy)"
proof -
  have cells: "cell_at memory_heap a = (if a < 7 then Some (memory_heap ! a) else None)" for a
    by (simp add: cell_at_def memory_heap_def)
  have nths: "memory_heap ! Suc 0 = Obj (OAutoLogin \<lparr>gal_enabled = True, gal_loginPath = Some 2, gal_redirectPath = Some 2,
        gal_logoutPath = None, gal_postLogoutRedirectURI = None,
        gal_scopes = Some \<lparr>gs_array = 3, gs_offset = 1, gs_len = 1\<rparr>, gal_loginParams = Some 4\<rparr>)"
    "memory_heap ! 2 = Obj (OString ''/login'')" "memory_heap ! 3 = Arr [OString ''openid'', OString ''profile'']"
    "memory_heap ! 4 = MapCell [(''acr'', ''high'')]" "memory_heap ! 5 = Obj (OSlice None)"
    "memory_heap ! 6 = MapCell [(''app'', ''demo'')]" "length memory_heap = 7"
    by (simp_all add: memory_heap_def)
  have "stands_AuthPolicySpec {..<7} memory_heap (gap_spec memory_struct) (ap_spec memory_policy)"
    by (simp add: stands_AuthPolicySpec_def stands_ptr_def stands_slice_def stands_AutoLogin_def stands_WorkloadSelector_def
        stands_map_def wf_map_def stands_plain_def slice_objects_def cells nths memory_struct_def memory_policy_def example_spec_def)
  moreover have "stands_ObjectMeta {..<7} memory_heap (gap_meta memory_struct) memory_policy"
    "stands_AuthPolicyStatus {..<7} memory_heap (gap_status memory_struct) (ap_status memory_policy)"
    "gap_kind memory_struct = ap_kind memory_policy"
    by (simp_all add: stands_ObjectMeta_def stands_AuthPolicyStatus_def stands_map_def stands_ptr_def stands_slice_def
        memory_struct_def memory_policy_def example_policy_def)
  ultimately have "stands_AuthPolicy {..<7} memory_heap memory_struct memory_policy" by (simp add: stands_AuthPolicy_def)
  moreover have "cell_at memory_heap 0 = Some (Obj (OAuthPolicy memory_struct))" by (simp add: cell_at_def memory_heap_def)
  ultimately show ?thesis by (simp add: stands_ptr_def nths)
qed

section \<open>Properties\<close>

text \<open>C39: a deep copy of a policy is a policy of its own: it stands for the same value, whatever is
  written afterwards to memory that existed before, and writing to the memory of the copy leaves the
  original what it was, also when parts of the original share memory.\<close>

theorem deep_copy_independent:
  assumes "metadata_copiers copyMeta copyListMeta"
    and "stands_ptr un_AuthPolicy stands_AuthPolicy {..<length h} h p (Some ap)"
  shows "\<exists>q cs. DeepCopyObject_AuthPolicy copyMeta p h = Some (q, h @ cs) \<and> q \<noteq> None \<and> q \<noteq> p \<and>
    (\<forall>h2. agrees {length h..} (h @ cs) h2 \<longrightarrow> stands_ptr un_AuthPolicy stands_AuthPolicy UNIV h2 q (Some ap)) \<and>
    (\<forall>h2. agrees {..<length h} h h2 \<longrightarrow> stands_ptr un_AuthPolicy stands_AuthPolicy UNIV h2 p (Some ap))"
  by (rule metadata_copiers.policy_independent [OF assms])

theorem deep_copy_independent_witness:
  "\<exists>q h'. DeepCopyObject_AuthPolicy ObjectMeta_DeepCopyInto (Some 0) memory_heap = Some (q, h') \<and>
     stands_ptr un_AuthPolicy stands_AuthPolicy UNIV (h'[2 := Obj (OString ''/evil'')]) q (Some memory_policy)"
proof -
  obtain q cs where copy: "DeepCopyObject_AuthPolicy ObjectMeta_DeepCopyInto (Some 0) memory_heap = Some (q, memory_heap @ cs)"
    "\<And>h2. agrees {length memory_heap..} (memory_heap @ cs) h2 \<Longrightarrow>
      stands_ptr un_AuthPolicy stands_AuthPolicy UNIV h2 q (Some memory_policy)"
    using deep_copy_independent [OF kube.metadata_copiers_axioms memory_stands] by blast
  moreover have "agrees {length memory_heap..} (memory_heap @ cs) ((memory_heap @ cs)[2 := Obj (OString ''/evil'')])"
    by (rule agrees_set) (simp add: memory_heap_def)
  ultimately show ?thesis by blast
qed

end
