(* ===== verification/Startup.thy ===== *)
theory Startup
  imports Metrics
begin

text \<open>
  The start of the process: \<open>cmd/main.go\<close> with the options it builds from its flags and the calls it
  makes in order, \<open>pkg/config\<close>, the levels of \<open>pkg/log\<close>, and the periodic collector of \<open>pkg/metrics\<close>.  What the libraries do
  when they are called is a parameter: the error of each call, if any.  Parsing of the command line is
  left to the flag library.
\<close>

section \<open>Flags and options\<close>

record flags =
  fl_webhookCertPath :: string
  fl_webhookCertName :: string
  fl_webhookCertKey :: string
  fl_metricsAddr :: string
  fl_probeAddr :: string
  fl_enableLeaderElection :: bool
  fl_secureMetrics :: bool
  fl_enableHTTP2 :: bool
  fl_isDeployment :: bool

definition default_flags :: flags where
  "default_flags =
     \<lparr>fl_webhookCertPath = [], fl_webhookCertName = ''tls.crt'', fl_webhookCertKey = ''tls.key'',
      fl_metricsAddr = ''0'', fl_probeAddr = '':8081'', fl_enableLeaderElection = False,
      fl_secureMetrics = True, fl_enableHTTP2 = False, fl_isDeployment = False\<rparr>"

text \<open>Of a TLS configuration, the protocols it offers; an option changes a configuration.\<close>

record tlsConfig =
  tls_nextProtos :: "string list"

type_synonym tlsOption = "tlsConfig \<Rightarrow> tlsConfig"

definition disableHTTP2 :: tlsOption where
  "disableHTTP2 c = c\<lparr>tls_nextProtos := [''http/1.1'']\<rparr>"

text \<open>The block that appends the option stands in the code twice.\<close>

definition tlsOpts :: "flags \<Rightarrow> tlsOption list" where
  "tlsOpts fl =
     (let opts = (if \<not> fl_enableHTTP2 fl then [] @ [disableHTTP2] else [])
      in if \<not> fl_enableHTTP2 fl then opts @ [disableHTTP2] else opts)"

record webhookOptions =
  wo_tlsOpts :: "tlsOption list"
  wo_certDir :: string
  wo_certName :: string
  wo_keyName :: string

definition webhookServerOptions :: "flags \<Rightarrow> webhookOptions" where
  "webhookServerOptions fl =
     (let options = \<lparr>wo_tlsOpts = tlsOpts fl, wo_certDir = [], wo_certName = [], wo_keyName = []\<rparr>
      in if length (fl_webhookCertPath fl) > 0
         then options\<lparr>wo_certDir := fl_webhookCertPath fl, wo_certName := fl_webhookCertName fl,
           wo_keyName := fl_webhookCertKey fl\<rparr>
         else options)"

text \<open>The filter asks every client of the metrics for authentication and authorization.\<close>

record metricsOptions =
  mo_bindAddress :: string
  mo_secureServing :: bool
  mo_tlsOpts :: "tlsOption list"
  mo_authFilter :: bool

definition metricsServerOptions :: "flags \<Rightarrow> metricsOptions" where
  "metricsServerOptions fl =
     (let options = \<lparr>mo_bindAddress = fl_metricsAddr fl, mo_secureServing = fl_secureMetrics fl,
        mo_tlsOpts = tlsOpts fl, mo_authFilter = False\<rparr>
      in if fl_secureMetrics fl then options\<lparr>mo_authFilter := True\<rparr> else options)"

record managerOptions =
  mgr_metrics :: metricsOptions
  mgr_webhookServer :: webhookOptions
  mgr_probeAddress :: string
  mgr_leaderElection :: bool
  mgr_leaderElectionID :: string

definition newManagerOptions :: "flags \<Rightarrow> managerOptions" where
  "newManagerOptions fl =
     \<lparr>mgr_metrics = metricsServerOptions fl, mgr_webhookServer = webhookServerOptions fl,
      mgr_probeAddress = fl_probeAddr fl, mgr_leaderElection = fl_enableLeaderElection fl,
      mgr_leaderElectionID = ''78810f72.kartverket.no''\<rparr>"

section \<open>Configuration\<close>

record processConfig =
  cfg_gitRef :: string

text \<open>\<open>envconfig.Process\<close> fills the variable from the environment.\<close>

definition Load ::
  "(string \<Rightarrow> processConfig \<Rightarrow> string option \<times> processConfig) \<Rightarrow> processConfig \<Rightarrow> string option \<times> processConfig" where
  "Load process cfg = process ''ztoperator'' cfg"

definition Get :: "processConfig \<Rightarrow> processConfig" where
  "Get cfg = cfg"

section \<open>Logging\<close>

text \<open>
  The logger of \<open>pkg/log\<close> writes at verbosity levels of the logging library, which drops what is above
  its own; errors are always written.  The process starts with level -1, which is verbosity 1.
\<close>

datatype logCall = LogError | LogWarning | LogInfo | LogDebug

fun log_verbosity :: "logCall \<Rightarrow> nat option" where
  "log_verbosity LogError = None"
| "log_verbosity LogWarning = Some 2"
| "log_verbosity LogInfo = Some 0"
| "log_verbosity LogDebug = Some 1"

definition default_verbosity :: nat where
  "default_verbosity = 1"

definition log_written :: "nat \<Rightarrow> logCall \<Rightarrow> bool" where
  "log_written verbosity c \<longleftrightarrow> (case log_verbosity c of None \<Rightarrow> True | Some n \<Rightarrow> n \<le> verbosity)"

text \<open>With the level the process starts with, warnings are dropped while debug lines are written.\<close>

lemma warnings_dropped: "\<not> log_written default_verbosity LogWarning \<and> log_written default_verbosity LogDebug"
  by (simp add: log_written_def default_verbosity_def)

section \<open>The collector\<close>

text \<open>
  The collector starts once the cache is synchronised; once elected it refreshes the gauge, and again
  at every tick, from the policies that the list returns then.
\<close>

definition StartAuthPolicyCollector :: "bool \<Rightarrow> string option" where
  "StartAuthPolicyCollector synced = (if \<not> synced then Some ''failed to wait for cache sync'' else None)"

fun collector :: "metricsEnv \<Rightarrow> authPolicy list list \<Rightarrow> gauge \<Rightarrow> gauge" where
  "collector me [] g = g"
| "collector me (policies # ticks) g = collector me ticks (refreshOnce me policies g)"

section \<open>The process\<close>

datatype call =
    NewManager managerOptions
  | LoadConfig
  | SetupController
  | SetupPodWebhookWithManager
  | AddHealthzCheck
  | AddReadyzCheck
  | MustRegister
  | StartCollector
  | StartManager

datatype exit = Returns | Exit nat | Panics

text \<open>A call that fails ends the process, with \<open>os.Exit(1)\<close> or, from \<open>MustRegister\<close>, a panic.\<close>

definition attempt :: "(call \<Rightarrow> string option) \<Rightarrow> exit \<Rightarrow> call \<Rightarrow> call list \<times> exit \<Rightarrow> call list \<times> exit" where
  "attempt fails e c rest = (case fails c of Some _ \<Rightarrow> ([c], e) | None \<Rightarrow> (c # fst rest, snd rest))"

text \<open>
  The collector is started beside the manager: its failure ends the process when it comes before the
  manager returns.
\<close>

definition startManager :: "(call \<Rightarrow> string option) \<Rightarrow> bool \<Rightarrow> call list \<times> exit" where
  "startManager fails collectorFirst =
     ([StartCollector, StartManager],
      if fails StartCollector \<noteq> None \<and> collectorFirst then Exit 1
      else if fails StartManager \<noteq> None then Exit 1 else Returns)"

definition main :: "flags \<Rightarrow> string \<Rightarrow> string \<Rightarrow> (call \<Rightarrow> string option) \<Rightarrow> bool \<Rightarrow> call list \<times> exit" where
  "main fl kubeHost ENABLE_WEBHOOKS fails collectorFirst =
     (if \<not> fl_isDeployment fl \<and> \<not> Contains kubeHost ''https://127.0.0.1'' then ([], Exit 1)
      else
        (let checks =
             attempt fails (Exit 1) AddHealthzCheck
            (attempt fails (Exit 1) AddReadyzCheck
            (attempt fails Panics MustRegister (startManager fails collectorFirst)))
         in
         attempt fails (Exit 1) (NewManager (newManagerOptions fl))
        (attempt fails (Exit 1) LoadConfig
        (attempt fails (Exit 1) SetupController
           (if ENABLE_WEBHOOKS \<noteq> ''false'' then attempt fails (Exit 1) SetupPodWebhookWithManager checks else checks)))))"

section \<open>Facts\<close>

definition tls_applied :: "tlsOption list \<Rightarrow> tlsConfig \<Rightarrow> tlsConfig" where
  "tls_applied opts c = fold (\<lambda>f. f) opts c"

lemma http2_disabled: "\<not> fl_enableHTTP2 fl \<Longrightarrow> tls_nextProtos (tls_applied (tlsOpts fl) c) = [''http/1.1'']"
  by (simp add: tlsOpts_def tls_applied_def disableHTTP2_def)

text \<open>The check of the host is a search in a string: other hosts pass it too.\<close>

lemma local_check_is_search: "Contains ''https://127.0.0.1.example.com'' ''https://127.0.0.1''"
  by code_simp

text \<open>A run that reaches the manager has made every call before.\<close>

lemma attempt_reaches:
  assumes "attempt fails e c rest = (calls, out)" and "StartManager \<in> set calls" and "c \<noteq> StartManager"
  obtains calls' where "fails c = None" "calls = c # calls'" "rest = (calls', out)" "StartManager \<in> set calls'"
  using assms by (cases rest) (auto simp: attempt_def split: option.splits)

lemma main_reaches:
  assumes "main fl host webhooks fails first = (calls, out)" and "StartManager \<in> set calls"
  defines "before \<equiv> [NewManager (newManagerOptions fl), LoadConfig, SetupController] @
    (if webhooks \<noteq> ''false'' then [SetupPodWebhookWithManager] else []) @ [AddHealthzCheck, AddReadyzCheck, MustRegister]"
  shows "calls = before @ [StartCollector, StartManager] \<and> list_all (\<lambda>c. fails c = None) before"
proof -
  define webhook where "webhook = (webhooks \<noteq> ''false'')"
  show ?thesis
    using assms(1, 2) unfolding before_def main_def Let_def webhook_def [symmetric]
    by (cases webhook; cases "\<not> fl_isDeployment fl \<and> \<not> Contains host ''https://127.0.0.1''")
      (auto simp: startManager_def elim!: attempt_reaches)
qed

section \<open>Properties\<close>

text \<open>C29: without the deployment flag the process makes no call unless the address of the API server
  contains the local address; the servers it starts offer HTTP/2 only when asked to, and secure metrics
  only behind authentication; the manager runs only after every call of the set-up has succeeded, with
  the pod webhook registered unless the environment turns it off; and it ends normally only after it
  ran.\<close>

theorem startup_guarded:
  assumes "main fl host webhooks fails first = (calls, out)"
  shows "(calls \<noteq> [] \<longrightarrow> fl_isDeployment fl \<or> Contains host ''https://127.0.0.1'') \<and>
    (\<forall>o'. NewManager o' \<in> set calls \<longrightarrow>
       (\<not> fl_enableHTTP2 fl \<longrightarrow> (\<forall>c. tls_nextProtos (tls_applied (wo_tlsOpts (mgr_webhookServer o')) c) = [''http/1.1''] \<and>
          tls_nextProtos (tls_applied (mo_tlsOpts (mgr_metrics o')) c) = [''http/1.1''])) \<and>
       (mo_secureServing (mgr_metrics o') \<longrightarrow> mo_authFilter (mgr_metrics o'))) \<and>
    (StartManager \<in> set calls \<longrightarrow>
       list_all (\<lambda>c. fails c = None) (takeWhile (\<lambda>c. c \<noteq> StartCollector) calls) \<and>
       {LoadConfig, SetupController, AddHealthzCheck, AddReadyzCheck, MustRegister} \<subseteq> set (takeWhile (\<lambda>c. c \<noteq> StartCollector) calls) \<and>
       (SetupPodWebhookWithManager \<in> set calls \<longleftrightarrow> webhooks \<noteq> ''false'')) \<and>
    (out = Returns \<longrightarrow> StartManager \<in> set calls \<and> fails StartManager = None)"
proof -
  have options: "wo_tlsOpts (mgr_webhookServer (newManagerOptions fl)) = tlsOpts fl"
    "mo_tlsOpts (mgr_metrics (newManagerOptions fl)) = tlsOpts fl"
    "mo_secureServing (mgr_metrics (newManagerOptions fl)) \<longrightarrow> mo_authFilter (mgr_metrics (newManagerOptions fl))"
    by (simp_all add: newManagerOptions_def webhookServerOptions_def metricsServerOptions_def Let_def)
  have "NewManager o' \<in> set calls \<Longrightarrow> o' = newManagerOptions fl" for o'
    using assms by (auto simp: main_def attempt_def startManager_def Let_def split: if_splits option.splits)
  with options http2_disabled [of fl] have servers: "\<forall>o'. NewManager o' \<in> set calls \<longrightarrow>
      (\<not> fl_enableHTTP2 fl \<longrightarrow> (\<forall>c. tls_nextProtos (tls_applied (wo_tlsOpts (mgr_webhookServer o')) c) = [''http/1.1''] \<and>
         tls_nextProtos (tls_applied (mo_tlsOpts (mgr_metrics o')) c) = [''http/1.1''])) \<and>
      (mo_secureServing (mgr_metrics o') \<longrightarrow> mo_authFilter (mgr_metrics o'))"
    by metis
  have "StartManager \<in> set calls \<longrightarrow>
       list_all (\<lambda>c. fails c = None) (takeWhile (\<lambda>c. c \<noteq> StartCollector) calls) \<and>
       {LoadConfig, SetupController, AddHealthzCheck, AddReadyzCheck, MustRegister} \<subseteq> set (takeWhile (\<lambda>c. c \<noteq> StartCollector) calls) \<and>
       (SetupPodWebhookWithManager \<in> set calls \<longleftrightarrow> webhooks \<noteq> ''false'')"
    using main_reaches [OF assms] by auto
  moreover have "calls \<noteq> [] \<longrightarrow> fl_isDeployment fl \<or> Contains host ''https://127.0.0.1''"
    using assms by (simp add: main_def split: if_splits)
  moreover have "out = Returns \<longrightarrow> StartManager \<in> set calls \<and> fails StartManager = None"
    using assms by (auto simp: main_def attempt_def startManager_def Let_def split: if_splits option.splits)
  ultimately show ?thesis using servers by blast
qed

theorem startup_guarded_witness:
  "main default_flags ''https://127.0.0.1:6443'' [] (\<lambda>c. None) False =
     ([NewManager (newManagerOptions default_flags), LoadConfig, SetupController, SetupPodWebhookWithManager,
       AddHealthzCheck, AddReadyzCheck, MustRegister, StartCollector, StartManager], Returns) \<and>
   tls_nextProtos (tls_applied (mo_tlsOpts (mgr_metrics (newManagerOptions default_flags))) \<lparr>tls_nextProtos = [''h2'']\<rparr>) = [''http/1.1'']"
proof -
  have c: "Contains ''https://127.0.0.1:6443'' ''https://127.0.0.1''" by code_simp
  then have run: "main default_flags ''https://127.0.0.1:6443'' [] (\<lambda>c. None) False =
     ([NewManager (newManagerOptions default_flags), LoadConfig, SetupController, SetupPodWebhookWithManager,
       AddHealthzCheck, AddReadyzCheck, MustRegister, StartCollector, StartManager], Returns)"
    by (simp add: main_def attempt_def startManager_def default_flags_def Let_def del: Contains.simps)
  have "\<not> fl_enableHTTP2 default_flags" by (simp add: default_flags_def)
  with startup_guarded [OF run] run show ?thesis by simp
qed

end
