(* ===== verification/Url2crd.thy ===== *)
theory Url2crd
  imports GoUrl
begin

text \<open>
  The developer tool \<open>hack/url2crd\<close>, which downloads CRD manifests and writes one file for each CRD,
  with a status subresource in every version.  HTTP, YAML and the file system are
  parameters.  Lower case and white space are those of ASCII.
\<close>

section \<open>The status subresource\<close>

text \<open>A decoded document; \<open>YOther\<close> is any other value, as a number or a map with keys that are no strings.\<close>

datatype yaml =
    YNull
  | YStr string
  | YSeq "yaml list"
  | YMap "(string \<times> yaml) list"
  | YOther string

fun as_map :: "yaml option \<Rightarrow> (string, yaml) gomap option" where
  "as_map (Some (YMap m)) = Some m"
| "as_map _ = None"

fun as_seq :: "yaml option \<Rightarrow> yaml list option" where
  "as_seq (Some (YSeq xs)) = Some xs"
| "as_seq _ = None"

definition ensureVersion :: "yaml \<Rightarrow> yaml" where
  "ensureVersion v =
     (case as_map (Some v) of
        None \<Rightarrow> v
      | Some ver \<Rightarrow>
          (let subresources = (case as_map (map_of ver ''subresources'') of None \<Rightarrow> [] | Some m \<Rightarrow> m);
               subresources' = (if map_of subresources ''status'' = None
                 then AList.update ''status'' (YMap []) subresources else subresources)
           in YMap (AList.update ''subresources'' (YMap subresources') ver)))"

definition ensureVersionedStatusSubresource :: "(string, yaml) gomap \<Rightarrow> (string, yaml) gomap" where
  "ensureVersionedStatusSubresource raw =
     (case as_map (map_of raw ''spec'') of
        None \<Rightarrow> raw
      | Some spec \<Rightarrow>
          (case as_seq (map_of spec ''versions'') of
             None \<Rightarrow> raw
           | Some versions \<Rightarrow>
               if length versions = 0 then raw
               else AList.update ''spec'' (YMap (AList.update ''versions'' (YSeq (map ensureVersion versions)) spec)) raw))"

section \<open>Names of files\<close>

definition valid_name_byte :: "char \<Rightarrow> bool" where
  "valid_name_byte c \<longleftrightarrow>
     byte_between (CHR ''a'') (CHR ''z'') c \<or> byte_between (CHR ''A'') (CHR ''Z'') c \<or> byte_between (CHR ''0'') (CHR ''9'') c \<or>
     c = CHR ''_'' \<or> c = CHR ''.'' \<or> c = CHR ''-''"

text \<open>A run of other bytes is one match of the regular expression, which becomes one hyphen.\<close>

fun sanitize_from :: "bool \<Rightarrow> string \<Rightarrow> string" where
  "sanitize_from run [] = []"
| "sanitize_from run (c # cs) =
     (if valid_name_byte c then c # sanitize_from False cs
      else if run then sanitize_from True cs else CHR ''-'' # sanitize_from True cs)"

definition sanitize :: "string \<Rightarrow> string" where
  "sanitize s = sanitize_from False s"

text \<open>\<open>path.Base\<close>, \<open>filepath.Ext\<close> and \<open>strings.TrimSpace\<close>.\<close>

definition pathBase :: "string \<Rightarrow> string" where
  "pathBase p =
     (if p = [] then ''.''
      else (let q = rev (dropWhile (\<lambda>c. c = CHR ''/'') (rev p));
                b = rev (takeWhile (\<lambda>c. c \<noteq> CHR ''/'') (rev q))
            in if b = [] then ''/'' else b))"

definition Ext :: "string \<Rightarrow> string" where
  "Ext p =
     (let r = takeWhile (\<lambda>c. c \<noteq> CHR ''/'') (rev p)
      in if CHR ''.'' \<in> set r then rev (takeWhile (\<lambda>c. c \<noteq> CHR ''.'') r @ ''.'') else [])"

definition is_space :: "char \<Rightarrow> bool" where
  "is_space c \<longleftrightarrow> c \<in> set [CHR '' '', CHR 0x09, CHR 0x0A, CHR 0x0B, CHR 0x0C, CHR 0x0D]"

definition TrimSpace :: "string \<Rightarrow> string" where
  "TrimSpace s = rev (dropWhile is_space (rev (dropWhile is_space s)))"

text \<open>\<open>filepath.Join\<close> of two names, with the lexical \<open>filepath.Clean\<close>.\<close>

fun clean_elems :: "bool \<Rightarrow> string list \<Rightarrow> string list \<Rightarrow> string list" where
  "clean_elems rooted stack [] = rev stack"
| "clean_elems rooted stack (e # es) =
     (if e = [] \<or> e = ''.'' then clean_elems rooted stack es
      else if e = ''..'' then
        (case stack of
           [] \<Rightarrow> clean_elems rooted (if rooted then [] else [e]) es
         | t # ts \<Rightarrow> clean_elems rooted (if t = ''..'' then e # stack else ts) es)
      else clean_elems rooted (e # stack) es)"

definition path_elems :: "string \<Rightarrow> string list" where
  "path_elems p = clean_elems (HasPrefix p ''/'') [] (SplitByte (CHR ''/'') p)"

definition Clean :: "string \<Rightarrow> string" where
  "Clean p =
     (let s = JoinByte (CHR ''/'') (path_elems p)
      in if HasPrefix p ''/'' then CHR ''/'' # s else if s = [] then ''.'' else s)"

definition Join :: "string \<Rightarrow> string \<Rightarrow> string" where
  "Join dir f =
     (if dir = [] then (if f = [] then [] else Clean f)
      else if f = [] then Clean dir else Clean (dir @ ''/'' @ f))"

definition baseFilenameFromURL :: "string \<Rightarrow> string" where
  "baseFilenameFromURL raw =
     (case url_Parse raw of
        Inl _ \<Rightarrow> []
      | Inr u \<Rightarrow> (let base = pathBase (u_Path u) in if base = ''.'' \<or> base = ''/'' then [] else base))"

definition fileName :: "string \<Rightarrow> nat \<Rightarrow> string \<Rightarrow> string" where
  "fileName baseFromURL written name =
     (if baseFromURL \<noteq> [] then
        (let fname = baseFromURL in
         if written > 0 then
           (let ext = Ext fname; stem = TrimSuffix fname ext; ext = (if ext = [] then ''.yaml'' else ext)
            in stem @ ''-'' @ sanitize name @ ext)
         else fname)
      else sanitize name @ ''.yaml'')"

section \<open>Writing the files\<close>

record crdMeta =
  m_kind :: string
  m_name :: string

record toolEnv =
  te_marshal :: "(string, yaml) gomap \<Rightarrow> string + string"
  te_unmarshal :: "string \<Rightarrow> crdMeta"
  te_writeFile :: "string \<Rightarrow> string \<Rightarrow> string option"

text \<open>The decoder returns documents until the end or until it fails.\<close>

fun writeCRDs_loop ::
  "toolEnv \<Rightarrow> string \<Rightarrow> string \<Rightarrow> string \<Rightarrow> (string, yaml) gomap list \<Rightarrow> string option \<Rightarrow> (string \<times> string) list \<Rightarrow>
   string option \<times> (string \<times> string) list" where
  "writeCRDs_loop env label outDir base [] failure files =
     (case failure of
        Some e \<Rightarrow> (Some (label @ '': decode yaml: '' @ e), files)
      | None \<Rightarrow>
          if length files = 0 then (Some (label @ '': no CustomResourceDefinition documents found''), files)
          else (None, files))"
| "writeCRDs_loop env label outDir base (raw # docs) failure files =
     (if length raw = 0 then writeCRDs_loop env label outDir base docs failure files
      else case te_marshal env raw of
        Inl e \<Rightarrow> (Some (label @ '': marshal doc: '' @ e), files)
      | Inr b \<Rightarrow>
          if m_kind (te_unmarshal env b) \<noteq> ''CustomResourceDefinition''
          then writeCRDs_loop env label outDir base docs failure files
          else (case te_marshal env (ensureVersionedStatusSubresource raw) of
             Inl e \<Rightarrow> (Some (label @ '': marshal doc: '' @ e), files)
           | Inr b' \<Rightarrow>
               (let trimmed = TrimSpace (m_name (te_unmarshal env b));
                    name = (if trimmed = [] then ''crd'' else trimmed);
                    path = Join outDir (ToLower (fileName base (length files) name));
                    content = (if b' = [] \<or> last b' \<noteq> CHR 0x0A then b' @ [CHR 0x0A] else b')
                in case te_writeFile env path content of
                     Some e \<Rightarrow> (Some (''write '' @ path @ '': '' @ e), files)
                   | None \<Rightarrow> writeCRDs_loop env label outDir base docs failure (files @ [(path, content)]))))"

definition writeCRDsFromYAML ::
  "toolEnv \<Rightarrow> (string, yaml) gomap list \<times> string option \<Rightarrow> string \<Rightarrow> string \<Rightarrow>
   string option \<times> (string \<times> string) list" where
  "writeCRDsFromYAML env src label outDir =
     writeCRDs_loop env label outDir (baseFilenameFromURL label) (fst src) (snd src) []"

section \<open>The tool\<close>

record httpResponse =
  resp_statusCode :: int
  resp_contentType :: string
  resp_body :: "string + string"

definition fetchURLBytes :: "(string \<Rightarrow> string + httpResponse) \<Rightarrow> string \<Rightarrow> string + string" where
  "fetchURLBytes request u =
     (case request u of
        Inl e \<Rightarrow> Inl (''GET '' @ u @ '': '' @ e)
      | Inr resp \<Rightarrow>
          if resp_statusCode resp < 200 \<or> resp_statusCode resp \<ge> 300 then Inl (''GET '' @ u @ '': unexpected status'')
          else if Contains (resp_contentType resp) ''text/html'' then Inl (''URL '' @ u @ '' returned HTML, not YAML'')
          else (case resp_body resp of
             Inl e \<Rightarrow> Inl (''read response body from '' @ u @ '': '' @ e)
           | Inr body \<Rightarrow> Inr body))"

text \<open>Any error is fatal; the files written before stay.\<close>

fun main_loop ::
  "toolEnv \<Rightarrow> (string \<Rightarrow> string + httpResponse) \<Rightarrow> (string \<Rightarrow> (string, yaml) gomap list \<times> string option) \<Rightarrow> string \<Rightarrow>
   string list \<Rightarrow> (string \<times> string) list \<Rightarrow> string option \<times> (string \<times> string) list" where
  "main_loop env request decode outDir [] files = (None, files)"
| "main_loop env request decode outDir (u # us) files =
     (case fetchURLBytes request u of
        Inl e \<Rightarrow> (Some e, files)
      | Inr b \<Rightarrow>
          (case writeCRDsFromYAML env (decode b) u outDir of
             (Some e, new) \<Rightarrow> (Some e, files @ new)
           | (None, new) \<Rightarrow> main_loop env request decode outDir us (files @ new)))"

definition url2crd_main ::
  "toolEnv \<Rightarrow> (string \<Rightarrow> string + httpResponse) \<Rightarrow> (string \<Rightarrow> (string, yaml) gomap list \<times> string option) \<Rightarrow>
   (string \<Rightarrow> string option) \<Rightarrow> string \<Rightarrow> string list \<Rightarrow> string option \<times> (string \<times> string) list" where
  "url2crd_main env request decode mkdirAll outDir urls =
     (if length urls = 0 then (Some ''no inputs provided; use -url (repeatable)'', [])
      else case mkdirAll outDir of
        Some e \<Rightarrow> (Some (''creating outdir '' @ outDir @ '': '' @ e), [])
      | None \<Rightarrow> main_loop env request decode outDir urls [])"

section \<open>Facts\<close>

lemma sanitize_bytes: "list_all valid_name_byte (sanitize s)"
proof -
  have "valid_name_byte (CHR ''-'')" by (simp add: valid_name_byte_def)
  then have "list_all valid_name_byte (sanitize_from run s)" for run
    by (induction run s rule: sanitize_from.induct) auto
  then show ?thesis by (simp add: sanitize_def)
qed

subsection \<open>Documents\<close>

definition status_ensured :: "(string, yaml) gomap \<Rightarrow> bool" where
  "status_ensured raw \<longleftrightarrow>
     (\<forall>spec versions v ver. as_map (map_of raw ''spec'') = Some spec \<longrightarrow> as_seq (map_of spec ''versions'') = Some versions \<longrightarrow>
        v \<in> set versions \<longrightarrow> as_map (Some v) = Some ver \<longrightarrow>
        (\<exists>sub. as_map (map_of ver ''subresources'') = Some sub \<and> map_of sub ''status'' \<noteq> None))"

lemma as_map_Some: "as_map x = Some m \<longleftrightarrow> x = Some (YMap m)"
  by (cases x rule: as_map.cases) auto

lemma as_seq_Some: "as_seq x = Some xs \<longleftrightarrow> x = Some (YSeq xs)"
  by (cases x rule: as_seq.cases) auto

lemma version_ensured:
  assumes "as_map (Some (ensureVersion v)) = Some ver"
  shows "\<exists>sub. as_map (map_of ver ''subresources'') = Some sub \<and> map_of sub ''status'' \<noteq> None"
  using assms by (auto simp: ensureVersion_def as_map_Some update_conv' Let_def split: option.splits)

lemma ensured: "status_ensured (ensureVersionedStatusSubresource raw)"
  unfolding status_ensured_def ensureVersionedStatusSubresource_def
  using version_ensured by (auto simp: as_map_Some as_seq_Some update_conv' split: option.splits if_splits)

text \<open>A second run changes nothing, and nothing but the versions is changed.\<close>

lemma ensureVersion_idem: "ensureVersion (ensureVersion v) = ensureVersion v"
  by (auto simp: ensureVersion_def as_map_Some update_conv' Let_def split: option.splits)

lemma ensure_idem:
  "ensureVersionedStatusSubresource (ensureVersionedStatusSubresource raw) = ensureVersionedStatusSubresource raw"
  by (auto simp: ensureVersionedStatusSubresource_def as_map_Some as_seq_Some update_conv' ensureVersion_idem o_def
      split: option.splits if_splits)

lemma ensure_keeps:
  "k \<noteq> ''spec'' \<Longrightarrow> map_of (ensureVersionedStatusSubresource raw) k = map_of raw k"
  "as_map (map_of raw ''spec'') = Some spec \<Longrightarrow> k \<noteq> ''versions'' \<Longrightarrow>
     \<exists>spec'. as_map (map_of (ensureVersionedStatusSubresource raw) ''spec'') = Some spec' \<and> map_of spec' k = map_of spec k"
  by (auto simp: ensureVersionedStatusSubresource_def as_map_Some update_conv' split: option.splits if_splits)

lemma ensureVersion_keeps:
  "as_map (Some v) = Some ver \<Longrightarrow> k \<noteq> ''subresources'' \<Longrightarrow>
     \<exists>ver'. as_map (Some (ensureVersion v)) = Some ver' \<and> map_of ver' k = map_of ver k"
  by (auto simp: ensureVersion_def as_map_Some update_conv' Let_def)

subsection \<open>Files\<close>

lemma lower_code: "(of_char (lower_byte c) :: nat) = (if 65 \<le> (of_char c :: nat) \<and> (of_char c :: nat) \<le> 90 then of_char c + 32 else of_char c)"
proof -
  have upper: "CHR ''A'' \<le> c \<and> c \<le> CHR ''Z'' \<longleftrightarrow> 65 \<le> (of_char c :: nat) \<and> (of_char c :: nat) \<le> 90"
    by (simp add: less_eq_char_def)
  show ?thesis unfolding lower_byte_def upper by (simp add: of_char_of)
qed

lemma byte_eq: "c = d \<longleftrightarrow> (of_char c :: nat) = of_char d"
  by simp

lemma lower_slash: "lower_byte c = CHR ''/'' \<longleftrightarrow> c = CHR ''/''"
  unfolding byte_eq lower_code by simp

lemma lower_idem: "lower_byte (lower_byte c) = lower_byte c"
  unfolding byte_eq lower_code by simp

lemma valid_no_slash: "valid_name_byte c \<Longrightarrow> c \<noteq> CHR ''/''"
  by (auto simp: valid_name_byte_def)

definition no_slash :: "string \<Rightarrow> bool" where
  "no_slash s \<longleftrightarrow> CHR ''/'' \<notin> set s"

lemma no_slash_lower: "no_slash (ToLower s) = no_slash s"
  by (auto simp: no_slash_def ToLower_def image_iff lower_slash eq_commute [of "CHR ''/''"])

lemma sanitize_no_slash: "no_slash (sanitize s)"
  using sanitize_bytes [of s] valid_no_slash by (auto simp: no_slash_def list_all_iff)

lemma pathBase_no_slash: "pathBase p = ''/'' \<or> no_slash (pathBase p)"
  by (auto simp: pathBase_def no_slash_def Let_def dest: set_takeWhileD)

lemma Ext_no_slash: "no_slash (Ext p)"
  by (auto simp: Ext_def no_slash_def Let_def dest: set_takeWhileD)

lemma fileName_no_slash: "no_slash (fileName (baseFilenameFromURL raw) n name)"
proof -
  have base: "no_slash (baseFilenameFromURL raw)"
    using pathBase_no_slash by (fastforce simp: baseFilenameFromURL_def no_slash_def Let_def split: sum.splits)
  then have "no_slash (TrimSuffix (baseFilenameFromURL raw) x)" for x
    by (auto simp: TrimSuffix_def no_slash_def dest: in_set_takeD)
  then show ?thesis
    using base sanitize_no_slash [of name] Ext_no_slash by (auto simp: fileName_def no_slash_def Let_def)
qed

text \<open>A file of a proper name is in its directory.\<close>

lemma split_no_slash: "no_slash f \<Longrightarrow> SplitByte (CHR ''/'') f = [f]"
  by (induction f) (auto simp: no_slash_def)

lemma split_join: "SplitByte (CHR ''/'') (d @ CHR ''/'' # f) = SplitByte (CHR ''/'') d @ SplitByte (CHR ''/'') f"
proof -
  have "SplitByte (CHR ''/'') d \<noteq> []" for d
    by (induction d) (auto split: list.splits)
  then show ?thesis by (induction d) (auto split: list.splits)
qed

lemma clean_append:
  "f \<noteq> [] \<Longrightarrow> f \<noteq> ''.'' \<Longrightarrow> f \<noteq> ''..'' \<Longrightarrow> clean_elems rooted stack (es @ [f]) = clean_elems rooted stack es @ [f]"
  by (induction rooted stack es rule: clean_elems.induct) (auto split: list.splits)

lemma joined_elems:
  assumes "dir \<noteq> []" and "no_slash f" and "f \<noteq> []" and "f \<noteq> ''.''" and "f \<noteq> ''..''"
  shows "path_elems (dir @ ''/'' @ f) = path_elems dir @ [f]"
proof -
  have "HasPrefix (dir @ ''/'' @ f) ''/'' = HasPrefix dir ''/''" using assms(1) by (cases dir) (auto simp: HasPrefix_def)
  then show ?thesis
    using split_join [of dir f] split_no_slash [OF assms(2)] clean_append [OF assms(3-5)] by (simp add: path_elems_def)
qed

section \<open>Properties\<close>

definition is_crd :: "toolEnv \<Rightarrow> (string, yaml) gomap \<Rightarrow> bool" where
  "is_crd env raw \<longleftrightarrow> raw \<noteq> [] \<and>
     (case te_marshal env raw of Inl _ \<Rightarrow> False | Inr b \<Rightarrow> m_kind (te_unmarshal env b) = ''CustomResourceDefinition'')"

text \<open>What is written for a document: its text with the status ensured and a line break at the end, in a
  file of the directory with a name in lower case.\<close>

definition crd_file :: "toolEnv \<Rightarrow> string \<Rightarrow> (string, yaml) gomap \<Rightarrow> string \<times> string \<Rightarrow> bool" where
  "crd_file env outDir raw file \<longleftrightarrow>
     (\<exists>doc b f. te_marshal env doc = Inr b \<and> status_ensured doc \<and> (\<forall>k. k \<noteq> ''spec'' \<longrightarrow> map_of doc k = map_of raw k) \<and>
        (snd file = b \<or> snd file = b @ [CHR 0x0A]) \<and> snd file \<noteq> [] \<and> last (snd file) = CHR 0x0A \<and>
        fst file = Join outDir f \<and> no_slash f \<and> ToLower f = f)"

lemma loop_files:
  assumes "writeCRDs_loop env label outDir (baseFilenameFromURL url) docs failure files = (None, files')"
  shows "\<exists>new. files' = files @ new \<and> failure = None \<and> files' \<noteq> [] \<and> list_all2 (crd_file env outDir) (filter (is_crd env) docs) new"
  using assms
proof (induction docs arbitrary: files)
  case Nil
  then show ?case by (auto split: option.splits if_splits)
next
  case (Cons raw docs)
  let ?loop = "writeCRDs_loop env label outDir (baseFilenameFromURL url)"
  show ?case
  proof (cases "is_crd env raw")
    case False
    then have "?loop docs failure files = (None, files')"
      using Cons.prems by (auto simp: is_crd_def split: if_splits sum.splits)
    from Cons.IH [OF this] False show ?thesis by simp
  next
    case True
    then obtain b where b: "raw \<noteq> []" "te_marshal env raw = Inr b" "m_kind (te_unmarshal env b) = ''CustomResourceDefinition''"
      by (auto simp: is_crd_def split: sum.splits)
    obtain b' where b': "te_marshal env (ensureVersionedStatusSubresource raw) = Inr b'"
      using Cons.prems b by (auto split: sum.splits)
    define content where "content = (if b' = [] \<or> last b' \<noteq> CHR 0x0A then b' @ [CHR 0x0A] else b')"
    obtain f where f: "no_slash f" "ToLower f = f" "?loop docs failure (files @ [(Join outDir f, content)]) = (None, files')"
    proof -
      obtain name where "?loop docs failure (files @ [(Join outDir
          (ToLower (fileName (baseFilenameFromURL url) (length files) name)), content)]) = (None, files')"
        using Cons.prems b b' unfolding content_def by (auto simp: Let_def split: option.splits)
      then show thesis
        using fileName_no_slash no_slash_lower by (intro that) (auto simp: ToLower_def lower_idem)
    qed
    have "crd_file env outDir raw (Join outDir f, content)"
      unfolding crd_file_def using b' f(1, 2) ensured ensure_keeps(1)
      by (intro exI [of _ "ensureVersionedStatusSubresource raw"] exI [of _ b'] exI [of _ f]) (auto simp: content_def)
    with Cons.IH [OF f(3)] True show ?thesis by auto
  qed
qed

text \<open>C34: when the tool writes the manifests of one download without an error, it has decoded all of it
  and has written one file for each CRD in it: the document with a status subresource in every version,
  ending in a line break, under a name in lower case in the output directory.\<close>

theorem crd_files_written:
  assumes "writeCRDsFromYAML env (docs, failure) label outDir = (None, files)"
  shows "failure = None \<and> files \<noteq> [] \<and> list_all2 (crd_file env outDir) (filter (is_crd env) docs) files"
  using loop_files assms unfolding writeCRDsFromYAML_def by fastforce

definition tool_env :: toolEnv where
  "tool_env =
     \<lparr>te_marshal = (\<lambda>raw. Inr ''kind: CustomResourceDefinition''),
      te_unmarshal = (\<lambda>b. \<lparr>m_kind = ''CustomResourceDefinition'', m_name = ''apps''\<rparr>), te_writeFile = (\<lambda>p b. None)\<rparr>"

definition tool_document :: "(string, yaml) gomap" where
  "tool_document = [(''kind'', YStr ''CustomResourceDefinition''), (''spec'', YMap [(''versions'', YSeq [YMap [(''name'', YStr ''v1'')]])])]"

theorem crd_files_written_witness:
  "\<exists>content. writeCRDsFromYAML tool_env ([tool_document], None) ''https://example/crd/App.yaml'' ''./bases'' =
       (None, [(''bases/app.yaml'', content)]) \<and>
     crd_file tool_env ''./bases'' tool_document (''bases/app.yaml'', content)"
proof -
  let ?content = "''kind: CustomResourceDefinition'' @ [CHR 0x0A]"
  have run: "writeCRDsFromYAML tool_env ([tool_document], None) ''https://example/crd/App.yaml'' ''./bases'' =
      (None, [(''bases/app.yaml'', ?content)])"
    by code_simp
  have "is_crd tool_env tool_document" by code_simp
  with crd_files_written [OF run] run show ?thesis by auto
qed

end
