(* ===== verification/Spec2Isabelle.thy ===== *)
theory Spec2Isabelle
  imports AuthPolicyTypes LuaResponse AccessControl Pods DeepCopy Startup Url2crd
begin

text \<open>
  A model of ztoperator (Kartverket), the Kubernetes operator that turns an AuthPolicy into Istio
  objects, and what is proved of it.

  \<^bold>\<open>The program.\<close>  A controller (\<open>internal/controller\<close>) reads an AuthPolicy, resolves what it refers
  to (\<open>internal/resolver\<close>, \<open>pkg/rest\<close>) into a scope (\<open>internal/state\<close>), validates its paths
  (\<open>pkg/validation\<close>), generates six objects (\<open>pkg/resourcegenerators\<close>, with the Lua filter of
  \<open>pkg/luascript\<close>), brings the cluster to them with a generic engine (\<open>internal/reconciler\<close>,
  \<open>pkg/reconciliation\<close>), and writes status and metrics (\<open>internal/statusmanager\<close>, \<open>pkg/metrics\<close>).
  Event handlers (\<open>internal/eventhandler\<close>) decide which policies are reconciled when something else
  changes, and a webhook (\<open>internal/webhook/v1\<close>) checks pods against the policy of their application.

  \<^bold>\<open>The theories\<close>, in the order of their imports.
  \<^item> \<open>Prelude\<close>: Go's string functions and maps (association lists), results as sums, shared lemmas.
  \<^item> \<open>AuthPolicyTypes\<close>: \<open>api/v1alpha1\<close>, types, admission rules of the CRD and accessors.
  \<^item> \<open>GoUrl\<close>, \<open>GoJson\<close>: what the program uses of Go's \<open>net/url\<close>, \<open>net/netip\<close>, \<open>strconv\<close> and
    \<open>encoding/json\<close>: \<open>url.Parse\<close> with its checks, and \<open>json.Unmarshal\<close> as a tokenizer, the scanner with
    its stack of open values and the decoding into structs; URLs are taken apart as they were put
    together, and every layout of a JSON value is read back.
  \<^item> \<open>Utf8\<close>, \<open>ScriptText\<close>: valid UTF-8 texts, and that the operations on strings and the script
    generator keep them valid; the protobuf encoder demands it.
  \<^item> \<open>PathValidation\<close>, \<open>PathLanguage\<close>: the validator and the rewriting to Istio's syntax; the paths
    it accepts are those of a grammar, and the rewriting keeps their meaning in Istio's own syntax
    (\<open>istio_template_syntax\<close>, \<open>istio_matches\<close>).
  \<^item> \<open>LuaPattern\<close>, \<open>LuaScript\<close>, \<open>LuaFilter\<close>, \<open>LuaResponse\<close>: the converters to Lua patterns, tables and
    strings, the script generator, and the request and response handlers of the template
    \<open>ztoperator.lua\<close>.  Lua's pattern matching and its string literals are modelled as far as generated
    scripts use them, and the order in which Lua visits a table is a parameter; readers of the
    generated text give the round trips, for rule paths that passed the validator and for login paths,
    which do not pass it, without backslash and line break: one with a double quote breaks the script.
  \<^item> \<open>Scope\<close>, \<open>Examples\<close>, \<open>Matching\<close>: the scope with its log of descendants and the resource names;
    concrete values for the witnesses; which requests a matcher applies to.
  \<^item> \<open>GoSlices\<close>, \<open>IstioTypes\<close>, \<open>AuthorizationPolicies\<close>: slices on a heap with a growth function, the
    written objects, and the three generators of authorization policies.
  \<^item> \<open>AccessControl\<close>: what those policies let through, for every engine with Istio's documented rules
    (locale \<open>istio_engine\<close>).  The meaning of the AuthPolicy is \<open>intended_access\<close>, read off its spec and
    what was resolved for it: issuer, audience, and the values of the claims it names, without the
    generators and their conditions.
  \<^item> \<open>ResourceGenerators\<close>: the generators of RequestAuthentication, Secret and EnvoyFilter; the
    contract of all six is the locales \<open>generator\<close> and \<open>selecting_generator\<close>.  The generator of the
    EnvoyFilter panics exactly for the endpoints and client ids that its theorem lists, and its patches
    tell Envoy, read field by field (\<open>pb_at\<close>), the host, port, TLS, script and credentials they should.
  \<^item> \<open>K8sClient\<close>, \<open>ReconcileEngine\<close>, \<open>ControllerResources\<close>: the client behind the locales \<open>k8s_api\<close>
    (successful writes have their effect, failed writes have none) and \<open>reliable_api\<close> (no failure
    without a reason); the engine for one resource, relying on the locale \<open>update_contract\<close>; the six
    resources with their update functions, which keep that contract.  That an object is up to date is
    \<open>carries\<close>: labels, selector and content of the desired one, apart from the action of an authorization policy
    and the signing key of a secret, which no update compares.
  \<^item> \<open>Resolvers\<close>, \<open>Metrics\<close>, \<open>StatusManager\<close>, \<open>Controller\<close>: the rest of a reconciliation, up to
    \<open>Reconcile\<close> with every early return.
  \<^item> \<open>Convergence\<close>, \<open>Enforcement\<close>, \<open>Lifecycle\<close>, \<open>OperatorRuns\<close>: the properties of a reconciliation.
    It touches its own objects only, a run without errors settles every resource, a second run writes none
    of the six objects (its status update may write the AuthPolicy); unless somebody changed their actions,
    the stored policies then decide like the generated ones; the reported state is exact and
    no admitted policy with a client id of valid UTF-8 makes it panic; in every sequence of reconciliations (the step relation
    \<open>operator_run\<close>) foreign objects stay as they are and policies do not interfere.
  \<^item> \<open>PodWebhook\<close>, \<open>EventHandlers\<close>, \<open>Watches\<close>: the webhook's decision, and that a pod annotated as the
    README says is admitted; the handlers, and which requests a change leads to through the watches of
    \<open>SetupWithManager\<close>.
  \<^item> \<open>PolicyCore\<close>, \<open>Cluster\<close>, \<open>ControlLoop\<close>, \<open>Draining\<close>, \<open>ClusterStore\<close>, \<open>ControlGuarantees\<close>: the parts
    together over time.  A state is a cluster with a queue of requests; the steps (\<open>control_step\<close>) are
    whole runs of \<open>Reconcile\<close> with any faults, whose events enqueue requests, and changes by others.
    The locale \<open>cluster\<close> is what the controller's calls promise, \<open>reliable_cluster\<close> a cluster that
    answers.  Others may change anything (\<open>control_step\<close>); the guarantees are for runs in which they make
    orderly changes (\<open>orderly_step\<close>): then a policy without a request is settled, and what is stored
    for it enforces it; without changes by others, with healthy policies and exact comparisons the queue
    runs empty after two runs for each request at most, by the measure \<open>work_left\<close>.
  \<^item> \<open>Pods\<close>: the webhook beside the control loop; a pod admitted for an idle policy mounts a secret that
    is stored, is controlled by the policy and carries its client secret.
  \<^item> \<open>CopyHeap\<close>, \<open>DeepCopy\<close>: pointers, slices and maps on a heap, and the generated copy functions of
    \<open>api/v1alpha1\<close>, all of them instances of the contract \<open>copyable\<close>: a copy stands for the same value
    and shares no memory.  The value model everywhere else rests on that.
  \<^item> \<open>Startup\<close>: \<open>cmd/main.go\<close> with \<open>pkg/config\<close>, the levels of \<open>pkg/log\<close> and the metrics collector.
  \<^item> \<open>Url2crd\<close>: the developer tool under \<open>hack\<close> that downloads CRD manifests.

  \<^bold>\<open>How code is rendered.\<close>  A struct is a record and a nil pointer is \<open>None\<close>; an error is the left
  summand of a result or \<open>Some\<close> message; a panic is \<open>None\<close>, the left summand of a generator's result,
  or the outcome \<open>Panicked\<close>.  Go's map is an association list, and where its iteration order could
  matter the order is a parameter that permutes the list.  Appends to shared slices are modelled on a
  heap in the require generator, the one place where two slices of one array are alive together.  The
  world of the API calls is a type variable and the scope is passed along.  Strings are lists of bytes.
  Loops are structural recursions, so that no fuel is needed; where a recursion is not structural
  (replacing in strings, reading and matching Lua) its termination is proved.  The one integer whose
  width matters is the port of a token endpoint, which must be below 2 to the power of 63.

  \<^bold>\<open>Parameters.\<close>  Not part of the repository, and arguments of the definitions: the Kubernetes client,
  \<open>SetControllerReference\<close> and \<open>IsControlledBy\<close>; the conflict retry; HTTP; YAML and protobuf
  encoding, the latter documented to accept patches whose texts are valid UTF-8; random bytes, and what
  \<open>reflect.DeepEqual\<close> sees of two objects beyond their values (the internal state of protobuf messages,
  nil slices), both chosen anew for each reconciliation (\<open>runChoices\<close>); the growth of slices; the clock; Istio's evaluation of policies and
  its comparison of claim values; the copy functions of the libraries' metadata types; the outcome of
  the calls that \<open>main\<close> makes.  Every locale has an interpretation: \<open>store_client\<close> is a client over a map
  with faults on demand, \<open>state_controller\<close> a cluster made of it, \<open>istio_reference\<close> an evaluator,
  \<open>go_newcap\<close> the growth of Go's run-time system.

  \<^bold>\<open>Limits.\<close>  A deep comparison (\<open>DeepEqual\<close>) is true only for equal values and may be false for them;
  that it is not is a hypothesis (\<open>exact_comparison\<close>) of the theorems that say that nothing is written or that the
  queue runs empty, and of no other.  The clock is read once in
  a status update.  Matching of claim values and evaluation of token validity are left to Istio.
  In the control loop a reconciliation is one step, so that others change the cluster between
  reconciliations and not within one; the reads of a step see the cluster as it is; the queue is a set
  of requests, and a request that failed comes back.  The hypotheses of its theorems say the rest: the
  cluster starts and stays well-formed (\<open>world_ok\<close>), that is, policy uids are unique, owner references
  tell the truth, and no policy refers to a secret or config map which an AuthPolicy owns; and when
  others change something (\<open>orderly_change\<close>) the policies can be listed (\<open>listable\<close>) and a changed spec has
  a new generation (\<open>generations_tell\<close>).  Without these the guarantees fail: the handlers swallow the
  error of a failed list and skip owned secrets, so that such changes are missed.  Lower case and white space in \<open>Url2crd\<close> are those of
  ASCII.  \<open>url.Parse\<close> is that of the Go release in \<open>go.mod\<close>, without its exception for schemes of databases,
  and errors of the library carry their cause only.

  \<^bold>\<open>Not modelled.\<close>  Parsing of the command line, scheme registration (\<open>groupversion_info.go\<close> and \<open>init\<close>
  of \<open>cmd/main.go\<close>), the registration of the webhook and of the metrics, events and log lines, the
  fake client for tests (\<open>GetMockKubernetesClient\<close>), and the go:generate directives of \<open>hack/crd\<close>:
  libraries that are wired together, without state or decisions of the operator.
\<close>

end
